(* ===== verification/Leelo_Prelude.thy ===== *)
theory Leelo_Prelude
  imports Main "HOL-Library.Word"
begin

text \<open>
  Shared vocabulary of the development. It holds the machine integers the Rust sources use,
  the \<open>Result\<close> type with the combinators that the \<open>?\<close> operator stands for, the iterator
  helpers of the standard library that several crates call, and the theorem collections that
  the component theories fill.

  Conventions used throughout: a \<open>u8\<close> is an \<open>8 word\<close>, so arithmetic wraps exactly as in Rust;
  a fixed array \<open>[u8; N]\<close>, a slice and a \<open>Vec\<close> are lists, with the array length stated where a
  result depends on it; \<open>usize\<close> counters are \<open>nat\<close> because every one of them is bounded by the
  length of a list in memory; a method taking \<open>&mut self\<close> returns the updated state.
\<close>

unbundle bit_operations_syntax

section \<open>Machine integers\<close>

type_synonym u8 = "8 word"
type_synonym u16 = "16 word"
type_synonym u32 = "32 word"
type_synonym u64 = "64 word"
type_synonym bytes = "u8 list"

section \<open>Theorem collections\<close>

named_theorems gf_hom \<open>byte operations as operations of the field type\<close>
named_theorems io_simps \<open>inversion of the stateful combinators\<close>
named_theorems kept \<open>operations that keep an observation of the state\<close>
named_theorems maintained \<open>operations that preserve an invariant of the state\<close>
named_theorems returns \<open>operations that return\<close>
named_theorems result_simps \<open>inversion of the Result combinators\<close>

section \<open>The Result type\<close>

datatype ('a, 'e) result = Ok 'a | Err 'e

text \<open>\<open>and_then r f\<close> is \<open>f(r?)\<close>: the first error leaves the function.\<close>

primrec and_then :: "('a, 'e) result \<Rightarrow> ('a \<Rightarrow> ('b, 'e) result) \<Rightarrow> ('b, 'e) result" where
  "and_then (Ok x) f = f x"
| "and_then (Err e) f = Err e"

primrec map_err :: "('e \<Rightarrow> 'f) \<Rightarrow> ('a, 'e) result \<Rightarrow> ('a, 'f) result" where
  "map_err g (Ok x) = Ok x"
| "map_err g (Err e) = Err (g e)"

primrec map_ok :: "('a \<Rightarrow> 'b) \<Rightarrow> ('a, 'e) result \<Rightarrow> ('b, 'e) result" where
  "map_ok g (Ok x) = Ok (g x)"
| "map_ok g (Err e) = Err e"

primrec ok_or :: "'e \<Rightarrow> 'a option \<Rightarrow> ('a, 'e) result" where
  "ok_or e None = Err e"
| "ok_or e (Some x) = Ok x"

primrec is_ok :: "('a, 'e) result \<Rightarrow> bool" where
  "is_ok (Ok x) = True"
| "is_ok (Err e) = False"

lemma and_then_cong [fundef_cong]:
  "\<lbrakk>r = s; \<And>x. s = Ok x \<Longrightarrow> f x = g x\<rbrakk> \<Longrightarrow> and_then r f = and_then s g"
  by (cases s) auto

lemma and_then_Ok_iff [result_simps]:
  "and_then r f = Ok y \<longleftrightarrow> (\<exists>x. r = Ok x \<and> f x = Ok y)"
  by (cases r) auto

lemma and_then_Err_iff [result_simps]:
  "and_then r f = Err e \<longleftrightarrow> r = Err e \<or> (\<exists>x. r = Ok x \<and> f x = Err e)"
  by (cases r) auto

lemma map_err_Ok_iff [result_simps]: "map_err g r = Ok y \<longleftrightarrow> r = Ok y"
  by (cases r) auto

lemma map_err_Err_iff [result_simps]:
  "map_err g r = Err e \<longleftrightarrow> (\<exists>d. r = Err d \<and> e = g d)"
  by (cases r) auto

lemma map_ok_Ok_iff [result_simps]: "map_ok g r = Ok y \<longleftrightarrow> (\<exists>x. r = Ok x \<and> y = g x)"
  by (cases r) auto

lemma map_ok_Err_iff [result_simps]: "map_ok g r = Err e \<longleftrightarrow> r = Err e"
  by (cases r) auto

lemma ok_or_Ok_iff [result_simps]: "ok_or e r = Ok y \<longleftrightarrow> r = Some y"
  by (cases r) auto

lemma ok_or_Err_iff [result_simps]: "ok_or e r = Err d \<longleftrightarrow> r = None \<and> d = e"
  by (cases r) auto

lemma is_ok_iff: "is_ok r \<longleftrightarrow> (\<exists>x. r = Ok x)"
  by (cases r) auto

text \<open>Code that may also panic or recurse without end has an \<open>outcome\<close>: \<open>None\<close> when it does not return
  normally. \<open>run_then\<close> sequences it with \<open>?\<close>.\<close>

type_synonym ('a, 'e) outcome = "('a, 'e) result option"

definition run_then :: "('a, 'e) outcome \<Rightarrow> ('a \<Rightarrow> ('b, 'e) outcome) \<Rightarrow> ('b, 'e) outcome" where
  "run_then m f = (case m of None \<Rightarrow> None | Some (Err e) \<Rightarrow> Some (Err e) | Some (Ok x) \<Rightarrow> f x)"

lemma run_then_simps [simp]:
  "run_then None f = None"
  "run_then (Some (Err e)) f = Some (Err e)"
  "run_then (Some (Ok x)) f = f x"
  by (simp_all add: run_then_def)

lemma run_then_cong [fundef_cong]:
  "\<lbrakk>m = n; \<And>x. n = Some (Ok x) \<Longrightarrow> f x = g x\<rbrakk> \<Longrightarrow> run_then m f = run_then n g"
  by (auto simp: run_then_def split: option.splits result.splits)

lemma run_then_assoc: "run_then (run_then m f) g = run_then m (\<lambda>x. run_then (f x) g)"
  by (auto simp: run_then_def split: option.splits result.splits)

text \<open>Code that also changes a state is a function from the state to its outcome and the state after it.
  The state after an error is kept, because a caller still sees what a failed call changed; \<open>None\<close>
  stands for a panic, and for a call that does not return under the given schedule. \<open>io_of\<close> lifts a
  result, \<open>io_run\<close> an outcome, \<open>io_do\<close> a total step and \<open>io_try\<close> a fallible one.\<close>

type_synonym ('s, 'a, 'e) io = "'s \<Rightarrow> (('a, 'e) result \<times> 's) option"

definition io_then :: "('s, 'a, 'e) io \<Rightarrow> ('a \<Rightarrow> ('s, 'b, 'e) io) \<Rightarrow> ('s, 'b, 'e) io" where
  "io_then m f s = (case m s of None \<Rightarrow> None | Some (Err e, s') \<Rightarrow> Some (Err e, s') | Some (Ok x, s') \<Rightarrow> f x s')"

definition io_of :: "('a, 'e) result \<Rightarrow> ('s, 'a, 'e) io" where
  "io_of r s = Some (r, s)"

definition io_run :: "('a, 'e) outcome \<Rightarrow> ('s, 'a, 'e) io" where
  "io_run m s = map_option (\<lambda>r. (r, s)) m"

definition io_do :: "('s \<Rightarrow> 'a \<times> 's) \<Rightarrow> ('s, 'a, 'e) io" where
  "io_do m s = (case m s of (x, s') \<Rightarrow> Some (Ok x, s'))"

definition io_try :: "('s \<Rightarrow> ('a, 'e) result \<times> 's) \<Rightarrow> ('s, 'a, 'e) io" where
  "io_try m s = Some (m s)"

definition io_map_err :: "('e \<Rightarrow> 'f) \<Rightarrow> ('s, 'a, 'e) io \<Rightarrow> ('s, 'a, 'f) io" where
  "io_map_err g m s = map_option (\<lambda>(r, s'). (map_err g r, s')) (m s)"

lemma io_then_of [simp]:
  "io_then (io_of (Ok x)) f = f x" "io_then (io_of (Err e)) f = io_of (Err e)"
  by (simp_all add: io_then_def io_of_def fun_eq_iff)

lemma io_then_Ok_iff [io_simps]:
  "io_then m f s = Some (Ok y, t) \<longleftrightarrow> (\<exists>x s'. m s = Some (Ok x, s') \<and> f x s' = Some (Ok y, t))"
  by (auto simp: io_then_def split: option.splits prod.splits result.splits)

lemma io_then_Err_iff [io_simps]:
  "io_then m f s = Some (Err e, t) \<longleftrightarrow>
     m s = Some (Err e, t) \<or> (\<exists>x s'. m s = Some (Ok x, s') \<and> f x s' = Some (Err e, t))"
  by (auto simp: io_then_def split: option.splits prod.splits result.splits)

lemma io_then_None_iff [io_simps]:
  "io_then m f s = None \<longleftrightarrow> m s = None \<or> (\<exists>x s'. m s = Some (Ok x, s') \<and> f x s' = None)"
  by (auto simp: io_then_def split: option.splits prod.splits result.splits)

lemma io_of_iff [io_simps]: "io_of r s = Some (r', t) \<longleftrightarrow> r = r' \<and> t = s" "io_of r s \<noteq> None"
  by (auto simp: io_of_def)

lemma io_run_iff [io_simps]: "io_run m s = Some (r, t) \<longleftrightarrow> m = Some r \<and> t = s" "io_run m s = None \<longleftrightarrow> m = None"
  by (auto simp: io_run_def)

lemma io_do_iff [io_simps]:
  "io_do g s = Some (r, t) \<longleftrightarrow> (\<exists>x. r = Ok x \<and> g s = (x, t))" "io_do g s \<noteq> None"
  by (auto simp: io_do_def split: prod.splits)

lemma io_try_iff [io_simps]: "io_try g s = Some (r, t) \<longleftrightarrow> g s = (r, t)" "io_try g s \<noteq> None"
  by (auto simp: io_try_def)

lemma io_map_err_iff [io_simps]:
  "io_map_err g m s = Some (Ok x, t) \<longleftrightarrow> m s = Some (Ok x, t)"
  "io_map_err g m s = Some (Err d, t) \<longleftrightarrow> (\<exists>e. m s = Some (Err e, t) \<and> d = g e)"
  "io_map_err g m s = None \<longleftrightarrow> m s = None"
  by (auto simp: io_map_err_def result_simps)

text \<open>\<open>keeps H m\<close>: the operation does not change what \<open>H\<close> observes, whether it fails or not.\<close>

definition keeps :: "('s \<Rightarrow> 'h) \<Rightarrow> ('s, 'a, 'e) io \<Rightarrow> bool" where
  "keeps H m \<longleftrightarrow> (\<forall>s r s'. m s = Some (r, s') \<longrightarrow> H s' = H s)"

lemma keeps_of [kept]: "keeps H (io_of r)"
  by (simp add: keeps_def io_of_def)

lemma keeps_then [kept]: "keeps H m \<Longrightarrow> (\<And>x. keeps H (f x)) \<Longrightarrow> keeps H (io_then m f)"
  by (fastforce simp: keeps_def io_then_def split: option.splits prod.splits result.splits)

lemma keeps_if [kept]: "keeps H m \<Longrightarrow> keeps H n \<Longrightarrow> keeps H (if b then m else n)"
  by simp

lemma keeps_prod [kept]: "(\<And>x y. keeps H (f x y)) \<Longrightarrow> keeps H (case p of (x, y) \<Rightarrow> f x y)"
  by (cases p) simp

lemma keeps_map_err [kept]: "keeps H m \<Longrightarrow> keeps H (io_map_err g m)"
  by (auto simp: keeps_def io_map_err_def)

lemma keeps_do [kept]: "(\<And>w. H (snd (f w)) = H w) \<Longrightarrow> keeps H (io_do f)"
  by (auto simp: keeps_def io_do_def split: prod.splits) (metis snd_conv)

lemma keeps_try [kept]: "(\<And>w. H (snd (f w)) = H w) \<Longrightarrow> keeps H (io_try f)"
  by (auto simp: keeps_def io_try_def) (metis snd_conv)

text \<open>\<open>maintains I m\<close>: the operation preserves the invariant, whether it fails or not.\<close>

definition maintains :: "('s \<Rightarrow> bool) \<Rightarrow> ('s, 'a, 'e) io \<Rightarrow> bool" where
  "maintains I m \<longleftrightarrow> (\<forall>s r s'. I s \<longrightarrow> m s = Some (r, s') \<longrightarrow> I s')"

lemma maintains_of [maintained]: "maintains I (io_of r)"
  by (simp add: maintains_def io_of_def)

lemma maintains_then [maintained]:
  assumes "maintains I m" "\<And>x. maintains I (f x)"
  shows "maintains I (io_then m f)"
  unfolding maintains_def
proof (intro allI impI)
  fix s r s' assume s: "I s" and run: "io_then m f s = Some (r, s')"
  then obtain q t where q: "m s = Some (q, t)" by (cases "m s") (auto simp: io_then_def)
  then have "I t" using assms(1) s unfolding maintains_def by blast
  then show "I s'" using run q assms(2) unfolding maintains_def by (cases q) (auto simp: io_then_def)
qed

lemma maintains_if [maintained]: "maintains I m \<Longrightarrow> maintains I n \<Longrightarrow> maintains I (if b then m else n)"
  by simp

lemma maintains_prod [maintained]: "(\<And>x y. maintains I (f x y)) \<Longrightarrow> maintains I (case p of (x, y) \<Rightarrow> f x y)"
  by (cases p) simp

lemma maintains_option [maintained]:
  "maintains I m \<Longrightarrow> (\<And>x. maintains I (f x)) \<Longrightarrow> maintains I (case p of None \<Rightarrow> m | Some x \<Rightarrow> f x)"
  by (cases p) simp_all

lemma maintains_map_err [maintained]: "maintains I m \<Longrightarrow> maintains I (io_map_err g m)"
  by (auto simp: maintains_def io_map_err_def)

text \<open>\<open>io_returns m s\<close>: started in \<open>s\<close>, the operation neither panics nor waits forever.\<close>

definition io_returns :: "('s, 'a, 'e) io \<Rightarrow> 's \<Rightarrow> bool" where
  "io_returns m s \<longleftrightarrow> m s \<noteq> None"

lemma io_returns_then [returns]:
  "io_returns m s \<Longrightarrow> (\<And>x s'. m s = Some (Ok x, s') \<Longrightarrow> io_returns (f x) s') \<Longrightarrow> io_returns (io_then m f) s"
  by (auto simp: io_returns_def io_then_def split: option.splits prod.splits result.splits)

lemma io_returns_if [returns]: "io_returns m s \<Longrightarrow> io_returns m' s \<Longrightarrow> io_returns (if b then m else m') s"
  by simp

lemma io_returns_prod [returns]: "(\<And>x y. io_returns (f x y) s) \<Longrightarrow> io_returns (case p of (x, y) \<Rightarrow> f x y) s"
  by (cases p) simp

lemma io_returns_of [returns]: "io_returns (io_of r) s"
  by (simp add: io_returns_def io_of_def)

section \<open>Iterator helpers\<close>

text \<open>\<open>Iterator::position\<close>: the index of the first element that satisfies the predicate.\<close>

primrec position :: "('a \<Rightarrow> bool) \<Rightarrow> 'a list \<Rightarrow> nat option" where
  "position p [] = None"
| "position p (x # xs) = (if p x then Some 0 else map_option Suc (position p xs))"

lemma position_None_iff: "position p xs = None \<longleftrightarrow> (\<forall>x\<in>set xs. \<not> p x)"
  by (induction xs) auto

lemma position_SomeD:
  "position p xs = Some i \<Longrightarrow> i < length xs \<and> p (xs ! i) \<and> (\<forall>j<i. \<not> p (xs ! j))"
proof (induction xs arbitrary: i)
  case (Cons x xs)
  then show ?case by (auto simp: less_Suc_eq_0_disj split: if_splits)
qed simp

lemma position_eq_Some:
  "\<lbrakk>i < length xs; p (xs ! i); \<And>j. j < i \<Longrightarrow> \<not> p (xs ! j)\<rbrakk> \<Longrightarrow> position p xs = Some i"
proof (induction xs arbitrary: i)
  case (Cons x xs)
  show ?case
  proof (cases i)
    case (Suc k)
    then have "\<not> p x" using Cons.prems(3) [of 0] by simp
    moreover have "position p xs = Some k"
      using Cons.prems(1,2) Suc Cons.prems(3) [of "Suc _"] by (intro Cons.IH) auto
    ultimately show ?thesis using Suc by simp
  qed (use Cons in auto)
qed simp

text \<open>\<open>Iterator::find\<close> by a key that no two elements share.\<close>

lemma find_by_key:
  "distinct (map f xs) \<Longrightarrow> k < length xs \<Longrightarrow> find (\<lambda>x. f x = f (xs ! k)) xs = Some (xs ! k)"
proof (induction xs arbitrary: k)
  case (Cons x xs)
  then show ?case by (cases k) (auto simp: image_iff dest: nth_mem)
qed simp

section \<open>Segments of a list\<close>

text \<open>\<open>segment xs i ys\<close>: the elements of \<open>xs\<close> from position \<open>i\<close> on start with \<open>ys\<close>.\<close>

definition segment :: "'a list \<Rightarrow> nat \<Rightarrow> 'a list \<Rightarrow> bool" where
  "segment xs i ys \<longleftrightarrow> i \<le> length xs \<and> take (length ys) (drop i xs) = ys"

lemma segment_Nil [simp]: "segment xs i [] \<longleftrightarrow> i \<le> length xs"
  by (simp add: segment_def)

lemma segment_iff_append:
  "segment xs i ys \<longleftrightarrow> (\<exists>pre post. xs = pre @ ys @ post \<and> length pre = i)"
proof
  assume "segment xs i ys"
  then have "xs = take i xs @ ys @ drop (length ys) (drop i xs)" "length (take i xs) = i"
    by (metis segment_def append_take_drop_id, simp add: segment_def)
  then show "\<exists>pre post. xs = pre @ ys @ post \<and> length pre = i" by blast
qed (auto simp: segment_def)

lemma segment_append:
  "segment xs i (ys @ zs) \<longleftrightarrow> segment xs i ys \<and> segment xs (i + length ys) zs"
proof
  assume "segment xs i (ys @ zs)"
  then obtain pre post where "xs = pre @ ys @ zs @ post" "length pre = i"
    by (auto simp: segment_iff_append)
  then show "segment xs i ys \<and> segment xs (i + length ys) zs"
    by (auto simp: segment_def)
next
  assume "segment xs i ys \<and> segment xs (i + length ys) zs"
  then show "segment xs i (ys @ zs)"
    by (simp add: segment_def take_add) (simp add: add.commute)
qed

lemma segment_single [simp]: "segment xs i [y] \<longleftrightarrow> i < length xs \<and> xs ! i = y"
  by (cases "i < length xs") (auto simp: segment_def take_Suc_conv_app_nth simp flip: Cons_nth_drop_Suc)

lemma segment_length: "segment xs i ys \<Longrightarrow> i + length ys \<le> length xs"
  by (auto simp: segment_iff_append)

lemma segment_nth: "segment xs i ys \<Longrightarrow> j < length ys \<Longrightarrow> xs ! (i + j) = ys ! j"
  by (auto simp: segment_iff_append nth_append)

lemma segment_all: "segment xs 0 xs"
  by (simp add: segment_def)

lemma segment_whole: "segment xs 0 ys \<Longrightarrow> length ys = length xs \<Longrightarrow> xs = ys"
  by (simp add: segment_def)

section \<open>Choosing a list pointwise\<close>

lemma list_choice1:
  assumes "\<And>b. b < n \<Longrightarrow> \<exists>!c. P b c"
  shows "\<exists>!cs. length cs = n \<and> (\<forall>b<n. P b (cs ! b))"
proof (rule ex1I [of _ "map (\<lambda>b. THE c. P b c) [0..<n]"])
  show "length (map (\<lambda>b. THE c. P b c) [0..<n]) = n \<and>
      (\<forall>b<n. P b (map (\<lambda>b. THE c. P b c) [0..<n] ! b))"
    using theI' [OF assms] by simp
next
  fix cs assume "length cs = n \<and> (\<forall>b<n. P b (cs ! b))"
  then have "length cs = n" "\<And>b. b < n \<Longrightarrow> (THE c. P b c) = cs ! b"
    using assms by (auto intro!: the1_equality)
  then show "cs = map (\<lambda>b. THE c. P b c) [0..<n]"
    by (intro nth_equalityI) simp_all
qed

section \<open>Facts on bytes\<close>

lemma unat_pred: "(t :: u8) \<noteq> 0 \<Longrightarrow> unat (t - 1) = unat t - 1"
  by (metis unat_minus_one)

lemma unat_u8_of_nat: "n < 256 \<Longrightarrow> unat (word_of_nat n :: u8) = n"
  by (simp add: unat_of_nat take_bit_nat_eq_self)

lemma u8_le_31: "(n :: u8) \<le> 31 \<longleftrightarrow> unat n \<le> 31"
  by (simp add: word_le_nat_alt)

lemma foldl_or_zero_iff:
  "foldl (\<lambda>d x. d OR f x) d xs = (0 :: u8) \<longleftrightarrow> d = 0 \<and> (\<forall>x\<in>set xs. f x = 0)"
  by (induction xs arbitrary: d) (auto simp: or_eq_0_iff)

lemma xor_eq_0_iff: "(a :: u8) XOR b = 0 \<longleftrightarrow> a = b"
proof
  assume "a XOR b = 0"
  then have "a XOR (a XOR b) = a" by simp
  then show "a = b" by (simp flip: xor.assoc)
qed simp

text \<open>\<open>u64::saturating_add\<close>.\<close>

definition saturating_add :: "u64 \<Rightarrow> u64 \<Rightarrow> u64" where
  "saturating_add a b = (if a > - 1 - b then - 1 else a + b)"

lemma saturating_add_one: "saturating_add a 1 = (if a = - 1 then - 1 else a + 1)"
proof -
  have "- 1 - 1 < a \<longleftrightarrow> a = (- 1 :: u64)"
  proof
    assume "- 1 - 1 < a"
    then have "2 ^ 64 - 2 < unat a" by (simp add: word_less_nat_alt)
    moreover have "unat a < 2 ^ 64" by (rule order_less_le_trans [OF unsigned_less]) simp
    moreover have "unat (- 1 :: u64) = 2 ^ 64 - 1" by (simp add: unsigned_minus_1_eq_mask mask_eq_exp_minus_1)
    ultimately have "unat a = unat (- 1 :: u64)" by simp
    then show "a = - 1" by (simp only: word_unat_eq_iff)
  qed (simp add: word_less_nat_alt unsigned_minus_1_eq_mask mask_eq_exp_minus_1)
  then show ?thesis by (auto simp: saturating_add_def)
qed

section \<open>Byte strings\<close>

text \<open>The bytes of an ASCII literal, \<open>b"..."\<close> in the sources.\<close>

definition ascii :: "string \<Rightarrow> bytes" where
  "ascii = map (\<lambda>c. word_of_nat (of_char c))"

lemma ascii_simps [simp]:
  "ascii [] = []"
  "ascii (c # cs) = word_of_nat (of_char c) # ascii cs"
  "length (ascii cs) = length cs"
  by (simp_all add: ascii_def)

text \<open>Big-endian bytes of a number, \<open>to_be_bytes\<close>, and their value.\<close>

primrec be_bytes :: "nat \<Rightarrow> nat \<Rightarrow> bytes" where
  "be_bytes 0 n = []"
| "be_bytes (Suc k) n = be_bytes k (n div 256) @ [word_of_nat (n mod 256)]"

definition be_value :: "bytes \<Rightarrow> nat" where
  "be_value bs = foldl (\<lambda>a b. a * 256 + unat b) 0 bs"

lemma length_be_bytes [simp]: "length (be_bytes k n) = k"
  by (induction k arbitrary: n) simp_all

lemma be_value_bytes: "n < 256 ^ k \<Longrightarrow> be_value (be_bytes k n) = n"
proof (induction k arbitrary: n)
  case (Suc k)
  then have "be_value (be_bytes k (n div 256)) = n div 256"
    by (intro Suc.IH) (simp add: less_mult_imp_div_less mult.commute)
  then show ?case by (simp add: be_value_def unat_u8_of_nat)
qed (simp add: be_value_def)

lemma be_bytes_inject: "m < 256 ^ k \<Longrightarrow> n < 256 ^ k \<Longrightarrow> be_bytes k m = be_bytes k n \<Longrightarrow> m = n"
  using be_value_bytes by metis

definition be32 :: "nat \<Rightarrow> bytes" where
  "be32 n = be_bytes 4 n"

lemma length_be32 [simp]: "length (be32 n) = 4"
  by (simp add: be32_def)

lemma be32_inject: "m < 2 ^ 32 \<Longrightarrow> n < 2 ^ 32 \<Longrightarrow> be32 m = be32 n \<Longrightarrow> m = n"
  by (rule be_bytes_inject [of _ 4]) (simp_all add: be32_def)

section \<open>Codecs\<close>

text \<open>A message codec with an exact decoder: decoding inverts encoding on well-formed values, and every
  accepted message is the encoding of the value returned.\<close>

locale exact_codec =
  fixes encode :: "'a \<Rightarrow> bytes" and decode :: "bytes \<Rightarrow> ('a, 'e) result" and wf :: "'a \<Rightarrow> bool"
  assumes decode_encode: "wf x \<Longrightarrow> decode (encode x) = Ok x"
    and decode_exact: "decode bs = Ok x \<Longrightarrow> wf x \<and> bs = encode x"
begin

lemma decode_iff: "decode bs = Ok x \<longleftrightarrow> wf x \<and> bs = encode x"
  using decode_encode decode_exact by blast

lemma encode_inject: "wf x \<Longrightarrow> wf y \<Longrightarrow> encode x = encode y \<longleftrightarrow> x = y"
  using decode_encode by (metis result.inject(1))

end

text \<open>A self-delimiting item codec: reading an item returns it with the rest of the input.\<close>

locale item_codec =
  fixes put :: "'a \<Rightarrow> bytes" and get :: "bytes \<Rightarrow> ('a \<times> bytes, 'e) result" and wf :: "'a \<Rightarrow> bool"
  assumes get_put: "wf x \<Longrightarrow> get (put x @ rest) = Ok (x, rest)"
begin

lemma put_prefix_free:
  assumes "wf x" "wf y" "put x @ r = put y @ r'"
  shows "x = y \<and> r = r'"
proof -
  have "Ok (x, r) = get (put y @ r')" using get_put [OF assms(1), of r] by (simp only: assms(3))
  then show ?thesis by (simp add: get_put [OF assms(2)])
qed

end

text \<open>Reading a counted sequence of items.\<close>

primrec get_many :: "(bytes \<Rightarrow> ('a \<times> bytes, 'e) result) \<Rightarrow> nat \<Rightarrow> bytes \<Rightarrow> ('a list \<times> bytes, 'e) result" where
  "get_many get 0 bs = Ok ([], bs)"
| "get_many get (Suc n) bs =
     and_then (get bs) (\<lambda>(x, bs'). and_then (get_many get n bs') (\<lambda>(xs, bs''). Ok (x # xs, bs'')))"

context item_codec
begin

lemma get_many_put:
  "\<forall>x\<in>set xs. wf x \<Longrightarrow> get_many get (length xs) (concat (map put xs) @ rest) = Ok (xs, rest)"
  by (induction xs) (simp_all add: get_put)

end

end
