(* ===== verification/Policy_Gates.thy ===== *)
theory Policy_Gates
  imports Leelo_Prelude
begin

text \<open>
  The decision functions of crates/leelo-policy/src/verified.rs: threshold gates in postorder, their
  evaluation from authenticated responses, the response recorder and the release decision. The
  specification functions of that file stand beside the executable ones, as in the source.
  Indices and lengths are \<open>usize\<close> and modelled as natural numbers; the only arithmetic on them here
  is counting up to the length of a vector in memory.
\<close>

section \<open>Gates\<close>

datatype gate = Gate_Leaf nat | Gate_Threshold nat "nat list"

primrec count_selected :: "nat list \<Rightarrow> bool list \<Rightarrow> nat \<Rightarrow> nat" where
  "count_selected children vals 0 = 0"
| "count_selected children vals (Suc n) = count_selected children vals n
     + (if children ! n < length vals \<and> vals ! (children ! n) then 1 else 0)"

primrec children_valid :: "nat list \<Rightarrow> bool list \<Rightarrow> nat \<Rightarrow> bool" where
  "children_valid children vals 0 = True"
| "children_valid children vals (Suc n) =
     (children_valid children vals n \<and> children ! n < length vals)"

fun gate_value :: "gate \<Rightarrow> bool list \<Rightarrow> bool list \<Rightarrow> bool" where
  "gate_value (Gate_Leaf response_index) vals responses =
     (response_index < length responses \<and> responses ! response_index)"
| "gate_value (Gate_Threshold required children) vals responses =
     (0 < required \<and> required \<le> length children
      \<and> children_valid children vals (length children)
      \<and> count_selected children vals (length children) \<ge> required)"

text \<open>The loop of \<open>evaluate_gate\<close> over the remaining children, with its \<open>successes\<close> and \<open>valid\<close>.\<close>

fun evaluate_children :: "nat list \<Rightarrow> bool list \<Rightarrow> nat \<Rightarrow> bool \<Rightarrow> nat \<times> bool" where
  "evaluate_children [] vals successes valid = (successes, valid)"
| "evaluate_children (child # children) vals successes valid =
     (if child < length vals
      then evaluate_children children vals (if vals ! child then successes + 1 else successes) valid
      else evaluate_children children vals successes False)"

fun evaluate_gate :: "gate \<Rightarrow> bool list \<Rightarrow> bool list \<Rightarrow> bool" where
  "evaluate_gate (Gate_Leaf response_index) vals responses =
     (response_index < length responses \<and> responses ! response_index)"
| "evaluate_gate (Gate_Threshold required children) vals responses =
     (if required = 0 \<or> required > length children then False
      else case evaluate_children children vals 0 True of
        (successes, valid) \<Rightarrow> valid \<and> successes \<ge> required)"

primrec evaluated_prefix :: "gate list \<Rightarrow> bool list \<Rightarrow> nat \<Rightarrow> bool list" where
  "evaluated_prefix gates responses 0 = []"
| "evaluated_prefix gates responses (Suc n) =
     (let previous = evaluated_prefix gates responses n
      in previous @ [gate_value (gates ! n) previous responses])"

text \<open>The loop of \<open>evaluate_network\<close>: every gate appends its value to the values so far.\<close>

fun evaluate_gates :: "gate list \<Rightarrow> bool list \<Rightarrow> bool list \<Rightarrow> bool list" where
  "evaluate_gates [] vals responses = vals"
| "evaluate_gates (gate # gates) vals responses =
     evaluate_gates gates (vals @ [evaluate_gate gate vals responses]) responses"

definition evaluate_network :: "gate list \<Rightarrow> bool list \<Rightarrow> bool" where
  "evaluate_network gates responses =
     (let vals = evaluate_gates gates [] responses
      in if vals = [] then False else vals ! (length vals - 1))"

definition record_response :: "bool list \<Rightarrow> nat \<Rightarrow> bool \<times> bool list" where
  "record_response responses index =
     (if index \<ge> length responses \<or> responses ! index then (False, responses)
      else (True, responses[index := True]))"

section \<open>Release decision\<close>

record release_state =
  envelope_authenticated :: bool
  tpm_authenticated :: bool
  network_satisfied_flag :: bool
  live_authorized :: bool
  root_authenticated :: bool
  released :: bool

definition release_permitted :: "release_state \<Rightarrow> bool \<Rightarrow> bool" where
  "release_permitted state require_live \<longleftrightarrow>
     envelope_authenticated state \<and> tpm_authenticated state \<and> network_satisfied_flag state
     \<and> (\<not> require_live \<or> live_authorized state) \<and> root_authenticated state \<and> \<not> released state"

definition can_release :: "release_state \<Rightarrow> bool \<Rightarrow> bool" where
  "can_release state require_live \<longleftrightarrow>
     envelope_authenticated state \<and> tpm_authenticated state \<and> network_satisfied_flag state
     \<and> (\<not> require_live \<or> live_authorized state) \<and> root_authenticated state \<and> \<not> released state"

definition try_release :: "release_state \<Rightarrow> bool \<Rightarrow> bool \<times> release_state" where
  "try_release state require_live =
     (if can_release state require_live then (True, state\<lparr>released := True\<rparr>) else (False, state))"

section \<open>Evaluation\<close>

definition selected :: "nat list \<Rightarrow> bool list \<Rightarrow> nat" where
  "selected children vals = length (filter (\<lambda>c. c < length vals \<and> vals ! c) children)"

lemma count_selected_take:
  "n \<le> length children \<Longrightarrow> count_selected children vals n = selected (take n children) vals"
  by (induction n) (simp_all add: selected_def take_Suc_conv_app_nth)

lemma children_valid_take:
  "n \<le> length children \<Longrightarrow>
     children_valid children vals n \<longleftrightarrow> (\<forall>c\<in>set (take n children). c < length vals)"
  by (induction n) (auto simp: take_Suc_conv_app_nth)

lemma evaluate_children_selected:
  "evaluate_children children vals s v =
     (s + selected children vals, v \<and> (\<forall>c\<in>set children. c < length vals))"
  by (induction children vals s v rule: evaluate_children.induct) (auto simp: selected_def)

lemma evaluate_gate_refines: "evaluate_gate g vals responses = gate_value g vals responses"
  by (cases g) (auto simp: evaluate_children_selected count_selected_take children_valid_take)

lemma length_evaluated_prefix [simp]: "length (evaluated_prefix gates responses n) = n"
  by (induction n) (simp_all add: Let_def)

lemma evaluated_prefix_append:
  "n \<le> length gates \<Longrightarrow> evaluated_prefix (gates @ gates2) responses n = evaluated_prefix gates responses n"
  by (induction n) (simp_all add: Let_def nth_append)

lemma evaluate_gates_append:
  "evaluate_gates (gates @ gates2) vals responses =
     evaluate_gates gates2 (evaluate_gates gates vals responses) responses"
  by (induction gates vals responses rule: evaluate_gates.induct) simp_all

lemma evaluate_gates_prefix:
  "evaluate_gates gates [] responses = evaluated_prefix gates responses (length gates)"
  by (induction gates rule: rev_induct)
     (simp_all add: evaluate_gates_append evaluated_prefix_append evaluate_gate_refines Let_def)

lemma length_evaluate_gates [simp]:
  "length (evaluate_gates gates vals responses) = length vals + length gates"
  by (induction gates vals responses rule: evaluate_gates.induct) simp_all

lemma evaluate_gates_Nil_iff [simp]:
  "evaluate_gates gates vals responses = [] \<longleftrightarrow> vals = [] \<and> gates = []"
  using length_evaluate_gates [of gates vals responses]
  by (metis add_is_0 length_0_conv)

lemma evaluate_network_last:
  "evaluate_network gates responses \<longleftrightarrow> gates \<noteq> [] \<and> last (evaluate_gates gates [] responses)"
  by (simp add: evaluate_network_def Let_def last_conv_nth)

text \<open>The vectors of a session grow pointwise, and evaluation follows them.\<close>

lemma selected_mono:
  assumes "length vals = length vals'" "\<And>i. i < length vals \<Longrightarrow> vals ! i \<Longrightarrow> vals' ! i"
  shows "selected children vals \<le> selected children vals'"
  using assms by (induction children) (auto simp: selected_def)

lemma evaluate_gate_mono:
  assumes "length vals = length vals'" "\<And>i. i < length vals \<Longrightarrow> vals ! i \<Longrightarrow> vals' ! i"
    and "length responses = length responses'"
    and "\<And>i. i < length responses \<Longrightarrow> responses ! i \<Longrightarrow> responses' ! i"
    and "evaluate_gate g vals responses"
  shows "evaluate_gate g vals' responses'"
  using assms selected_mono [OF assms(1,2)]
  by (cases g) (auto simp: evaluate_children_selected intro: order_trans split: if_splits)

lemma evaluate_gates_mono:
  assumes "length vals = length vals'" "\<And>i. i < length vals \<Longrightarrow> vals ! i \<Longrightarrow> vals' ! i"
    and "length responses = length responses'"
    and "\<And>i. i < length responses \<Longrightarrow> responses ! i \<Longrightarrow> responses' ! i"
    and "i < length vals + length gates" "evaluate_gates gates vals responses ! i"
  shows "evaluate_gates gates vals' responses' ! i"
  using assms
proof (induction gates arbitrary: vals vals')
  case (Cons g gates)
  have "evaluate_gate g vals responses \<Longrightarrow> evaluate_gate g vals' responses'"
    using evaluate_gate_mono [OF Cons.prems(1-4)] by blast
  then have "\<And>j. j < length (vals @ [evaluate_gate g vals responses])
      \<Longrightarrow> (vals @ [evaluate_gate g vals responses]) ! j
      \<Longrightarrow> (vals' @ [evaluate_gate g vals' responses']) ! j"
    using Cons.prems(1,2) by (auto simp: nth_append split: if_splits)
  then show ?case
    using Cons.IH [of "vals @ [evaluate_gate g vals responses]"
        "vals' @ [evaluate_gate g vals' responses']"] Cons.prems by simp
qed simp

section \<open>Properties\<close>

text \<open>The network evaluator computes the specification of verified.rs: it is true exactly when
  there is a gate and the last value of the evaluated prefix is true; every gate is evaluated to
  its specified value.\<close>

theorem evaluate_network_refines:
  "evaluate_network gates responses \<longleftrightarrow>
     0 < length gates \<and> last (evaluated_prefix gates responses (length gates))"
  by (auto simp: evaluate_network_last evaluate_gates_prefix)

text \<open>Evaluation is monotone: a response vector that has every success of another one satisfies
  every network the other satisfies.\<close>

theorem evaluate_network_monotone:
  assumes "length responses = length responses'"
    and "\<forall>i<length responses. responses ! i \<longrightarrow> responses' ! i"
    and "evaluate_network gates responses"
  shows "evaluate_network gates responses'"
  using assms evaluate_gates_mono [of "[]" "[]" responses responses' "length gates - 1" gates]
  by (auto simp: evaluate_network_def Let_def split: if_splits)

end
