(* ===== verification/Policy_Compile.thy ===== *)
theory Policy_Compile
  imports Policy_Gates
begin

text \<open>
  The source-to-plan certificate checker of crates/leelo-policy/src/verified_compile.rs, with the
  specification functions it is stated in. A provider id is a byte list; the array length 32 is
  \<open>wf_node\<close>, which the theorems that need it assume.

  The specification functions of the source carry a depth bound. Beside them stand the plain
  structural functions \<open>nodes\<close>, \<open>tree_leaves\<close>, \<open>height\<close> and \<open>layout\<close> (the postorder gate list of a
  tree), on which the proofs run: the checker accepts exactly the layout of the tree.
\<close>

section \<open>Source trees\<close>

datatype network_node =
    Network_Leaf u8 bytes
  | Network_Threshold u8 u8 "network_node list"

type_synonym leaf_entry = "u8 \<times> bytes"

function (sequential) node_count :: "network_node \<Rightarrow> nat \<Rightarrow> nat"
  and forest_nodes :: "network_node list \<Rightarrow> nat \<Rightarrow> nat \<Rightarrow> nat" where
  "node_count node 0 = 0"
| "node_count (Network_Leaf i p) (Suc d) = 1"
| "node_count (Network_Threshold i r children) (Suc d) =
     1 + forest_nodes children (length children) (Suc d)"
| "forest_nodes ns 0 depth = 0"
| "forest_nodes ns (Suc n) 0 = 0"
| "forest_nodes ns (Suc n) (Suc d) = forest_nodes ns n (Suc d) + node_count (ns ! n) d"
  by pat_completeness auto
termination
  by (relation "measures [case_sum snd (snd \<circ> snd), case_sum (\<lambda>_. 1) (\<lambda>_. 0),
        case_sum (\<lambda>_. 0) (fst \<circ> snd)]") auto

function (sequential) leaf_count :: "network_node \<Rightarrow> nat \<Rightarrow> nat"
  and forest_leaves :: "network_node list \<Rightarrow> nat \<Rightarrow> nat \<Rightarrow> nat" where
  "leaf_count node 0 = 0"
| "leaf_count (Network_Leaf i p) (Suc d) = 1"
| "leaf_count (Network_Threshold i r children) (Suc d) =
     forest_leaves children (length children) (Suc d)"
| "forest_leaves ns 0 depth = 0"
| "forest_leaves ns (Suc n) 0 = 0"
| "forest_leaves ns (Suc n) (Suc d) = forest_leaves ns n (Suc d) + leaf_count (ns ! n) d"
  by pat_completeness auto
termination
  by (relation "measures [case_sum snd (snd \<circ> snd), case_sum (\<lambda>_. 1) (\<lambda>_. 0),
        case_sum (\<lambda>_. 0) (fst \<circ> snd)]") auto

text \<open>Direct semantics of a source tree; response positions follow the source leaf order.\<close>

function (sequential) source_value :: "network_node \<Rightarrow> bool list \<Rightarrow> nat \<Rightarrow> nat \<Rightarrow> bool"
  and source_successes :: "network_node list \<Rightarrow> nat \<Rightarrow> bool list \<Rightarrow> nat \<Rightarrow> nat \<Rightarrow> nat" where
  "source_value node responses leaf_start 0 = False"
| "source_value (Network_Leaf i p) responses leaf_start (Suc d) =
     (leaf_start < length responses \<and> responses ! leaf_start)"
| "source_value (Network_Threshold i required children) responses leaf_start (Suc d) =
     (0 < unat required \<and> unat required \<le> length children
      \<and> source_successes children (length children) responses leaf_start (Suc d) \<ge> unat required)"
| "source_successes ns 0 responses leaf_start depth = 0"
| "source_successes ns (Suc n) responses leaf_start 0 = 0"
| "source_successes ns (Suc n) responses leaf_start (Suc d) =
     source_successes ns n responses leaf_start (Suc d)
     + (if source_value (ns ! n) responses (leaf_start + forest_leaves ns n (Suc d)) d then 1 else 0)"
  by pat_completeness auto
termination
  by (relation "measures [case_sum (snd \<circ> snd \<circ> snd) (snd \<circ> snd \<circ> snd \<circ> snd),
        case_sum (\<lambda>_. 1) (\<lambda>_. 0), case_sum (\<lambda>_. 0) (fst \<circ> snd)]") auto

fun compiled_at ::
  "network_node \<Rightarrow> gate list \<Rightarrow> leaf_entry list \<Rightarrow> nat \<Rightarrow> nat \<Rightarrow> nat \<Rightarrow> bool" where
  "compiled_at node gates leaves gate_start leaf_start 0 = False"
| "compiled_at (Network_Leaf i provider_id) gates leaves gate_start leaf_start (Suc d) =
     (gate_start + 1 \<le> length gates \<and> leaf_start + 1 \<le> length leaves
      \<and> leaves ! leaf_start = (i, provider_id) \<and> gates ! gate_start = Gate_Leaf leaf_start)"
| "compiled_at (Network_Threshold i required children) gates leaves gate_start leaf_start (Suc d) =
     (let nc = node_count (Network_Threshold i required children) (Suc d);
          lc = leaf_count (Network_Threshold i required children) (Suc d)
      in 0 < nc \<and> 0 < lc \<and> gate_start + nc \<le> length gates \<and> leaf_start + lc \<le> length leaves
         \<and> 0 < unat required \<and> unat required \<le> length children
         \<and> (case gates ! (gate_start + nc - 1) of
              Gate_Threshold actual edges \<Rightarrow>
                actual = unat required \<and> length edges = length children
                \<and> (\<forall>k\<in>set [0..<length children].
                     let begin = gate_start + forest_nodes children k (Suc d);
                         size = node_count (children ! k) d
                     in edges ! k = begin + size - 1 \<and> edges ! k < gate_start + nc - 1
                        \<and> compiled_at (children ! k) gates leaves begin
                             (leaf_start + forest_leaves children k (Suc d)) d)
            | Gate_Leaf _ \<Rightarrow> False))"

section \<open>The certificate checker\<close>

definition same_provider :: "bytes \<Rightarrow> bytes \<Rightarrow> bool" where
  "same_provider a b = list_all (\<lambda>i. a ! i = b ! i) [0..<32]"

definition same_edges :: "nat list \<Rightarrow> nat list \<Rightarrow> bool" where
  "same_edges edges expected = list_all (\<lambda>j. edges ! j = expected ! j) [0..<length edges]"

fun check_subtree ::
    "network_node \<Rightarrow> gate list \<Rightarrow> leaf_entry list \<Rightarrow> nat \<Rightarrow> nat \<Rightarrow> nat \<Rightarrow> bool \<times> nat \<times> nat"
  and check_children ::
    "network_node list \<Rightarrow> gate list \<Rightarrow> leaf_entry list \<Rightarrow> nat \<Rightarrow> nat \<Rightarrow> nat \<Rightarrow> nat list
       \<Rightarrow> (nat \<times> nat \<times> nat list) option" where
  "check_subtree (Network_Leaf i provider_id) gates leaves gate_start leaf_start depth =
     (if depth = 0 \<or> gate_start \<ge> length gates \<or> leaf_start \<ge> length leaves
      then (False, gate_start, leaf_start)
      else if fst (leaves ! leaf_start) \<noteq> i
              \<or> \<not> same_provider (snd (leaves ! leaf_start)) provider_id
      then (False, gate_start, leaf_start)
      else case gates ! gate_start of
             Gate_Leaf response_index \<Rightarrow>
               if response_index \<noteq> leaf_start then (False, gate_start, leaf_start)
               else (True, gate_start + 1, leaf_start + 1)
           | Gate_Threshold _ _ \<Rightarrow> (False, gate_start, leaf_start))"
| "check_subtree (Network_Threshold i required children) gates leaves gate_start leaf_start depth =
     (if depth = 0 \<or> gate_start \<ge> length gates \<or> leaf_start \<ge> length leaves
      then (False, gate_start, leaf_start)
      else if required = 0 \<or> unat required > length children then (False, gate_start, leaf_start)
      else case check_children children gates leaves gate_start leaf_start (depth - 1) [] of
             None \<Rightarrow> (False, gate_start, leaf_start)
           | Some (gc, lc, expected) \<Rightarrow>
               if gc \<ge> length gates then (False, gate_start, leaf_start)
               else case gates ! gc of
                      Gate_Threshold actual edges \<Rightarrow>
                        if actual \<noteq> unat required \<or> length edges \<noteq> length expected
                        then (False, gate_start, leaf_start)
                        else if \<not> same_edges edges expected then (False, gate_start, leaf_start)
                        else (True, gc + 1, lc)
                    | Gate_Leaf _ \<Rightarrow> (False, gate_start, leaf_start))"
| "check_children [] gates leaves gc lc depth expected = Some (gc, lc, expected)"
| "check_children (child # children) gates leaves gc lc depth expected =
     (case check_subtree child gates leaves gc lc depth of
        (ok, g, l) \<Rightarrow>
          if \<not> ok then None else check_children children gates leaves g l depth (expected @ [g - 1]))"

definition check_compilation :: "network_node \<Rightarrow> gate list \<Rightarrow> leaf_entry list \<Rightarrow> bool" where
  "check_compilation node gates leaves =
     (case check_subtree node gates leaves 0 0 3 of
        (ok, g, l) \<Rightarrow> ok \<and> g = length gates \<and> l = length leaves)"

section \<open>Structure of a tree\<close>

primrec nodes :: "network_node \<Rightarrow> nat" where
  "nodes (Network_Leaf i p) = 1"
| "nodes (Network_Threshold i r children) = Suc (sum_list (map nodes children))"

primrec tree_leaves :: "network_node \<Rightarrow> leaf_entry list" where
  "tree_leaves (Network_Leaf i p) = [(i, p)]"
| "tree_leaves (Network_Threshold i r children) = concat (map tree_leaves children)"

primrec tree_ids :: "network_node \<Rightarrow> u8 list" where
  "tree_ids (Network_Leaf i p) = [i]"
| "tree_ids (Network_Threshold i r children) = i # concat (map tree_ids children)"

primrec height :: "network_node \<Rightarrow> nat" where
  "height (Network_Leaf i p) = 1"
| "height (Network_Threshold i r children) = Suc (foldr max (map height children) 0)"

primrec thresholds_valid :: "network_node \<Rightarrow> bool" where
  "thresholds_valid (Network_Leaf i p) = True"
| "thresholds_valid (Network_Threshold i r children) =
     (r \<noteq> 0 \<and> unat r \<le> length children \<and> list_all id (map thresholds_valid children))"

primrec wf_node :: "network_node \<Rightarrow> bool" where
  "wf_node (Network_Leaf i p) = (length p = 32)"
| "wf_node (Network_Threshold i r children) = list_all id (map wf_node children)"

abbreviation forest_size :: "network_node list \<Rightarrow> nat" where
  "forest_size children \<equiv> sum_list (map nodes children)"

abbreviation forest_entries :: "network_node list \<Rightarrow> leaf_entry list" where
  "forest_entries children \<equiv> concat (map tree_leaves children)"

text \<open>The gates of a tree in postorder, from gate position \<open>g\<close> and leaf position \<open>l\<close> on, and the
  positions of the root gates of a forest.\<close>

primrec child_roots :: "network_node list \<Rightarrow> nat \<Rightarrow> nat list" where
  "child_roots [] g = []"
| "child_roots (c # cs) g = (g + nodes c - 1) # child_roots cs (g + nodes c)"

fun layout :: "network_node \<Rightarrow> nat \<Rightarrow> nat \<Rightarrow> gate list"
  and layout_forest :: "network_node list \<Rightarrow> nat \<Rightarrow> nat \<Rightarrow> gate list" where
  "layout (Network_Leaf i p) g l = [Gate_Leaf l]"
| "layout (Network_Threshold i r children) g l =
     layout_forest children g l @ [Gate_Threshold (unat r) (child_roots children g)]"
| "layout_forest [] g l = []"
| "layout_forest (c # cs) g l =
     layout c g l @ layout_forest cs (g + nodes c) (l + length (tree_leaves c))"

lemma nodes_pos [simp]: "0 < nodes node"
  by (cases node) simp_all

lemma nodes_nonzero [simp]: "nodes node \<noteq> 0"
  using nodes_pos [of node] by simp

lemma length_le_forest_size: "length cs \<le> forest_size cs"
proof (induction cs)
  case (Cons c cs)
  then show ?case using nodes_pos [of c] by (simp del: nodes_pos)
qed simp

lemma height_pos [simp]: "0 < height node"
  by (cases node) simp_all

lemma height_nonzero [simp]: "height node \<noteq> 0"
  using height_pos [of node] by simp

lemma list_all_id_map [simp]: "list_all id (map f xs) \<longleftrightarrow> (\<forall>x\<in>set xs. f x)"
  by (simp add: list_all_iff)

lemma foldr_max_le: "foldr max (map height cs) 0 \<le> d \<longleftrightarrow> (\<forall>c\<in>set cs. height c \<le> d)"
  by (induction cs) auto

lemma length_child_roots [simp]: "length (child_roots cs g) = length cs"
  by (induction cs arbitrary: g) simp_all

lemma length_layout [simp]:
  "length (layout node g l) = nodes node"
  "length (layout_forest cs g l) = forest_size cs"
  by (induction node g l and cs g l rule: layout_layout_forest.induct) simp_all

lemma tree_leaves_nonempty: "thresholds_valid node \<Longrightarrow> tree_leaves node \<noteq> []"
proof (induction node)
  case (Network_Threshold i r children)
  then obtain c where "c \<in> set children"
    by (cases children) (auto simp: unat_eq_zero)
  then show ?case using Network_Threshold by auto
qed simp

lemma same_provider_refl [simp]: "same_provider p p"
  by (simp add: same_provider_def list_all_iff)

lemma same_provider_iff: "length a = 32 \<Longrightarrow> length b = 32 \<Longrightarrow> same_provider a b \<longleftrightarrow> a = b"
  by (auto simp: same_provider_def list_all_iff intro!: nth_equalityI)

lemma same_edges_iff: "length a = length b \<Longrightarrow> same_edges a b \<longleftrightarrow> a = b"
  by (auto simp: same_edges_def list_all_iff intro!: nth_equalityI)

section \<open>The checker accepts exactly the layout\<close>

text \<open>\<open>fits node gates leaves g l depth\<close>: the plan holds the layout of the tree at the two positions,
  its thresholds are valid and it is not higher than the depth bound.\<close>

definition fits ::
  "network_node \<Rightarrow> gate list \<Rightarrow> leaf_entry list \<Rightarrow> nat \<Rightarrow> nat \<Rightarrow> nat \<Rightarrow> bool" where
  "fits node gates leaves g l depth \<longleftrightarrow> height node \<le> depth \<and> thresholds_valid node
     \<and> segment gates g (layout node g l) \<and> segment leaves l (tree_leaves node)"

definition fits_forest ::
  "network_node list \<Rightarrow> gate list \<Rightarrow> leaf_entry list \<Rightarrow> nat \<Rightarrow> nat \<Rightarrow> nat \<Rightarrow> bool" where
  "fits_forest cs gates leaves g l depth \<longleftrightarrow> (\<forall>c\<in>set cs. height c \<le> depth \<and> thresholds_valid c)
     \<and> segment gates g (layout_forest cs g l) \<and> segment leaves l (forest_entries cs)"

lemma fits_leaf:
  "fits (Network_Leaf i p) gates leaves g l depth \<longleftrightarrow> 0 < depth
     \<and> g < length gates \<and> gates ! g = Gate_Leaf l \<and> l < length leaves \<and> leaves ! l = (i, p)"
  by (auto simp: fits_def)

lemma fits_threshold:
  "fits (Network_Threshold i r cs) gates leaves g l depth \<longleftrightarrow>
     0 < depth \<and> r \<noteq> 0 \<and> unat r \<le> length cs \<and> fits_forest cs gates leaves g l (depth - 1)
     \<and> g + forest_size cs < length gates
     \<and> gates ! (g + forest_size cs) = Gate_Threshold (unat r) (child_roots cs g)"
  by (cases depth) (auto simp: fits_def fits_forest_def segment_append foldr_max_le)

lemma fits_forest_Nil:
  "fits_forest [] gates leaves g l depth \<longleftrightarrow> g \<le> length gates \<and> l \<le> length leaves"
  by (simp add: fits_forest_def)

lemma fits_forest_Cons:
  "fits_forest (c # cs) gates leaves g l depth \<longleftrightarrow> fits c gates leaves g l depth
     \<and> fits_forest cs gates leaves (g + nodes c) (l + length (tree_leaves c)) depth"
  by (auto simp: fits_def fits_forest_def segment_append)

lemma fits_bounds:
  assumes "fits node gates leaves g l depth"
  shows "0 < depth" "g < length gates" "l < length leaves"
proof -
  have "0 < length (tree_leaves node)"
    using assms tree_leaves_nonempty by (auto simp: fits_def)
  then show "0 < depth" "g < length gates" "l < length leaves"
    using assms segment_length [of gates g "layout node g l"]
      segment_length [of leaves l "tree_leaves node"] nodes_pos [of node] height_pos [of node]
    by (auto simp: fits_def simp del: nodes_pos height_pos length_greater_0_conv)
qed

lemma fits_forest_bounds:
  "fits_forest cs gates leaves g l depth \<Longrightarrow> g \<le> length gates \<and> l \<le> length leaves"
  by (auto simp: fits_forest_def segment_def)

lemma check_complete:
  "fits node gates leaves g l depth \<Longrightarrow>
     check_subtree node gates leaves g l depth = (True, g + nodes node, l + length (tree_leaves node))"
  "fits_forest cs gates leaves g l depth \<Longrightarrow>
     check_children cs gates leaves g l depth expected =
       Some (g + forest_size cs, l + length (forest_entries cs), expected @ child_roots cs g)"
proof (induction node gates leaves g l depth and cs gates leaves g l depth expected
    rule: check_subtree_check_children.induct)
  case (2 i required children gates leaves gate_start leaf_start depth)
  then show ?case
    using fits_bounds [OF 2(2)] by (auto simp: fits_threshold same_edges_iff not_less)
next
  case (4 child children gates leaves gc lc depth expected)
  then show ?case by (simp add: fits_forest_Cons algebra_simps)
qed (auto simp: fits_leaf)

lemma check_sound:
  "check_subtree node gates leaves g l depth = (True, g', l') \<Longrightarrow> wf_node node \<Longrightarrow>
     \<forall>e\<in>set leaves. length (snd e) = 32 \<Longrightarrow>
     fits node gates leaves g l depth \<and> g' = g + nodes node \<and> l' = l + length (tree_leaves node)"
  "check_children cs gates leaves g l depth expected = Some (g', l', expected') \<Longrightarrow>
     \<forall>c\<in>set cs. wf_node c \<Longrightarrow> \<forall>e\<in>set leaves. length (snd e) = 32 \<Longrightarrow>
     g \<le> length gates \<Longrightarrow> l \<le> length leaves \<Longrightarrow>
     fits_forest cs gates leaves g l depth \<and> g' = g + forest_size cs
     \<and> l' = l + length (forest_entries cs) \<and> expected' = expected @ child_roots cs g"
proof (induction node gates leaves g l depth and cs gates leaves g l depth expected
    arbitrary: g' l' and g' l' expected' rule: check_subtree_check_children.induct)
  case (1 i provider_id gates leaves gate_start leaf_start depth)
  then show ?case
    by (auto simp: fits_leaf same_provider_iff prod_eq_iff not_le split: if_splits gate.splits)
next
  case (2 i required children gates leaves gate_start leaf_start depth)
  then show ?case
    by (auto simp: fits_threshold same_edges_iff not_le split: if_splits gate.splits option.splits)
next
  case (4 child children gates leaves gc lc depth expected)
  obtain g1 l1 where step: "check_subtree child gates leaves gc lc depth = (True, g1, l1)"
    using 4(3) by (auto split: prod.splits if_splits)
  then have child: "fits child gates leaves gc lc depth" "g1 = gc + nodes child"
      "l1 = lc + length (tree_leaves child)"
    using 4(1) 4(4,5) by auto
  then have "g1 \<le> length gates" "l1 \<le> length leaves"
    using segment_length by (fastforce simp: fits_def)+
  then show ?case
    using 4(2) [OF step [symmetric] refl] 4(3-) step child by (auto simp: fits_forest_Cons)
qed (auto simp: fits_forest_Nil)

lemma check_compilation_iff:
  assumes "wf_node node" "\<forall>e\<in>set leaves. length (snd e) = 32"
  shows "check_compilation node gates leaves \<longleftrightarrow>
     height node \<le> 3 \<and> thresholds_valid node \<and> gates = layout node 0 0 \<and> leaves = tree_leaves node"
proof
  assume "check_compilation node gates leaves"
  then have "check_subtree node gates leaves 0 0 3 = (True, length gates, length leaves)"
    by (auto simp: check_compilation_def split: prod.splits)
  then have "fits node gates leaves 0 0 3" "nodes node = length gates"
      "length (tree_leaves node) = length leaves"
    using check_sound(1) [OF _ assms] by force+
  then show "height node \<le> 3 \<and> thresholds_valid node \<and> gates = layout node 0 0
      \<and> leaves = tree_leaves node"
    by (auto simp: fits_def intro: segment_whole)
next
  assume "height node \<le> 3 \<and> thresholds_valid node \<and> gates = layout node 0 0
      \<and> leaves = tree_leaves node"
  then show "check_compilation node gates leaves"
    using check_complete(1) [of node gates leaves 0 0 3]
    by (auto simp: check_compilation_def fits_def segment_all)
qed

section \<open>The plan computes the tree\<close>

text \<open>Value of a tree from its leaf position on, without a depth bound, and the meaning of a policy
  tree over the set of leaf ids that answered.\<close>

fun tree_value :: "network_node \<Rightarrow> bool list \<Rightarrow> nat \<Rightarrow> bool"
  and tree_values :: "network_node list \<Rightarrow> bool list \<Rightarrow> nat \<Rightarrow> bool list" where
  "tree_value (Network_Leaf i p) responses l = (l < length responses \<and> responses ! l)"
| "tree_value (Network_Threshold i r children) responses l =
     (0 < unat r \<and> unat r \<le> length children
      \<and> length (filter id (tree_values children responses l)) \<ge> unat r)"
| "tree_values [] responses l = []"
| "tree_values (c # cs) responses l =
     tree_value c responses l # tree_values cs responses (l + length (tree_leaves c))"

primrec satisfied :: "(u8 \<Rightarrow> bool) \<Rightarrow> network_node \<Rightarrow> bool" where
  "satisfied A (Network_Leaf i p) = A i"
| "satisfied A (Network_Threshold i r children) =
     (unat r \<le> length (filter id (map (satisfied A) children)))"

lemma child_roots_bound: "e \<in> set (child_roots cs g) \<Longrightarrow> g \<le> e \<and> e < g + forest_size cs"
proof (induction cs arbitrary: g)
  case (Cons c cs)
  then show ?case using nodes_pos [of c] by (fastforce simp del: nodes_pos)
qed simp

lemma selected_map: "\<forall>c\<in>set cs. c < length vals \<Longrightarrow> selected cs vals = length (filter id (map ((!) vals) cs))"
  by (induction cs) (auto simp: selected_def)

lemma evaluate_layout:
  "length vals = g \<Longrightarrow> \<exists>vs. evaluate_gates (layout node g l) vals responses =
       vals @ vs @ [tree_value node responses l] \<and> length vs = nodes node - 1"
  "length vals = g \<Longrightarrow> \<exists>vs. evaluate_gates (layout_forest cs g l) vals responses = vals @ vs
       \<and> length vs = forest_size cs \<and> map ((!) (vals @ vs)) (child_roots cs g) = tree_values cs responses l"
proof (induction node g l and cs g l arbitrary: vals and vals rule: layout_layout_forest.induct)
  case (2 i r children g l)
  then obtain vs where vs: "evaluate_gates (layout_forest children g l) vals responses = vals @ vs"
      "length vs = forest_size children"
      "map ((!) (vals @ vs)) (child_roots children g) = tree_values children responses l"
    by blast
  moreover have valid: "\<forall>c\<in>set (child_roots children g). c < length (vals @ vs)"
    using child_roots_bound 2(2) vs(2) by fastforce
  ultimately have "selected (child_roots children g) (vals @ vs) =
      length (filter id (tree_values children responses l))"
    by (simp only: selected_map)
  then have "evaluate_gate (Gate_Threshold (unat r) (child_roots children g)) (vals @ vs) responses
      = tree_value (Network_Threshold i r children) responses l"
    using valid by (auto simp: evaluate_children_selected)
  then show ?case
    using vs(1,2) by (auto simp: evaluate_gates_append simp del: evaluate_gate.simps tree_value.simps)
next
  case (4 c cs g l)
  obtain vs where vs: "evaluate_gates (layout c g l) vals responses =
      vals @ vs @ [tree_value c responses l]" "length vs = nodes c - 1"
    using 4(1,3) by blast
  define mid where "mid = vals @ vs @ [tree_value c responses l]"
  have mid: "length mid = g + nodes c" using 4(3) vs(2) nodes_pos [of c] by (simp add: mid_def del: nodes_pos)
  obtain ws where ws: "evaluate_gates (layout_forest cs (g + nodes c) (l + length (tree_leaves c)))
        mid responses = mid @ ws" "length ws = forest_size cs"
      "map ((!) (mid @ ws)) (child_roots cs (g + nodes c)) =
        tree_values cs responses (l + length (tree_leaves c))"
    using 4(2) [OF mid] by blast
  have "(mid @ ws) ! (g + nodes c - 1) = tree_value c responses l"
    using 4(3) vs(2) by (cases "nodes c") (simp_all add: mid_def nth_append)
  then show ?case
    using ws vs(1) mid 4(3) by (intro exI [of _ "vs @ [tree_value c responses l] @ ws"])
      (simp add: evaluate_gates_append flip: mid_def, simp add: mid_def)
qed simp_all

lemma evaluate_network_layout: "evaluate_network (layout node 0 0) responses = tree_value node responses 0"
proof -
  have "layout node 0 0 \<noteq> []" by (metis length_layout(1) list.size(3) nodes_pos less_irrefl)
  then show ?thesis
    using evaluate_layout(1) [of "[]" 0 node 0 responses] by (auto simp: evaluate_network_last)
qed

lemma tree_value_satisfied:
  "segment leaves l (tree_leaves node) \<Longrightarrow> thresholds_valid node \<Longrightarrow>
     tree_value node (map (A \<circ> fst) leaves) l = satisfied A node"
  "segment leaves l (forest_entries cs) \<Longrightarrow> \<forall>c\<in>set cs. thresholds_valid c \<Longrightarrow>
     tree_values cs (map (A \<circ> fst) leaves) l = map (satisfied A) cs"
proof (induction node "map (A \<circ> fst) leaves" l and cs "map (A \<circ> fst) leaves" l
    rule: tree_value_tree_values.induct)
  case (2 i r children l)
  then show ?case by (auto simp: unat_gt_0)
qed (auto simp: segment_append)

section \<open>The depth-bounded specifications\<close>

lemma forest_nodes_take:
  assumes "\<forall>c\<in>set cs. node_count c d = nodes c" "n \<le> length cs"
  shows "forest_nodes cs n (Suc d) = forest_size (take n cs)"
  using assms by (induction n) (auto simp: take_Suc_conv_app_nth)

lemma node_count_nodes: "height node \<le> depth \<Longrightarrow> node_count node depth = nodes node"
proof (induction depth arbitrary: node)
  case (Suc d)
  then show ?case
    by (cases node) (auto simp: foldr_max_le forest_nodes_take)
qed simp

lemma forest_leaves_take:
  assumes "\<forall>c\<in>set cs. leaf_count c d = length (tree_leaves c)" "n \<le> length cs"
  shows "forest_leaves cs n (Suc d) = length (forest_entries (take n cs))"
  using assms by (induction n) (auto simp: take_Suc_conv_app_nth)

lemma leaf_count_leaves: "height node \<le> depth \<Longrightarrow> leaf_count node depth = length (tree_leaves node)"
proof (induction depth arbitrary: node)
  case (Suc d)
  then show ?case
    by (cases node) (auto simp: foldr_max_le forest_leaves_take)
qed simp

lemma tree_values_snoc:
  "tree_values (cs @ [c]) responses l =
     tree_values cs responses l @ [tree_value c responses (l + length (forest_entries cs))]"
  by (induction cs arbitrary: l) (simp_all add: algebra_simps)

lemma source_successes_take:
  assumes "\<forall>c\<in>set cs. height c \<le> d \<and> (\<forall>l. source_value c responses l d = tree_value c responses l)"
    and "n \<le> length cs"
  shows "source_successes cs n responses l (Suc d) = length (filter id (tree_values (take n cs) responses l))"
  using assms
proof (induction n)
  case (Suc n)
  have "forest_leaves cs n (Suc d) = length (forest_entries (take n cs))"
    using Suc.prems by (intro forest_leaves_take) (auto simp: leaf_count_leaves)
  then show ?case
    using Suc by (auto simp: take_Suc_conv_app_nth tree_values_snoc)
qed simp

lemma source_value_tree: "height node \<le> depth \<Longrightarrow> source_value node responses l depth = tree_value node responses l"
proof (induction depth arbitrary: node l)
  case (Suc d)
  then show ?case
    by (cases node) (auto simp: foldr_max_le source_successes_take)
qed simp

lemma nth_child_roots:
  "k < length cs \<Longrightarrow> child_roots cs g ! k = g + forest_size (take k cs) + nodes (cs ! k) - 1"
proof (induction cs arbitrary: g k)
  case (Cons c cs)
  then show ?case by (cases k) (auto simp: add.assoc)
qed simp

lemma fits_forest_nth:
  "fits_forest cs gates leaves g l d \<Longrightarrow> k < length cs \<Longrightarrow>
     fits (cs ! k) gates leaves (g + forest_size (take k cs)) (l + length (forest_entries (take k cs))) d"
proof (induction cs arbitrary: g l k)
  case (Cons c cs)
  then show ?case
    by (cases k) (auto simp: fits_forest_Cons add.assoc dest!: Cons.IH)
qed simp

lemma fits_compiled_at:
  "fits node gates leaves g l depth \<Longrightarrow> compiled_at node gates leaves g l depth"
proof (induction depth arbitrary: node g l)
  case 0
  then show ?case using fits_bounds(1) by blast
next
  case (Suc d)
  show ?case
  proof (cases node)
    case (Network_Leaf i p)
    then show ?thesis using Suc.prems by (auto simp: fits_leaf)
  next
    case (Network_Threshold i r cs)
    let ?n = "Network_Threshold i r cs"
    have fit: "fits ?n gates leaves g l (Suc d)" using Suc.prems Network_Threshold by simp
    then have forest: "fits_forest cs gates leaves g l d" by (simp add: fits_threshold)
    have high: "\<forall>c\<in>set cs. height c \<le> d" using forest by (auto simp: fits_forest_def)
    have counts: "node_count ?n (Suc d) = Suc (forest_size cs)"
        "leaf_count ?n (Suc d) = length (forest_entries cs)"
      using fit node_count_nodes [of ?n "Suc d"] leaf_count_leaves [of ?n "Suc d"]
      by (simp_all add: fits_def)
    have nonempty: "forest_entries cs \<noteq> []"
      using fit tree_leaves_nonempty [of ?n] by (simp add: fits_def)
    have children: "\<forall>k<length cs.
        child_roots cs g ! k = g + forest_nodes cs k (Suc d) + node_count (cs ! k) d - 1
        \<and> g + forest_nodes cs k (Suc d) + node_count (cs ! k) d - 1 < g + forest_size cs
        \<and> compiled_at (cs ! k) gates leaves (g + forest_nodes cs k (Suc d))
             (l + forest_leaves cs k (Suc d)) d"
    proof (intro allI impI)
      fix k assume k: "k < length cs"
      then have "forest_nodes cs k (Suc d) = forest_size (take k cs)"
          "forest_leaves cs k (Suc d) = length (forest_entries (take k cs))"
        using high by (auto intro!: forest_nodes_take forest_leaves_take
            simp: node_count_nodes leaf_count_leaves)
      moreover have "child_roots cs g ! k < g + forest_size cs"
        using child_roots_bound [of "child_roots cs g ! k" cs g] k by simp
      ultimately show "child_roots cs g ! k = g + forest_nodes cs k (Suc d) + node_count (cs ! k) d - 1
        \<and> g + forest_nodes cs k (Suc d) + node_count (cs ! k) d - 1 < g + forest_size cs
        \<and> compiled_at (cs ! k) gates leaves (g + forest_nodes cs k (Suc d))
             (l + forest_leaves cs k (Suc d)) d"
        using Suc.IH [OF fits_forest_nth [OF forest k]] high k
        by (simp add: nth_child_roots node_count_nodes)
    qed
    have "l + length (forest_entries cs) \<le> length leaves"
      using fit segment_length [of leaves l "tree_leaves ?n"] by (simp add: fits_def)
    then show ?thesis
      using fit counts nonempty children Network_Threshold
      by (simp add: fits_threshold Let_def unat_gt_0 del: length_concat)
  qed
qed

section \<open>Properties\<close>

text \<open>C25. The certificate checker is sound for its Verus contract: acceptance implies the structural
  specification, that gates and leaves are exactly those of the tree, and that for every response
  vector the last value of the plan is the direct value of the source tree.\<close>

theorem check_compilation_certifies:
  assumes "wf_node node" "\<forall>e\<in>set leaves. length (snd e) = 32"
    and "check_compilation node gates leaves"
  shows "compiled_at node gates leaves 0 0 3
    \<and> length gates = node_count node 3 \<and> length leaves = leaf_count node 3
    \<and> (\<forall>responses. last (evaluated_prefix gates responses (length gates))
                    = source_value node responses 0 3)"
proof -
  have plan: "height node \<le> 3" "thresholds_valid node" "gates = layout node 0 0" "leaves = tree_leaves node"
    using assms check_compilation_iff by blast+
  have "fits node gates leaves 0 0 3" using plan by (simp add: fits_def segment_all)
  moreover have "last (evaluated_prefix gates responses (length gates)) = source_value node responses 0 3"
    for responses
    using evaluate_layout(1) [of "[]" 0 node 0 responses] plan
    by (auto simp: source_value_tree evaluate_gates_prefix)
  ultimately show ?thesis
    using plan by (simp add: fits_compiled_at node_count_nodes leaf_count_leaves)
qed

abbreviation example_node :: network_node where
  "example_node \<equiv> Network_Threshold 3 2
     [Network_Leaf 4 (replicate 32 4), Network_Leaf 5 (replicate 32 5), Network_Leaf 6 (replicate 32 6)]"

theorem check_compilation_certifies_witness:
  "compiled_at example_node (layout example_node 0 0) (tree_leaves example_node) 0 0 3
   \<and> source_value example_node [True, False, True] 0 3"
proof -
  have "check_compilation example_node (layout example_node 0 0) (tree_leaves example_node)"
    by (subst check_compilation_iff) simp_all
  then show ?thesis
    using check_compilation_certifies [of example_node "tree_leaves example_node" "layout example_node 0 0"]
    by (simp add: source_value_tree del: compiled_at.simps check_subtree.simps layout.simps)
qed

text \<open>The certificate checker is also complete: on trees of height at most three with valid
  thresholds it accepts the postorder layout of the tree, and it accepts no other plan for it.\<close>

theorem check_compilation_exact:
  assumes "wf_node node" "\<forall>e\<in>set leaves. length (snd e) = 32"
  shows "check_compilation node gates leaves \<longleftrightarrow>
     height node \<le> 3 \<and> thresholds_valid node \<and> gates = layout node 0 0 \<and> leaves = tree_leaves node"
  using assms by (rule check_compilation_iff)

end
