(* ===== verification/GF256.thy ===== *)
theory GF256
  imports Leelo_Prelude
begin

text \<open>
  Arithmetic in GF(2^8) modulo 0x11b, from \<open>crates/leelo-sss/src/gf256.rs\<close>.

  The first part gives the executable routines (\<open>xtime\<close>, \<open>masked\<close>, \<open>mul\<close>,
  \<open>inverse_nonzero\<close>) and the specification functions the source states beside them
  (\<open>polynomial_term\<close>, \<open>carryless_product\<close>, \<open>polynomial_reduce\<close>, \<open>product_spec\<close>,
  \<open>xtime_spec\<close>, \<open>low_term\<close>, \<open>inverse_spec\<close>, and the long division that
  \<open>reduction_matches_long_division\<close> spells out). The lemmas show that the masked multiplier is
  bilinear, commutative and associative, that it computes the reduced carryless product, and
  that \<open>a^254\<close> inverts every nonzero byte. They make the bytes an instance of the class
  \<open>field\<close> (type \<open>gf\<close>), so the interpolation theories use the library's field automation.
\<close>

unbundle bit_operations_syntax

section \<open>Specification functions\<close>

definition polynomial_term :: "u8 \<Rightarrow> u8 \<Rightarrow> nat \<Rightarrow> u16" where
  "polynomial_term a b bit_no =
     (if (ucast b AND push_bit bit_no 1 :: u16) \<noteq> 0 then push_bit bit_no (ucast a) else 0)"

definition carryless_product :: "u8 \<Rightarrow> u8 \<Rightarrow> u16" where
  "carryless_product a b =
     polynomial_term a b 0 XOR polynomial_term a b 1
     XOR polynomial_term a b 2 XOR polynomial_term a b 3
     XOR polynomial_term a b 4 XOR polynomial_term a b 5
     XOR polynomial_term a b 6 XOR polynomial_term a b 7"

definition reduced_term :: "u16 \<Rightarrow> u16 \<Rightarrow> u8 \<Rightarrow> u8" where
  "reduced_term value mask_word basis = (if value AND mask_word \<noteq> 0 then basis else 0)"

definition polynomial_reduce :: "u16 \<Rightarrow> u8" where
  "polynomial_reduce value =
     ucast value
     XOR reduced_term value 0x0100 0x1b
     XOR reduced_term value 0x0200 0x36
     XOR reduced_term value 0x0400 0x6c
     XOR reduced_term value 0x0800 0xd8
     XOR reduced_term value 0x1000 0xab
     XOR reduced_term value 0x2000 0x4d
     XOR reduced_term value 0x4000 0x9a
     XOR reduced_term value 0x8000 0x2f"

definition product_spec :: "u8 \<Rightarrow> u8 \<Rightarrow> u8" where
  "product_spec a b = polynomial_reduce (carryless_product a b)"

text \<open>Polynomial long division by 0x11b, the remainders \<open>r15\<close> to \<open>r8\<close> of the source.\<close>

definition long_division :: "u16 \<Rightarrow> u16" where
  "long_division value =
     (let r15 = (if value AND 0x8000 \<noteq> 0 then value XOR push_bit 7 0x11b else value);
          r14 = (if r15 AND 0x4000 \<noteq> 0 then r15 XOR push_bit 6 0x11b else r15);
          r13 = (if r14 AND 0x2000 \<noteq> 0 then r14 XOR push_bit 5 0x11b else r14);
          r12 = (if r13 AND 0x1000 \<noteq> 0 then r13 XOR push_bit 4 0x11b else r13);
          r11 = (if r12 AND 0x0800 \<noteq> 0 then r12 XOR push_bit 3 0x11b else r12);
          r10 = (if r11 AND 0x0400 \<noteq> 0 then r11 XOR push_bit 2 0x11b else r11);
          r9 = (if r10 AND 0x0200 \<noteq> 0 then r10 XOR push_bit 1 0x11b else r10);
          r8 = (if r9 AND 0x0100 \<noteq> 0 then r9 XOR 0x11b else r9)
      in r8)"

definition xtime_spec :: "u8 \<Rightarrow> u8" where
  "xtime_spec a = push_bit 1 a XOR (if drop_bit 7 a = 1 then 0x1b else 0)"

definition low_term :: "u8 \<Rightarrow> u8 \<Rightarrow> u8" where
  "low_term a b = (if b AND 1 = 1 then a else 0)"

definition inverse_spec :: "u8 \<Rightarrow> u8" where
  "inverse_spec a =
     (let a2 = product_spec a a; a4 = product_spec a2 a2; a8 = product_spec a4 a4;
          a16 = product_spec a8 a8; a32 = product_spec a16 a16;
          a64 = product_spec a32 a32; a128 = product_spec a64 a64
      in product_spec (product_spec (product_spec a2 a4) (product_spec a8 a16))
           (product_spec a32 (product_spec a64 a128)))"

section \<open>Executable routines\<close>

text \<open>\<open>0.wrapping_sub(x)\<close> is subtraction on words, which wraps.\<close>

definition xtime :: "u8 \<Rightarrow> u8" where
  "xtime a =
     (let reduce = 0 - drop_bit 7 a
      in push_bit 1 a XOR (0x1b AND reduce))"

definition masked :: "u8 \<Rightarrow> u8 \<Rightarrow> u8" where
  "masked a b = (let mask = 0 - (b AND 1) in a AND mask)"

definition mul :: "u8 \<Rightarrow> u8 \<Rightarrow> u8" where
  "mul a b =
     (let a1 = xtime a; a2 = xtime a1; a3 = xtime a2; a4 = xtime a3;
          a5 = xtime a4; a6 = xtime a5; a7 = xtime a6;
          p0 = masked a b;
          p1 = masked a1 (drop_bit 1 b);
          p2 = masked a2 (drop_bit 2 b);
          p3 = masked a3 (drop_bit 3 b);
          p4 = masked a4 (drop_bit 4 b);
          p5 = masked a5 (drop_bit 5 b);
          p6 = masked a6 (drop_bit 6 b);
          p7 = masked a7 (drop_bit 7 b)
      in p0 XOR p1 XOR p2 XOR p3 XOR p4 XOR p5 XOR p6 XOR p7)"

definition inverse_nonzero :: "u8 \<Rightarrow> u8" where
  "inverse_nonzero a =
     (let a2 = mul a a; a4 = mul a2 a2; a8 = mul a4 a4; a16 = mul a8 a8;
          a32 = mul a16 a16; a64 = mul a32 a32; a128 = mul a64 a64
      in mul (mul (mul a2 a4) (mul a8 a16)) (mul a32 (mul a64 a128)))"

section \<open>Shifts and masks\<close>

lemma drop_bit_7: "drop_bit 7 (a :: u8) = of_bool (bit a 7)"
proof (rule bit_word_eqI)
  fix n
  have "\<not> bit a (7 + Suc m)" for m
    using bit_imp_le_length [of a "7 + Suc m"] by auto
  then show "bit (drop_bit 7 a) n = bit (of_bool (bit a 7) :: u8) n"
    by (cases n) (auto simp: bit_simps)
qed

lemma and_one: "(b :: u8) AND 1 = of_bool (bit b 0)"
  by (simp add: and_one_eq mod_2_eq_odd bit_0)

lemma xtime_refines: "xtime a = xtime_spec a"
  by (simp add: xtime_def xtime_spec_def Let_def drop_bit_7)

lemma masked_refines: "masked a b = low_term a b"
  by (simp add: masked_def low_term_def Let_def and_one)

lemma xtime_alt: "xtime a = push_bit 1 a XOR (if bit a 7 then 0x1b else 0)"
  by (simp add: xtime_refines xtime_spec_def drop_bit_7)

lemma masked_alt: "masked a (drop_bit n b) = (if bit b n then a else 0)"
  by (simp add: masked_refines low_term_def and_one bit_simps)

lemma masked_alt0: "masked a b = (if bit b 0 then a else 0)"
  by (simp add: masked_refines low_term_def and_one bit_simps)

section \<open>Bilinearity and the ring laws\<close>

text \<open>\<open>xpow n\<close> multiplies by \<open>x^n\<close>; \<open>pick\<close> is a masked term.\<close>

lemma push_bit_xor_word: "push_bit n (a XOR b :: u8) = push_bit n a XOR push_bit n b"
  by (rule bit_word_eqI) (auto simp: bit_simps)

lemma xtime_xor: "xtime (a XOR b) = xtime a XOR xtime b"
  by (simp add: xtime_alt push_bit_xor_word bit_simps xor.assoc xor.left_commute)

lemma xtime_0 [simp]: "xtime 0 = 0"
  by (simp add: xtime_alt)

definition xpow :: "nat \<Rightarrow> u8 \<Rightarrow> u8" where "xpow n = xtime ^^ n"

definition pick :: "bool \<Rightarrow> u8 \<Rightarrow> u8" where "pick c a = (if c then a else 0)"

lemma xpow_unfold:
  "xpow 1 a = xtime a"
  "xpow 2 a = xtime (xtime a)"
  "xpow 3 a = xtime (xtime (xtime a))"
  "xpow 4 a = xtime (xtime (xtime (xtime a)))"
  "xpow 5 a = xtime (xtime (xtime (xtime (xtime a))))"
  "xpow 6 a = xtime (xtime (xtime (xtime (xtime (xtime a)))))"
  "xpow 7 a = xtime (xtime (xtime (xtime (xtime (xtime (xtime a))))))"
  by (simp_all add: xpow_def numeral_eq_Suc)

lemma mul_alt: "mul a b =
   pick (bit b 0) a XOR pick (bit b 1) (xpow 1 a) XOR pick (bit b 2) (xpow 2 a) XOR
   pick (bit b 3) (xpow 3 a) XOR pick (bit b 4) (xpow 4 a) XOR pick (bit b 5) (xpow 5 a) XOR
   pick (bit b 6) (xpow 6 a) XOR pick (bit b 7) (xpow 7 a)"
  unfolding mul_def Let_def masked_alt
  unfolding masked_alt0 pick_def xpow_unfold ..


lemma xpow_0 [simp]: "xpow 0 a = a" "xpow n 0 = 0"
  by (induction n) (simp_all add: xpow_def)

lemma xpow_xor: "xpow n (a XOR b) = xpow n a XOR xpow n b"
  by (induction n) (simp_all add: xpow_def xtime_xor)

lemma xpow_xpow: "xpow m (xpow n a) = xpow n (xpow m a)"
  by (metis xpow_def add.commute comp_apply funpow_add)

lemma xpow_pick: "xpow n (pick c a) = pick c (xpow n a)"
  by (simp add: pick_def)

lemma pick_0 [simp]: "pick c 0 = 0"
  by (simp add: pick_def)

lemma pick_xor: "pick c (a XOR b) = pick c a XOR pick c b"
  by (simp add: pick_def)

lemma pick_neq: "pick (c = (\<not> d)) a = pick c a XOR pick d a"
  by (simp add: pick_def)

lemma pick_pick: "pick c (pick d a) = pick d (pick c a)"
  by (simp add: pick_def)

lemma mul_xor_left: "mul (a XOR b) c = mul a c XOR mul b c"
  by (simp add: mul_alt xpow_xor pick_xor xor.assoc xor.left_commute xor.commute)

lemma mul_xor_right: "mul a (b XOR c) = mul a b XOR mul a c"
  by (simp add: mul_alt bit_xor_iff pick_neq xor.assoc xor.left_commute xor.commute)

lemma mul_xpow: "mul (xpow n a) b = xpow n (mul a b)"
  by (simp add: mul_alt xpow_xor xpow_pick xpow_xpow [of _ n])

lemma mul_pick: "mul (pick c a) b = pick c (mul a b)"
  by (simp add: mul_alt xpow_pick pick_xor pick_pick [of c])

lemma mul_right_commute: "mul (mul a b) c = mul (mul a c) b"
  by (subst (2) mul_alt, subst (4) mul_alt) (simp add: mul_xor_left mul_pick mul_xpow)

lemma less_8_cases: "(n::nat) < 8 \<Longrightarrow> n = 0 \<or> n = 1 \<or> n = 2 \<or> n = 3 \<or> n = 4 \<or> n = 5 \<or> n = 6 \<or> n = 7"
  by arith

lemma mul_one_left: "mul 1 b = b"
proof (rule bit_word_eqI)
  fix n assume "n < LENGTH(8)"
  then have n: "n = 0 \<or> n = 1 \<or> n = 2 \<or> n = 3 \<or> n = 4 \<or> n = 5 \<or> n = 6 \<or> n = 7" 
    using less_8_cases by simp
  have x: "xpow (Suc 0) 1 = 2" "xpow 2 1 = 4" "xpow 3 1 = 8" "xpow 4 1 = 16" "xpow 5 1 = 32" "xpow 6 1 = 64" "xpow 7 1 = 128"
    by code_simp+
  show "bit (mul 1 b) n = bit b n"
    using n by (elim disjE) (simp_all add: mul_alt x pick_def bit_simps)
qed

lemma mul_commute: "mul a b = mul b a"
  using mul_right_commute [of 1 a b] by (simp add: mul_one_left)

lemma mul_assoc: "mul (mul a b) c = mul a (mul b c)"
  by (metis mul_commute mul_right_commute)

section \<open>Agreement with the reduced carryless product\<close>

lemma reduced_term_bit: "reduced_term v (2 ^ n) c = pick (bit v n) c"
  by (simp add: reduced_term_def pick_def and_exp_eq_0_iff_not_bit)

lemma polynomial_reduce_alt:
  "polynomial_reduce v = ucast v XOR pick (bit v 8) 0x1b XOR pick (bit v 9) 0x36
     XOR pick (bit v 10) 0x6c XOR pick (bit v 11) 0xd8 XOR pick (bit v 12) 0xab
     XOR pick (bit v 13) 0x4d XOR pick (bit v 14) 0x9a XOR pick (bit v 15) 0x2f"
  using reduced_term_bit [of v 8] reduced_term_bit [of v 9] reduced_term_bit [of v 10]
    reduced_term_bit [of v 11] reduced_term_bit [of v 12] reduced_term_bit [of v 13]
    reduced_term_bit [of v 14] reduced_term_bit [of v 15]
  by (simp add: polynomial_reduce_def)

lemma xtime_pick: "xtime (pick c a) = pick c (xtime a)"
  by (simp add: pick_def)

lemma bit_pick: "bit (pick c a) n = (c \<and> bit a n)"
  by (simp add: pick_def)

lemma reduce_0 [simp]: "polynomial_reduce 0 = 0"
  by (simp add: polynomial_reduce_alt pick_def)

lemma ucast_xor: "(ucast (v XOR w :: u16) :: u8) = ucast v XOR ucast w"
  by (rule bit_word_eqI) (auto simp: bit_simps)

lemma reduce_xor: "polynomial_reduce (v XOR w) = polynomial_reduce v XOR polynomial_reduce w"
  by (simp add: polynomial_reduce_alt ucast_xor bit_xor_iff pick_neq xor.assoc xor.left_commute xor.commute)

lemma bit_push_bit_Suc: "k < 15 \<Longrightarrow> bit (push_bit 1 (v :: u16)) (Suc k) = bit v k"
  by (simp only: bit_push_bit_iff) auto

lemma reduce_shift:
  assumes "\<not> bit v 15"
  shows "polynomial_reduce (push_bit 1 v) = xtime (polynomial_reduce v)"
proof -
  have x: "xtime 0x1b = 0x36" "xtime 0x36 = 0x6c" "xtime 0x6c = 0xd8" "xtime 0xd8 = 0xab"
    "xtime 0xab = 0x4d" "xtime 0x4d = 0x9a" "xtime 0x9a = 0x2f"
    by (simp_all add: xtime_def)
  have sh: "bit (push_bit 1 v) 8 = bit v 7" "bit (push_bit 1 v) 9 = bit v 8"
    "bit (push_bit 1 v) 10 = bit v 9" "bit (push_bit 1 v) 11 = bit v 10"
    "bit (push_bit 1 v) 12 = bit v 11" "bit (push_bit 1 v) 13 = bit v 12"
    "bit (push_bit 1 v) 14 = bit v 13" "bit (push_bit 1 v) 15 = bit v 14"
    using bit_push_bit_Suc [of 7 v] bit_push_bit_Suc [of 8 v] bit_push_bit_Suc [of 9 v]
      bit_push_bit_Suc [of 10 v] bit_push_bit_Suc [of 11 v] bit_push_bit_Suc [of 12 v]
      bit_push_bit_Suc [of 13 v] bit_push_bit_Suc [of 14 v] by simp_all
  have low: "xtime (ucast v) = ucast (push_bit 1 v) XOR pick (bit v 7) 0x1b"
  proof -
    have "(ucast (push_bit n v) :: u8) = push_bit n (ucast v)" for n
      by (rule bit_word_eqI) (auto simp: bit_simps)
    note this [of 1]
    then show ?thesis by (simp only: xtime_alt pick_def) (simp add: bit_simps)
  qed
  have "xtime (polynomial_reduce v) = xtime (ucast v) XOR pick (bit v 8) 0x36
     XOR pick (bit v 9) 0x6c XOR pick (bit v 10) 0xd8 XOR pick (bit v 11) 0xab
     XOR pick (bit v 12) 0x4d XOR pick (bit v 13) 0x9a XOR pick (bit v 14) 0x2f"
    unfolding polynomial_reduce_alt xtime_xor xtime_pick x using assms
    by (simp add: pick_def)
  then show ?thesis
    by (simp only: polynomial_reduce_alt [of "push_bit 1 v"] sh low xor.assoc)
qed

lemma ucast_ucast: "(ucast (ucast (a :: u8) :: u16) :: u8) = a"
  by (rule bit_word_eqI) (auto simp: bit_simps)

lemma reduce_push_bit: "n < 8 \<Longrightarrow> polynomial_reduce (push_bit n (ucast a)) = xpow n a"
proof (induction n)
  case 0
  then show ?case
    by (auto simp: polynomial_reduce_alt pick_def bit_simps ucast_ucast dest: bit_imp_le_length)
next
  case (Suc n)
  have *: "push_bit (Suc n) (ucast a :: u16) = push_bit 1 (push_bit n (ucast a))" by simp
  moreover have "\<not> bit (push_bit n (ucast a :: u16)) 15"
    using Suc.prems by (auto simp: bit_simps dest: bit_imp_le_length)
  ultimately have "polynomial_reduce (push_bit (Suc n) (ucast a)) = xtime (polynomial_reduce (push_bit n (ucast a)))"
    by (simp only: * reduce_shift not_False_eq_True)
  then show ?case using Suc by (simp add: xpow_def)
qed

lemma mul_product_spec: "mul a b = product_spec a b"
proof -
  have "polynomial_term a b n = (if bit b n then push_bit n (ucast a) else 0)" if "n < 8" for n
    using that by (simp add: polynomial_term_def and_exp_eq_0_iff_not_bit bit_simps)
  then have "polynomial_reduce (polynomial_term a b n) = pick (bit b n) (xpow n a)" if "n < 8" for n
    using that by (simp add: pick_def reduce_push_bit)
  then show ?thesis
    by (simp add: product_spec_def carryless_product_def reduce_xor mul_alt)
qed

text \<open>One round of the long division, clearing the coefficient of degree \<open>n + 8\<close>.\<close>

definition long_division_step :: "nat \<Rightarrow> u16 \<Rightarrow> u16" where
  "long_division_step n r = (if r AND push_bit (n + 8) 1 \<noteq> 0 then r XOR push_bit n 0x11b else r)"

lemma bit_11b: "8 \<le> k \<Longrightarrow> bit (0x11b :: u16) k \<longleftrightarrow> k = 8"
proof -
  assume "8 \<le> k"
  then have "k = 8 \<or> k = 9 \<or> k = 10 \<or> k = 11 \<or> k = 12 \<or> k = 13 \<or> k = 14 \<or> k = 15 \<or> 16 \<le> k"
    by linarith
  moreover have "\<not> bit (0x11b :: u16) k" if "16 \<le> k"
    using that bit_imp_le_length [of "0x11b :: u16" k] by auto
  ultimately show ?thesis by (elim disjE) simp_all
qed

lemma long_division_step_reduce:
  assumes "n < 8"
  shows "polynomial_reduce (long_division_step n r) = polynomial_reduce r"
proof -
  have "polynomial_reduce (push_bit m 0x11b) = 0"
    if "m = 0 \<or> m = 1 \<or> m = 2 \<or> m = 3 \<or> m = 4 \<or> m = 5 \<or> m = 6 \<or> m = 7" for m
    using that by (elim disjE) (simp_all add: polynomial_reduce_def reduced_term_def)
  then have "polynomial_reduce (push_bit n 0x11b) = 0"
    using less_8_cases [OF assms] by simp
  then show ?thesis by (simp add: long_division_step_def reduce_xor)
qed

lemma long_division_step_high:
  assumes "\<And>m. n + 9 \<le> m \<Longrightarrow> \<not> bit r m" and "n + 8 \<le> m"
  shows "\<not> bit (long_division_step n r) m"
  using assms bit_11b [of "m - n"]
  by (cases "m = n + 8") (auto simp: long_division_step_def and_exp_eq_0_iff_not_bit bit_simps dest: bit_imp_le_length)

lemma long_division_steps:
  "long_division v = long_division_step 0 (long_division_step 1 (long_division_step 2
     (long_division_step 3 (long_division_step 4 (long_division_step 5 (long_division_step 6
       (long_division_step 7 v)))))))"
proof -
  have "long_division_step 7 r = (if r AND 0x8000 \<noteq> 0 then r XOR push_bit 7 0x11b else r)"
    "long_division_step 6 r = (if r AND 0x4000 \<noteq> 0 then r XOR push_bit 6 0x11b else r)"
    "long_division_step 5 r = (if r AND 0x2000 \<noteq> 0 then r XOR push_bit 5 0x11b else r)"
    "long_division_step 4 r = (if r AND 0x1000 \<noteq> 0 then r XOR push_bit 4 0x11b else r)"
    "long_division_step 3 r = (if r AND 0x0800 \<noteq> 0 then r XOR push_bit 3 0x11b else r)"
    "long_division_step 2 r = (if r AND 0x0400 \<noteq> 0 then r XOR push_bit 2 0x11b else r)"
    "long_division_step 1 r = (if r AND 0x0200 \<noteq> 0 then r XOR push_bit 1 0x11b else r)"
    "long_division_step 0 r = (if r AND 0x0100 \<noteq> 0 then r XOR 0x11b else r)" for r
    by (simp_all add: long_division_step_def)
  then show ?thesis by (simp only: long_division_def Let_def)
qed

lemma long_division_reduces:
  "polynomial_reduce v = ucast (long_division v)" "long_division v < 256"
proof -
  have high: "\<not> bit (long_division v) m" if "8 \<le> m" for m
  proof -
    have "\<not> bit v m" if "7 + 9 \<le> m" for m
      using that bit_imp_le_length [of v m] by auto
    then show ?thesis
      unfolding long_division_steps using that
      by (intro long_division_step_high; simp)
  qed
  have "polynomial_reduce v = polynomial_reduce (long_division v)"
    by (simp add: long_division_steps long_division_step_reduce)
  also have "\<dots> = ucast (long_division v)"
    by (simp add: polynomial_reduce_alt high pick_def)
  finally show "polynomial_reduce v = ucast (long_division v)" .
  have "bit (long_division v) n \<Longrightarrow> n < 8" for n using high [of n] by (cases "8 \<le> n") auto
  then have "take_bit 8 (long_division v) = long_division v"
    by (intro bit_word_eqI) (auto simp: bit_simps)
  then show "long_division v < 256"
    using and_mask_less' [of 8 "long_division v"] by (simp add: take_bit_eq_mask)
qed

section \<open>The field of bytes\<close>

typedef gf = "UNIV :: u8 set"
  morphisms byte_of gf_of ..

setup_lifting type_definition_gf

lemma gf_of_inject' [simp]: "gf_of a = gf_of b \<longleftrightarrow> a = b"
  by (simp add: gf_of_inject)

instantiation gf :: comm_ring_1
begin

lift_definition zero_gf :: gf is "0 :: u8" .
lift_definition one_gf :: gf is "1 :: u8" .
lift_definition plus_gf :: "gf \<Rightarrow> gf \<Rightarrow> gf" is "\<lambda>a b. a XOR b" .
lift_definition minus_gf :: "gf \<Rightarrow> gf \<Rightarrow> gf" is "\<lambda>a b. a XOR b" .
lift_definition uminus_gf :: "gf \<Rightarrow> gf" is "\<lambda>a. a" .
lift_definition times_gf :: "gf \<Rightarrow> gf \<Rightarrow> gf" is mul .

instance
proof
  fix a b c :: gf
  show "a + b + c = a + (b + c)" by transfer (simp add: xor.assoc)
  show "a + b = b + a" by transfer (simp add: xor.commute)
  show "0 + a = a" by transfer simp
  show "- a + a = 0" by transfer simp
  show "a - b = a + - b" by transfer simp
  show "a * b * c = a * (b * c)" by transfer (rule mul_assoc)
  show "a * b = b * a" by transfer (rule mul_commute)
  show "1 * a = a" by transfer (rule mul_one_left)
  show "(a + b) * c = a * c + b * c" by transfer (rule mul_xor_left)
  show "(0 :: gf) \<noteq> 1" by transfer simp
qed

end

text \<open>The powers of the generator 3, from \<open>3^1\<close> to \<open>3^254\<close>.\<close>

definition cycle :: "u8 list" where
  "cycle =
    [3, 5, 15, 17, 51, 85, 255, 26, 46, 114, 150, 161, 248, 19, 53, 95, 225, 56, 72, 216,
     115, 149, 164, 247, 2, 6, 10, 30, 34, 102, 170, 229, 52, 92, 228, 55, 89, 235, 38,
     106, 190, 217, 112, 144, 171, 230, 49, 83, 245, 4, 12, 20, 60, 68, 204, 79, 209,
     104, 184, 211, 110, 178, 205, 76, 212, 103, 169, 224, 59, 77, 215, 98, 166, 241, 8,
     24, 40, 120, 136, 131, 158, 185, 208, 107, 189, 220, 127, 129, 152, 179, 206, 73,
     219, 118, 154, 181, 196, 87, 249, 16, 48, 80, 240, 11, 29, 39, 105, 187, 214, 97,
     163, 254, 25, 43, 125, 135, 146, 173, 236, 47, 113, 147, 174, 233, 32, 96, 160, 251,
     22, 58, 78, 210, 109, 183, 194, 93, 231, 50, 86, 250, 21, 63, 65, 195, 94, 226, 61,
     71, 201, 64, 192, 91, 237, 44, 116, 156, 191, 218, 117, 159, 186, 213, 100, 172,
     239, 42, 126, 130, 157, 188, 223, 122, 142, 137, 128, 155, 182, 193, 88, 232, 35,
     101, 175, 234, 37, 111, 177, 200, 67, 197, 84, 252, 31, 33, 99, 165, 244, 7, 9, 27,
     45, 119, 153, 176, 203, 70, 202, 69, 207, 74, 222, 121, 139, 134, 145, 168, 227, 62,
     66, 198, 81, 243, 14, 18, 54, 90, 238, 41, 123, 141, 140, 143, 138, 133, 148, 167,
     242, 13, 23, 57, 75, 221, 124, 132, 151, 162, 253, 28, 36, 108, 180, 199, 82, 246]"
fun chain :: "u8 \<Rightarrow> u8 list \<Rightarrow> bool" where
  "chain x [] = (x XOR xtime x = 1)"
| "chain x (y # ys) = (x XOR xtime x = y \<and> y \<noteq> 1 \<and> chain y ys)"
lemma cycle_chain: "chain 1 cycle"
  by (simp add: cycle_def xtime_def)
lemma cycle_len: "length cycle = 254"
  by (simp add: cycle_def)

lemma gf_of_01 [simp]: "gf_of 0 = 0" "gf_of 1 = 1"
  by (simp_all add: zero_gf_def one_gf_def)

lemma gf_of_eq_01 [simp]: "gf_of a = 0 \<longleftrightarrow> a = 0" "gf_of a = 1 \<longleftrightarrow> a = 1"
  by (metis gf_of_01 gf_of_inject')+

lemma mul_three: "mul x 3 = x XOR xtime x"
proof -
  have "bit (3 :: u8) 0" "bit (3 :: u8) 1" "\<not> bit (3 :: u8) 2" "\<not> bit (3 :: u8) 3" "\<not> bit (3 :: u8) 4"
    "\<not> bit (3 :: u8) 5" "\<not> bit (3 :: u8) 6" "\<not> bit (3 :: u8) 7" by simp_all
  then show ?thesis
    by (simp only: mul_alt pick_def if_True if_False xpow_unfold(1) xor.right_neutral)
qed

lemma gf_of_mul: "gf_of (mul a b) = gf_of a * gf_of b"
  by (simp add: times_gf.abs_eq gf_of_inverse)

lemma gf_of_three_mult: "gf_of x * gf_of 3 = gf_of (x XOR xtime x)"
  by (simp add: mul_three flip: gf_of_mul)

lemma chain_power:
  "chain x ys \<Longrightarrow> gf_of x * gf_of 3 ^ Suc (length ys) = 1 \<and>
     (\<forall>k. 0 < k \<longrightarrow> k \<le> length ys \<longrightarrow> gf_of x * gf_of 3 ^ k \<noteq> 1)"
proof (induction ys arbitrary: x)
  case Nil
  then show ?case by (simp add: gf_of_three_mult)
next
  case (Cons y ys)
  then have y: "gf_of x * gf_of 3 = gf_of y" "y \<noteq> 1" "chain y ys"
    by (auto simp: gf_of_three_mult)
  have step: "gf_of x * gf_of 3 ^ Suc k = gf_of y * gf_of 3 ^ k" for k
    by (simp add: y(1) [symmetric] mult.assoc mult.left_commute)
  have "gf_of x * gf_of 3 ^ k \<noteq> 1" if "0 < k" "k \<le> Suc (length ys)" for k
  proof (cases k)
    case (Suc j)
    then show ?thesis
      using Cons.IH [OF y(3)] y(2) that by (cases "j = 0") (auto simp: step y(1) simp del: power_Suc)
  qed (use that in simp)
  then show ?case using Cons.IH [OF y(3)] by (auto simp: step simp del: power_Suc)
qed


lemma gen_order:
  "gf_of 3 ^ 255 = 1" "0 < k \<Longrightarrow> k < 255 \<Longrightarrow> gf_of 3 ^ k \<noteq> 1"
proof -
  have *: "gf_of 3 ^ Suc 254 = 1 \<and> (\<forall>k. 0 < k \<longrightarrow> k \<le> 254 \<longrightarrow> gf_of 3 ^ k \<noteq> 1)"
    using chain_power [OF cycle_chain] by (simp add: cycle_len)
  from * show "gf_of 3 ^ 255 = 1" by simp
  from * show "0 < k \<Longrightarrow> k < 255 \<Longrightarrow> gf_of 3 ^ k \<noteq> 1" by simp
qed

lemma gen_inj: "inj_on (\<lambda>k. gf_of 3 ^ k) {..<255}"
proof (rule linorder_inj_onI)
  fix i j :: nat
  assume ij: "i < j" "i \<in> {..<255}" "j \<in> {..<255}"
  show "gf_of 3 ^ i \<noteq> gf_of 3 ^ j"
  proof
    assume eq: "gf_of 3 ^ i = gf_of 3 ^ j"
    have "gf_of 3 ^ (j - i) = gf_of 3 ^ (255 - i) * gf_of 3 ^ j"
      using ij by (simp add: gen_order(1) flip: power_add)
         (metis add_diff_assoc2 gen_order(1) less_imp_le_nat mult_1 power_add Nat.add_diff_assoc)
    also have "\<dots> = gf_of 3 ^ (255 - i) * gf_of 3 ^ i"
      by (simp add: eq)
    also have "\<dots> = 1"
      using ij by (simp add: gen_order(1) flip: power_add)
    finally have "gf_of 3 ^ (j - i) = 1" .
    moreover have "0 < j - i" "j - i < 255" using ij by auto
    ultimately show False using gen_order(2) by blast
  qed
qed auto

lemma UNIV_gf: "(UNIV :: gf set) = gf_of ` UNIV"
  by (metis byte_of_inverse surj_def)

lemma card_gf: "card (UNIV :: gf set) = 256"
  and finite_gf: "finite (UNIV :: gf set)"
  by (auto simp: UNIV_gf card_image inj_on_def card_word)

lemma gen_nonzero: "gf_of 3 ^ k \<noteq> 0"
proof
  assume "gf_of 3 ^ k = 0"
  then have "(gf_of 3 ^ k) ^ 255 = 0" by simp
  then have "(gf_of 3 ^ 255) ^ k = 0" by (simp add: power_mult [symmetric] mult.commute)
  then show False by (simp add: gen_order(1))
qed

lemma gen_covers: "(\<lambda>k. gf_of 3 ^ k) ` {..<255} = UNIV - {0}"
proof (rule card_subset_eq)
  show "finite (UNIV - {0} :: gf set)" using finite_gf by simp
  show "(\<lambda>k. gf_of 3 ^ k) ` {..<255} \<subseteq> UNIV - {0}" by (auto simp: gen_nonzero)
  show "card ((\<lambda>k. gf_of 3 ^ k) ` {..<255}) = card (UNIV - {0} :: gf set)"
    by (simp add: card_image [OF gen_inj] card_Diff_singleton finite_gf card_gf)
qed

lemma gf_power_255: "x \<noteq> 0 \<Longrightarrow> (x :: gf) ^ 255 = 1"
proof -
  assume "x \<noteq> 0"
  then obtain k where "x = gf_of 3 ^ k" using gen_covers by blast
  then show ?thesis by (metis gen_order(1) mult.commute power_mult power_one)
qed

lemma gf_of_inverse_nonzero: "gf_of (inverse_nonzero a) = gf_of a ^ 254"
proof -
  have "gf_of a ^ 254 = ((gf_of a ^ 2 * gf_of a ^ 4) * (gf_of a ^ 8 * gf_of a ^ 16)) *
       (gf_of a ^ 32 * (gf_of a ^ 64 * gf_of a ^ 128))"
    by (simp flip: power_add)
  moreover have "x * x = x ^ 2" "x ^ 2 * x ^ 2 = x ^ 4" "x ^ 4 * x ^ 4 = x ^ 8"
     "x ^ 8 * x ^ 8 = x ^ 16" "x ^ 16 * x ^ 16 = x ^ 32" "x ^ 32 * x ^ 32 = x ^ 64"
     "x ^ 64 * x ^ 64 = x ^ 128" for x :: gf
    by (simp_all add: power2_eq_square [symmetric] del: power_mult_distrib flip: power_add)
  ultimately show ?thesis
    by (simp add: inverse_nonzero_def Let_def gf_of_mul)
qed

instantiation gf :: field
begin

lift_definition inverse_gf :: "gf \<Rightarrow> gf" is inverse_nonzero .
definition divide_gf :: "gf \<Rightarrow> gf \<Rightarrow> gf" where "divide_gf a b = a * inverse b"

instance
proof
  fix a b :: gf
  have inv: "inverse a = a ^ 254"
    by (metis byte_of_inverse gf_of_inverse_nonzero inverse_gf.abs_eq)
  show "a \<noteq> 0 \<Longrightarrow> inverse a * a = 1"
    using gf_power_255 [of a] by (simp add: inv flip: power_Suc2)
  show "divide a b = a * inverse b" by (rule divide_gf_def)
  show "inverse (0 :: gf) = 0"
    by (metis byte_of_inverse gf_of_inverse_nonzero inverse_gf.abs_eq zero_power zero_less_numeral)
qed

end

section \<open>Interface to the interpolation theories\<close>

lemma gf_of_xor: "gf_of (a XOR b) = gf_of a + gf_of b"
  by (simp add: plus_gf.abs_eq gf_of_inverse)

lemma gf_of_xor_diff: "gf_of (a XOR b) = gf_of a - gf_of b"
  by (simp add: minus_gf.abs_eq gf_of_inverse)

lemma gf_of_inverse_byte: "gf_of (inverse_nonzero a) = inverse (gf_of a)"
  by (simp add: inverse_gf.abs_eq gf_of_inverse)

lemmas gf_of_simps [gf_hom] = gf_of_xor gf_of_mul gf_of_inverse_byte

lemma gf_eqI: "gf_of a = gf_of b \<Longrightarrow> a = b"
  by simp

lemma byte_of_gf [simp]: "gf_of (byte_of x) = x" "byte_of (gf_of a) = a"
  by (simp_all add: byte_of_inverse gf_of_inverse)

lemma mul_zero [simp]: "mul a 0 = 0" "mul 0 a = 0"
  by (rule gf_eqI, simp add: gf_hom)+

lemma mul_one [simp]: "mul a 1 = a" "mul 1 a = a"
  by (rule gf_eqI, simp add: gf_hom)+

lemma mul_inverse_nonzero: "a \<noteq> 0 \<Longrightarrow> mul a (inverse_nonzero a) = 1"
  by (rule gf_eqI) (simp add: gf_hom)

lemma inverse_nonzero_refines: "inverse_nonzero a = inverse_spec a"
  by (simp add: inverse_nonzero_def inverse_spec_def mul_product_spec)

section \<open>Properties\<close>

text \<open>C30. The unrolled masked multiplier computes multiplication of polynomials over GF(2)
  followed by reduction modulo 0x11b, for every pair of bytes.\<close>

theorem mul_is_reduced_product: "mul a b = product_spec a b"
  by (rule mul_product_spec)

text \<open>The basis form of the reduction agrees with polynomial long division by 0x11b on every
  16-bit polynomial, and the remainder fits in a byte.\<close>

theorem reduction_is_long_division:
  "polynomial_reduce v = ucast (long_division v) \<and> long_division v < 256"
  using long_division_reduces by blast

text \<open>Bytes with exclusive or and \<open>mul\<close> satisfy the laws of a commutative ring with one:
  associativity, commutativity, distributivity and the neutral element.\<close>

theorem mul_ring_laws:
  "mul (mul a b) c = mul a (mul b c) \<and> mul a b = mul b a
   \<and> mul (a XOR b) c = mul a c XOR mul b c \<and> mul 1 a = a \<and> mul 0 a = 0"
  using mul_assoc mul_commute mul_xor_left mul_one(2) mul_zero(2) by blast

text \<open>\<open>inverse_nonzero\<close> computes \<open>inverse_spec\<close>, returns the multiplicative inverse of every
  nonzero byte, and returns zero only for zero.\<close>

theorem inverse_nonzero_correct:
  "inverse_nonzero a = inverse_spec a
   \<and> mul a (inverse_nonzero a) = (if a = 0 then 0 else 1)
   \<and> (inverse_nonzero a = 0 \<longleftrightarrow> a = 0)"
proof -
  have "inverse_nonzero a = 0 \<longleftrightarrow> a = 0"
    using gf_of_eq_01(1) [of "inverse_nonzero a"] by (simp add: gf_hom)
  then show ?thesis by (simp add: inverse_nonzero_refines [symmetric] mul_inverse_nonzero)
qed

end
