(* ===== verification/Field_Polynomials.thy ===== *)
theory Field_Polynomials
  imports Main
begin

text \<open>
  Generic facts on polynomials over a field, given by coefficient lists with the constant term
  first. They are independent of the program: evaluation by Horner's rule, division by a linear
  factor, the bound on the number of roots, and Lagrange interpolation. The theories of the
  sharing crate instantiate them at the type of bytes.
\<close>

section \<open>Evaluation and roots\<close>

primrec horner :: "'a::comm_ring_1 list \<Rightarrow> 'a \<Rightarrow> 'a" where
  "horner [] x = 0"
| "horner (c # cs) x = c + x * horner cs x"

fun divide_root :: "'a::comm_ring_1 \<Rightarrow> 'a list \<Rightarrow> 'a list" where
  "divide_root a [] = []"
| "divide_root a [c] = []"
| "divide_root a (c # d # cs) = horner (d # cs) a # divide_root a (d # cs)"

lemma length_divide_root [simp]: "length (divide_root a cs) = length cs - 1"
  by (induction a cs rule: divide_root.induct) auto

lemma divide_root_horner:
  "horner cs t = (t - a) * horner (divide_root a cs) t + horner cs a"
proof (induction a cs rule: divide_root.induct)
  case (3 a c d cs)
  let ?h = "horner (d # cs)" and ?q = "horner (divide_root a (d # cs)) t"
  have "horner (c # d # cs) t = c + t * ((t - a) * ?q + ?h a)"
    by (subst "3.IH" [symmetric]) simp
  also have "\<dots> = (t - a) * (?h a + t * ?q) + (c + a * ?h a)"
    by (simp only: algebra_simps)
  finally show ?case by simp
qed simp_all

lemma divide_root_zero:
  "\<lbrakk>\<forall>q\<in>set (divide_root a cs). q = 0; horner cs a = 0\<rbrakk> \<Longrightarrow> \<forall>c\<in>set cs. c = 0"
  by (induction a cs rule: divide_root.induct) auto

lemma horner_zero_list: "\<forall>c\<in>set cs. c = 0 \<Longrightarrow> horner cs t = 0"
  by (induction cs) auto

lemma root_bound:
  fixes cs :: "'a::idom list"
  assumes "length cs \<le> length xs" "distinct xs" "\<forall>x\<in>set xs. horner cs x = 0"
  shows "\<forall>c\<in>set cs. c = 0"
  using assms
proof (induction xs arbitrary: cs)
  case Nil
  then show ?case by simp
next
  case (Cons x xs)
  have "horner (divide_root x cs) y = 0" if "y \<in> set xs" for y
  proof -
    have "y \<noteq> x" using that Cons.prems by auto
    moreover have "(y - x) * horner (divide_root x cs) y = 0"
      using divide_root_horner [of cs y x] that Cons.prems by simp
    ultimately show ?thesis by simp
  qed
  then have "\<forall>q\<in>set (divide_root x cs). q = 0"
    using Cons.IH [of "divide_root x cs"] Cons.prems by simp
  then show ?case using divide_root_zero Cons.prems by (metis list.set_intros(1))
qed

section \<open>Polynomial functions\<close>

text \<open>\<open>polyfun k f\<close>: the function is given by a polynomial with \<open>k\<close> coefficients.\<close>

definition polyfun :: "nat \<Rightarrow> ('a::comm_ring_1 \<Rightarrow> 'a) \<Rightarrow> bool" where
  "polyfun k f \<longleftrightarrow> (\<exists>cs. length cs = k \<and> (\<forall>t. f t = horner cs t))"

lemma horner_map2_add:
  "length cs = length ds \<Longrightarrow> horner (map2 (+) cs ds) t = horner cs t + horner ds t"
  by (induction cs ds rule: list_induct2) (simp_all add: algebra_simps)

lemma horner_scale: "horner (map ((*) a) cs) t = a * horner cs t"
  by (induction cs) (simp_all add: algebra_simps)

lemma horner_snoc: "horner (cs @ [c]) t = horner cs t + c * t ^ length cs"
  by (induction cs) (simp_all add: algebra_simps)

lemma polyfun_horner: "length cs \<le> k \<Longrightarrow> polyfun k (horner cs)"
proof -
  assume "length cs \<le> k"
  moreover have "horner (cs @ replicate n 0) t = horner cs t" for n t
    by (induction cs) (simp_all add: horner_zero_list)
  ultimately show ?thesis
    unfolding polyfun_def by (intro exI [of _ "cs @ replicate (k - length cs) 0"]) simp
qed

lemma polyfun_add: "polyfun k f \<Longrightarrow> polyfun k g \<Longrightarrow> polyfun k (\<lambda>t. f t + g t)"
  unfolding polyfun_def by (metis (no_types, lifting) horner_map2_add length_map length_zip min.idem)

lemma polyfun_scale: "polyfun k f \<Longrightarrow> polyfun k (\<lambda>t. a * f t)"
  unfolding polyfun_def by (metis horner_scale length_map)

lemma polyfun_0: "polyfun k (\<lambda>t. 0)"
  unfolding polyfun_def by (intro exI [of _ "replicate k 0"]) (simp add: horner_zero_list)

lemma polyfun_sum: "(\<And>i. i \<in> A \<Longrightarrow> polyfun k (f i)) \<Longrightarrow> polyfun k (\<lambda>t. \<Sum>i\<in>A. f i t)"
  by (induction A rule: infinite_finite_induct) (auto intro: polyfun_0 polyfun_add)

lemma polyfun_linear: "polyfun k f \<Longrightarrow> polyfun (Suc k) (\<lambda>t. (t - a) * f t)"
proof -
  assume "polyfun k f"
  then obtain cs where cs: "length cs = k" "\<forall>t. f t = horner cs t"
    unfolding polyfun_def by blast
  have "(t - a) * f t = horner (0 # cs) t + - a * horner cs t" for t
    using cs by (simp add: algebra_simps)
  moreover have "polyfun (Suc k) (\<lambda>t. horner (0 # cs) t + - a * horner cs t)"
    using cs by (intro polyfun_add polyfun_scale polyfun_horner) auto
  ultimately show ?thesis by simp
qed

lemma polyfun_prod_linear: "finite A \<Longrightarrow> polyfun (Suc (card A)) (\<lambda>t. \<Prod>j\<in>A. t - x j)"
proof (induction A rule: finite_induct)
  case empty
  then show ?case unfolding polyfun_def by (intro exI [of _ "[1]"]) simp
next
  case (insert a A)
  then show ?case using polyfun_linear [of "Suc (card A)" _ "x a"] by simp
qed

lemma polyfun_unique:
  fixes f g :: "'a::idom \<Rightarrow> 'a"
  assumes "polyfun k f" "polyfun k g" "k \<le> length xs" "distinct xs" "\<forall>x\<in>set xs. f x = g x"
  shows "f t = g t"
proof -
  have "polyfun k (\<lambda>t. f t + (- 1) * g t)"
    using assms by (intro polyfun_add polyfun_scale)
  then obtain cs where cs: "length cs = k" "\<And>t. f t + (- 1) * g t = horner cs t"
    unfolding polyfun_def by blast
  then have "\<forall>c\<in>set cs. c = 0"
    using assms by (intro root_bound [of cs xs]) (simp_all flip: cs(2))
  then show ?thesis using cs(2) [of t] by (simp add: horner_zero_list)
qed

section \<open>Lagrange interpolation\<close>

lemma prod_lessThan_Suc_except:
  "(\<Prod>j\<in>{..<Suc n} - {i}. f j) =
     (if n = i then (\<Prod>j\<in>{..<n} - {i}. f j) else (\<Prod>j\<in>{..<n} - {i}. f j) * f n)"
  for f :: "nat \<Rightarrow> 'a::comm_monoid_mult"
proof (cases "n = i")
  case True
  then have "{..<Suc n} - {i} = {..<n} - {i}" by auto
  with True show ?thesis by simp
next
  case False
  then have "{..<Suc n} - {i} = insert n ({..<n} - {i})" by auto
  with False show ?thesis by (simp add: mult.commute)
qed

definition lagrange_basis :: "'a::field list \<Rightarrow> nat \<Rightarrow> 'a \<Rightarrow> 'a" where
  "lagrange_basis xs i t =
     (\<Prod>j\<in>{..<length xs} - {i}. t - xs ! j) *
     inverse (\<Prod>j\<in>{..<length xs} - {i}. xs ! i - xs ! j)"

definition lagrange :: "'a::field list \<Rightarrow> 'a list \<Rightarrow> 'a \<Rightarrow> 'a" where
  "lagrange xs ys t = (\<Sum>i<length xs. ys ! i * lagrange_basis xs i t)"

lemma lagrange_polyfun: "polyfun (length xs) (lagrange xs ys)"
proof -
  have "polyfun (length xs) (lagrange_basis xs i)" if "i < length xs" for i
  proof -
    have "polyfun (Suc (card ({..<length xs} - {i}))) (\<lambda>t. \<Prod>j\<in>{..<length xs} - {i}. t - xs ! j)"
      by (rule polyfun_prod_linear) simp
    then have "polyfun (length xs) (\<lambda>t. \<Prod>j\<in>{..<length xs} - {i}. t - xs ! j)"
      using that by (cases "length xs") (simp_all add: card_Diff_singleton)
    from polyfun_scale [OF this] show ?thesis
      unfolding lagrange_basis_def by (simp add: mult.commute [of _ "inverse _"])
  qed
  then show ?thesis
    unfolding lagrange_def by (intro polyfun_sum polyfun_scale) auto
qed

lemma lagrange_basis_nodes:
  assumes "distinct xs" "i < length xs" "k < length xs"
  shows "lagrange_basis xs i (xs ! k) = (if i = k then 1 else 0)"
proof (cases "i = k")
  case True
  have "(\<Prod>j\<in>{..<length xs} - {k}. xs ! k - xs ! j) \<noteq> 0"
    using assms by (auto simp: nth_eq_iff_index_eq)
  then show ?thesis using True by (simp add: lagrange_basis_def)
next
  case False
  then have "(\<Prod>j\<in>{..<length xs} - {i}. xs ! k - xs ! j) = 0"
    using assms by (auto intro!: prod_zero bexI [of _ k])
  then show ?thesis using False by (simp add: lagrange_basis_def)
qed

lemma lagrange_nodes:
  assumes "distinct xs" "k < length xs"
  shows "lagrange xs ys (xs ! k) = ys ! k"
  using assms by (simp add: lagrange_def lagrange_basis_nodes if_distrib [of "(*) _"] cong: if_cong)

lemma lagrange_interpolates:
  assumes "distinct xs" "length cs \<le> length xs"
  shows "lagrange xs (map (horner cs) xs) t = horner cs t"
  using assms lagrange_nodes [OF assms(1), of _ "map (horner cs) xs"]
  by (intro polyfun_unique [of "length xs" _ _ xs] lagrange_polyfun polyfun_horner)
     (auto simp: in_set_conv_nth)

lemma interpolation_unique_coefficients:
  fixes xs :: "'a::field list"
  assumes "distinct xs" "length ys = length xs"
  shows "\<exists>!cs. length cs = length xs \<and> (\<forall>i<length xs. horner cs (xs ! i) = ys ! i)"
proof (rule ex_ex1I)
  obtain cs where "length cs = length xs" "\<And>t. lagrange xs ys t = horner cs t"
    using lagrange_polyfun [of xs ys] unfolding polyfun_def by blast
  then show "\<exists>cs. length cs = length xs \<and> (\<forall>i<length xs. horner cs (xs ! i) = ys ! i)"
    using lagrange_nodes [OF assms(1)] by metis
next
  fix cs ds
  assume cs: "length cs = length xs \<and> (\<forall>i<length xs. horner cs (xs ! i) = ys ! i)"
    and ds: "length ds = length xs \<and> (\<forall>i<length xs. horner ds (xs ! i) = ys ! i)"
  let ?d = "map2 (+) cs (map ((*) (- 1)) ds)"
  have "\<forall>x\<in>set xs. horner ?d x = 0"
    using cs ds by (auto simp: horner_map2_add horner_scale in_set_conv_nth simp del: map_map)
  then have *: "\<forall>c\<in>set ?d. c = 0"
    using cs ds assms by (intro root_bound [of _ xs]) simp_all
  have "cs ! i = ds ! i" if "i < length xs" for i
  proof -
    have "?d ! i = 0" using * cs ds that by (metis length_map map_snd_zip nth_mem)
    then show ?thesis using cs ds that by simp
  qed
  then show "cs = ds" using cs ds by (simp add: list_eq_iff_nth_eq)
qed

end
