(* ===== verification/Interpolation.thy ===== *)
theory Interpolation
  imports GF256 Field_Polynomials
begin

text \<open>
  Bytewise polynomial evaluation and interpolation, from
  \<open>crates/leelo-sss/src/interpolation.rs\<close>.

  The loops \<open>evaluate\<close>, \<open>weights\<close> and \<open>weighted_sum\<close> are folds over the index ranges of the
  source; the specification functions (\<open>polynomial_tail\<close>, \<open>numerator\<close>, \<open>denominator\<close>,
  \<open>weight\<close>, \<open>weighted_prefix\<close>) are recursive as in the source. The lemmas show that each loop
  refines its specification, that evaluation is evaluation of a polynomial over the field of
  bytes, and that the weights are the Lagrange basis, for any number of distinct coordinates.
\<close>

unbundle bit_operations_syntax

section \<open>Specification functions\<close>

function polynomial_tail :: "u8 list \<Rightarrow> u8 \<Rightarrow> nat \<Rightarrow> u8" where
  "polynomial_tail coefficients x start =
     (if start \<ge> length coefficients then 0
      else product_spec (polynomial_tail coefficients x (start + 1)) x
           XOR coefficients ! start)"
  by pat_completeness auto
termination
  by (relation "measure (\<lambda>(coefficients, x, start). length coefficients - start)") auto

declare polynomial_tail.simps [simp del]

definition polynomial :: "u8 \<Rightarrow> u8 list \<Rightarrow> u8 \<Rightarrow> u8" where
  "polynomial secret coefficients x =
     product_spec (polynomial_tail coefficients x 0) x XOR secret"

fun numerator :: "u8 list \<Rightarrow> u8 \<Rightarrow> nat \<Rightarrow> nat \<Rightarrow> u8" where
  "numerator indices target selected 0 = 1"
| "numerator indices target selected (Suc n) =
     (if n = selected then numerator indices target selected n
      else product_spec (numerator indices target selected n) (target XOR indices ! n))"

fun denominator :: "u8 list \<Rightarrow> nat \<Rightarrow> nat \<Rightarrow> u8" where
  "denominator indices selected 0 = 1"
| "denominator indices selected (Suc n) =
     (if n = selected then denominator indices selected n
      else product_spec (denominator indices selected n) (indices ! selected XOR indices ! n))"

definition weight :: "u8 list \<Rightarrow> u8 \<Rightarrow> nat \<Rightarrow> u8" where
  "weight indices target selected =
     product_spec (numerator indices target selected (length indices))
       (inverse_spec (denominator indices selected (length indices)))"

fun weighted_prefix :: "u8 list \<Rightarrow> u8 list \<Rightarrow> nat \<Rightarrow> u8" where
  "weighted_prefix vals ws 0 = 0"
| "weighted_prefix vals ws (Suc n) =
     weighted_prefix vals ws n XOR product_spec (vals ! n) (ws ! n)"

section \<open>Executable routines\<close>

text \<open>The Horner loop counts \<open>remaining\<close> down to zero.\<close>

fun evaluate_loop :: "u8 list \<Rightarrow> u8 \<Rightarrow> nat \<Rightarrow> u8 \<Rightarrow> u8" where
  "evaluate_loop coefficients x 0 value = value"
| "evaluate_loop coefficients x (Suc remaining) value =
     evaluate_loop coefficients x remaining (mul value x XOR coefficients ! remaining)"

definition evaluate :: "u8 \<Rightarrow> u8 list \<Rightarrow> u8 \<Rightarrow> u8" where
  "evaluate secret coefficients x =
     mul (evaluate_loop coefficients x (length coefficients) 0) x XOR secret"

text \<open>The inner loop of \<open>weights\<close> accumulates both products, skipping \<open>j = i\<close>.\<close>

definition weight_products :: "u8 list \<Rightarrow> u8 \<Rightarrow> nat \<Rightarrow> u8 \<times> u8" where
  "weight_products indices target i =
     foldl (\<lambda>(top, bottom) j.
        if i \<noteq> j
        then (mul top (target XOR indices ! j), mul bottom (indices ! i XOR indices ! j))
        else (top, bottom)) (1, 1) [0..<length indices]"

definition weights :: "u8 list \<Rightarrow> u8 \<Rightarrow> u8 list" where
  "weights indices target =
     map (\<lambda>i. let (top, bottom) = weight_products indices target i
              in mul top (inverse_nonzero bottom)) [0..<length indices]"

definition weighted_sum :: "u8 list \<Rightarrow> u8 list \<Rightarrow> u8" where
  "weighted_sum vals ws =
     foldl (\<lambda>result i. result XOR mul (vals ! i) (ws ! i)) 0 [0..<length vals]"

section \<open>The loops refine their specifications\<close>

lemma evaluate_loop_tail:
  "n \<le> length cs \<Longrightarrow>
   evaluate_loop cs x n (polynomial_tail cs x n) = polynomial_tail cs x 0"
proof (induction n)
  case (Suc n)
  have "polynomial_tail cs x n = mul (polynomial_tail cs x (Suc n)) x XOR cs ! n"
    using Suc.prems by (subst polynomial_tail.simps) (simp add: mul_product_spec)
  then show ?case using Suc by simp
qed simp

lemma evaluate_refines: "evaluate secret cs x = polynomial secret cs x"
proof -
  have "polynomial_tail cs x (length cs) = 0"
    by (subst polynomial_tail.simps) simp
  then show ?thesis
    using evaluate_loop_tail [of "length cs" cs x]
    by (simp add: evaluate_def polynomial_def mul_product_spec)
qed

lemma weight_products_refines:
  "weight_products indices target i =
     (numerator indices target i (length indices), denominator indices i (length indices))"
proof -
  have "foldl (\<lambda>(top, bottom) j.
        if i \<noteq> j
        then (mul top (target XOR indices ! j), mul bottom (indices ! i XOR indices ! j))
        else (top, bottom)) (1, 1) [0..<n]
      = (numerator indices target i n, denominator indices i n)" for n
    by (induction n) (simp_all add: mul_product_spec)
  then show ?thesis unfolding weight_products_def .
qed

lemma weights_refines: "weights indices target = map (weight indices target) [0..<length indices]"
  by (simp add: weights_def weight_products_refines weight_def mul_product_spec
      inverse_nonzero_refines)

lemma length_weights [simp]: "length (weights indices target) = length indices"
  by (simp add: weights_refines)

lemma weighted_sum_refines: "weighted_sum vals ws = weighted_prefix vals ws (length vals)"
proof -
  have "foldl (\<lambda>result i. result XOR mul (vals ! i) (ws ! i)) 0 [0..<n]
      = weighted_prefix vals ws n" for n
    by (induction n) (simp_all add: mul_product_spec)
  then show ?thesis unfolding weighted_sum_def .
qed

section \<open>Meaning over the field of bytes\<close>

lemma evaluate_loop_horner:
  "gf_of (evaluate_loop cs x n v) = horner (map gf_of (take n cs)) (gf_of x) + gf_of v * gf_of x ^ n"
  if "n \<le> length cs"
  using that
proof (induction n arbitrary: v)
  case (Suc n)
  then show ?case
    by (simp add: gf_hom take_Suc_conv_app_nth horner_snoc algebra_simps)
qed simp

lemma evaluate_horner [gf_hom]:
  "gf_of (evaluate secret cs x) = horner (gf_of secret # map gf_of cs) (gf_of x)"
  by (simp add: evaluate_def gf_hom evaluate_loop_horner algebra_simps)

lemma numerator_prod:
  "n \<le> length indices \<Longrightarrow>
   gf_of (numerator indices target i n) =
     (\<Prod>j\<in>{..<n} - {i}. gf_of target - map gf_of indices ! j)"
proof (induction n)
  case (Suc n)
  then show ?case
    by (cases "n = i")
       (simp_all add: prod_lessThan_Suc_except gf_of_mul gf_of_xor_diff flip: mul_product_spec)
qed simp

lemma denominator_prod:
  "n \<le> length indices \<Longrightarrow> i < length indices \<Longrightarrow>
   gf_of (denominator indices i n) =
     (\<Prod>j\<in>{..<n} - {i}. map gf_of indices ! i - map gf_of indices ! j)"
proof (induction n)
  case (Suc n)
  then show ?case
    by (cases "n = i")
       (simp_all add: prod_lessThan_Suc_except gf_of_mul gf_of_xor_diff flip: mul_product_spec)
qed simp

lemma weight_lagrange:
  "i < length indices \<Longrightarrow>
   gf_of (weight indices target i) = lagrange_basis (map gf_of indices) i (gf_of target)"
  by (simp add: weight_def lagrange_basis_def gf_hom numerator_prod denominator_prod
      flip: mul_product_spec inverse_nonzero_refines)

lemma weighted_sum_lagrange:
  assumes "length vals = length indices"
  shows "gf_of (weighted_sum vals (weights indices target)) =
           lagrange (map gf_of indices) (map gf_of vals) (gf_of target)"
proof -
  have "gf_of (weighted_prefix vals (weights indices target) n) =
          (\<Sum>i<n. map gf_of vals ! i * lagrange_basis (map gf_of indices) i (gf_of target))"
    if "n \<le> length indices" for n
    using that assms
    by (induction n) (simp_all add: gf_hom weights_refines weight_lagrange flip: mul_product_spec)
  then show ?thesis using assms by (simp add: weighted_sum_refines lagrange_def)
qed

lemma distinct_map_gf_of [simp]: "distinct (map gf_of xs) \<longleftrightarrow> distinct xs"
  by (simp add: distinct_map inj_on_def)

text \<open>Interpolating values of a polynomial of small degree gives the polynomial back.\<close>

lemma weighted_sum_evaluate:
  assumes "distinct indices" and "length cs < length indices"
  shows "weighted_sum (map (evaluate secret cs) indices) (weights indices target)
           = evaluate secret cs target"
proof (rule gf_eqI)
  have "map gf_of (map (evaluate secret cs) indices)
      = map (horner (gf_of secret # map gf_of cs)) (map gf_of indices)"
    by (simp add: gf_hom)
  then show "gf_of (weighted_sum (map (evaluate secret cs) indices) (weights indices target))
      = gf_of (evaluate secret cs target)"
    using assms
    by (simp add: weighted_sum_lagrange lagrange_interpolates evaluate_horner del: map_map)
qed

lemma evaluate_at_zero [simp]: "evaluate secret cs 0 = secret"
  by (rule gf_eqI) (simp add: gf_hom)

section \<open>Properties\<close>

text \<open>The three loops of the interpolation module compute their specifications for every input:
  Horner evaluation, the Lagrange weights of every coordinate, and the weighted sum.\<close>

theorem interpolation_loops_refine:
  "evaluate secret coefficients x = polynomial secret coefficients x
   \<and> weights indices target = map (weight indices target) [0..<length indices]
   \<and> weighted_sum vals ws = weighted_prefix vals ws (length vals)"
  by (simp only: evaluate_refines weights_refines weighted_sum_refines)

text \<open>Interpolation is exact for every threshold: with distinct coordinates, more of them than
  random coefficients, the weighted sum of the shares of one byte is the value of the sharing
  polynomial at the target, and at target 0 it is the secret byte.\<close>

theorem interpolation_exact:
  assumes "distinct indices" and "length coefficients < length indices"
  shows "weighted_sum (map (evaluate secret coefficients) indices) (weights indices target)
           = evaluate secret coefficients target
    \<and> weighted_sum (map (evaluate secret coefficients) indices) (weights indices 0) = secret"
  using assms by (simp_all add: weighted_sum_evaluate)

end
