(* ===== verification/Sharing.thy ===== *)
theory Sharing
  imports Interpolation
begin

text \<open>
  Shamir sharing of 32-byte secrets, from \<open>crates/leelo-sss/src/lib.rs\<close>: the share type, the
  error type, \<open>split\<close> and \<open>reconstruct\<close> with every validation branch in source order.

  The random generator is a parameter: \<open>fill r n\<close> stands for \<open>try_fill_bytes\<close> on a buffer of
  \<open>n\<close> bytes in generator state \<open>r\<close>. What the code relies on is the contract of that trait
  method, a successful call fills the whole buffer (\<open>fills_buffer\<close>). Zeroization has no
  functional effect and is not modelled.

  The lemmas show that any selection of at least \<open>threshold\<close> distinct shares of a split
  reconstructs the secret, that accepted surplus shares lie on the polynomial of the first
  \<open>threshold\<close> shares, and that fewer shares carry no information on the secret.
\<close>

unbundle bit_operations_syntax

section \<open>Data\<close>

definition SECRET_LEN :: nat where [simp]: "SECRET_LEN = 32"
definition MAX_SHARES :: u8 where [simp]: "MAX_SHARES = 31"

record share =
  share_index :: u8
  share_value :: bytes

datatype sss_error =
    InvalidThreshold u8
  | InvalidShareCount nat
  | InsufficientShares u8 nat
  | ZeroIndex
  | DuplicateIndex u8
  | EntropyUnavailable
  | InconsistentShares

type_synonym 'r rng = "'r \<Rightarrow> nat \<Rightarrow> bytes option \<times> 'r"

definition fills_buffer :: "'r rng \<Rightarrow> bool" where
  "fills_buffer fill \<longleftrightarrow> (\<forall>r n bs r'. fill r n = (Some bs, r') \<longrightarrow> length bs = n)"

definition from_parts :: "u8 \<Rightarrow> bytes \<Rightarrow> (share, sss_error) result" where
  "from_parts i v =
     (if i = 0 then Err ZeroIndex else Ok \<lparr>share_index = i, share_value = v\<rparr>)"

section \<open>Splitting\<close>

definition validate_threshold :: "u8 \<Rightarrow> (unit, sss_error) result" where
  "validate_threshold threshold =
     (if threshold = 0 \<or> threshold > MAX_SHARES then Err (InvalidThreshold threshold) else Ok ())"

text \<open>The loop over the secret bytes. Each round draws \<open>degree\<close> coefficients and writes one byte
  of every share.\<close>

fun split_bytes ::
  "'r rng \<Rightarrow> nat \<Rightarrow> bytes \<Rightarrow> nat \<Rightarrow> share list \<Rightarrow> 'r \<Rightarrow> (share list, sss_error) result \<times> 'r" where
  "split_bytes fill degree [] byte shares r = (Ok shares, r)"
| "split_bytes fill degree (secret_byte # rest) byte shares r =
     (case fill r degree of
        (None, r') \<Rightarrow> (Err EntropyUnavailable, r')
      | (Some coefficients, r') \<Rightarrow>
          split_bytes fill degree rest (byte + 1)
            (map (\<lambda>s. s\<lparr>share_value := (share_value s)
                    [byte := evaluate secret_byte coefficients (share_index s)]\<rparr>) shares) r')"

definition split :: "'r rng \<Rightarrow> bytes \<Rightarrow> u8 \<Rightarrow> u8 \<Rightarrow> 'r \<Rightarrow> (share list, sss_error) result \<times> 'r" where
  "split fill secret threshold count r =
     (case validate_threshold threshold of
        Err e \<Rightarrow> (Err e, r)
      | Ok _ \<Rightarrow>
          if count = 0 \<or> count > MAX_SHARES then (Err (InvalidShareCount (unat count)), r)
          else if threshold > count then (Err (InsufficientShares threshold (unat count)), r)
          else split_bytes fill (unat (threshold - 1)) secret 0
                 (map (\<lambda>i. \<lparr>share_index = word_of_nat i, share_value = replicate SECRET_LEN 0\<rparr>)
                    [1..<unat count + 1]) r)"

section \<open>Reconstruction\<close>

text \<open>The caller's \<open>weights\<close> passes the coordinates on. The scratch array \<open>values\<close> holds one byte
  of each share; only its first \<open>shares.len()\<close> entries are read.\<close>

definition share_weights :: "share list \<Rightarrow> u8 \<Rightarrow> u8 list" where
  "share_weights shares target = weights (map share_index shares) target"

definition interpolate :: "share list \<Rightarrow> u8 \<Rightarrow> bytes" where
  "interpolate shares target =
     (let coefficients = share_weights shares target
      in map (\<lambda>byte. weighted_sum (map (\<lambda>s. share_value s ! byte) shares) coefficients)
           [0..<SECRET_LEN])"

fun check_coordinates :: "share list \<Rightarrow> share list \<Rightarrow> (unit, sss_error) result" where
  "check_coordinates before [] = Ok ()"
| "check_coordinates before (s # rest) =
     (if share_index s = 0 then Err ZeroIndex
      else if list_ex (\<lambda>other. share_index other = share_index s) before
           then Err (DuplicateIndex (share_index s))
      else check_coordinates (before @ [s]) rest)"

definition disagreement :: "share list \<Rightarrow> share list \<Rightarrow> u8" where
  "disagreement basis surplus =
     foldl (\<lambda>d s. let expected = interpolate basis (share_index s)
                  in foldl (\<lambda>d byte. d OR (expected ! byte XOR share_value s ! byte))
                       d [0..<SECRET_LEN]) 0 surplus"

definition reconstruct :: "u8 \<Rightarrow> share list \<Rightarrow> (bytes, sss_error) result" where
  "reconstruct threshold shares =
     and_then (validate_threshold threshold) (\<lambda>_.
       if length shares > unat MAX_SHARES then Err (InvalidShareCount (length shares))
       else if length shares < unat threshold
            then Err (InsufficientShares threshold (length shares))
       else and_then (check_coordinates [] shares) (\<lambda>_.
         let basis = take (unat threshold) shares
         in if disagreement basis (drop (unat threshold) shares) \<noteq> 0
            then Err InconsistentShares
            else Ok (interpolate basis 0)))"

section \<open>What a split produces\<close>

text \<open>\<open>share_bytes secret coeffs x\<close>: the share at coordinate \<open>x\<close> when byte \<open>b\<close> uses the
  coefficient list \<open>coeffs ! b\<close>.\<close>

definition share_bytes :: "bytes \<Rightarrow> bytes list \<Rightarrow> u8 \<Rightarrow> bytes" where
  "share_bytes secret coeffs x =
     map (\<lambda>b. evaluate (secret ! b) (coeffs ! b) x) [0..<length secret]"

lemma length_share_bytes [simp]: "length (share_bytes secret coeffs x) = length secret"
  by (simp add: share_bytes_def)

lemma nth_share_bytes [simp]:
  "b < length secret \<Longrightarrow> share_bytes secret coeffs x ! b = evaluate (secret ! b) (coeffs ! b) x"
  by (simp add: share_bytes_def)

lemma share_bytes_Cons: "share_bytes (b # bs) (c # coeffs) x = evaluate b c x # share_bytes bs coeffs x"
  by (simp add: share_bytes_def upt_conv_Cons map_Suc_upt [symmetric] del: upt_Suc)

text \<open>The bytes written so far are kept; the bytes still to come are written by later rounds.\<close>

lemma split_bytes_Ok:
  assumes "split_bytes fill degree bs k shares r = (Ok out, r')" "fills_buffer fill"
    "\<forall>s\<in>set shares. length (share_value s) = k + length bs"
  shows "\<exists>coeffs. length coeffs = length bs \<and> (\<forall>c\<in>set coeffs. length c = degree) \<and>
     out = map (\<lambda>s. s\<lparr>share_value := take k (share_value s) @ share_bytes bs coeffs (share_index s)\<rparr>)
             shares"
  using assms
proof (induction bs arbitrary: k shares r)
  case Nil
  then show ?case by (simp add: share_bytes_def cong: map_cong)
next
  case (Cons b bs)
  then obtain c r1 where c: "fill r degree = (Some c, r1)"
    and rest: "split_bytes fill degree bs (k + 1)
       (map (\<lambda>s. s\<lparr>share_value := (share_value s)[k := evaluate b c (share_index s)]\<rparr>) shares) r1
       = (Ok out, r')"
    by (auto split: prod.splits option.splits)
  have "length c = degree" using c Cons.prems(2) by (auto simp: fills_buffer_def)
  obtain coeffs where coeffs: "length coeffs = length bs" "\<forall>c\<in>set coeffs. length c = degree"
    and out: "out = map (\<lambda>s. s\<lparr>share_value := take (k + 1) (share_value s) @
        share_bytes bs coeffs (share_index s)\<rparr>)
       (map (\<lambda>s. s\<lparr>share_value := (share_value s)[k := evaluate b c (share_index s)]\<rparr>) shares)"
    using Cons.IH [OF rest Cons.prems(2)] Cons.prems(3) by auto
  have "out = map (\<lambda>s. s\<lparr>share_value := take k (share_value s) @
        share_bytes (b # bs) (c # coeffs) (share_index s)\<rparr>) shares"
    using Cons.prems(3) out by (auto simp: share_bytes_Cons take_Suc_conv_app_nth)
  then show ?case
    using coeffs \<open>length c = degree\<close> by (intro exI [of _ "c # coeffs"]) simp
qed

definition share_at :: "bytes \<Rightarrow> bytes list \<Rightarrow> u8 \<Rightarrow> share" where
  "share_at secret coeffs x = \<lparr>share_index = x, share_value = share_bytes secret coeffs x\<rparr>"

lemma share_at_sel [simp]:
  "share_index (share_at secret coeffs x) = x"
  "share_value (share_at secret coeffs x) = share_bytes secret coeffs x"
  by (simp_all add: share_at_def)

lemma split_Ok:
  assumes "split fill secret t n r = (Ok shares, r')" "fills_buffer fill" "length secret = 32"
  shows "0 < unat t" "unat t \<le> unat n" "unat n \<le> 31"
    "\<exists>coeffs. length coeffs = 32 \<and> (\<forall>c\<in>set coeffs. length c = unat t - 1) \<and>
       shares = map (\<lambda>i. share_at secret coeffs (word_of_nat i)) [1..<unat n + 1]"
proof -
  from assms(1) have t: "t \<noteq> 0" "t \<le> 31" "n \<le> 31" "t \<le> n"
    and run: "split_bytes fill (unat t - 1) secret 0
       (map (\<lambda>i. \<lparr>share_index = word_of_nat i, share_value = replicate 32 0\<rparr>)
                    [1..<unat n + 1]) r = (Ok shares, r')"
    by (auto simp: split_def validate_threshold_def unat_pred not_less split: if_splits)
  from t show "0 < unat t" "unat t \<le> unat n" "unat n \<le> 31"
    by (auto simp: u8_le_31 word_le_nat_alt unat_gt_0)
  from split_bytes_Ok [OF run assms(2)] assms(3)
  show "\<exists>coeffs. length coeffs = 32 \<and> (\<forall>c\<in>set coeffs. length c = unat t - 1) \<and>
       shares = map (\<lambda>i. share_at secret coeffs (word_of_nat i)) [1..<unat n + 1]"
    by (auto simp: share_at_def)
qed

section \<open>What reconstruction accepts\<close>

lemma check_coordinates_Ok_iff:
  "check_coordinates before xs = Ok () \<longleftrightarrow>
     0 \<notin> set (map share_index xs) \<and> distinct (map share_index xs) \<and>
     set (map share_index before) \<inter> set (map share_index xs) = {}"
proof (induction before xs rule: check_coordinates.induct)
  case (2 before s rest)
  have "list_ex (\<lambda>other. share_index other = x) before \<longleftrightarrow> x \<in> set (map share_index before)" for x
    by (induction before) auto
  with 2 show ?case by (auto simp del: set_map)
qed simp

lemma check_coordinates_start:
  "check_coordinates [] xs = Ok () \<longleftrightarrow>
     0 \<notin> share_index ` set xs \<and> distinct (map share_index xs)"
  by (simp add: check_coordinates_Ok_iff)

lemma length_interpolate [simp]: "length (interpolate shares target) = 32"
  by (simp add: interpolate_def Let_def)

lemma disagreement_zero_iff:
  "disagreement basis surplus = 0 \<longleftrightarrow>
     (\<forall>s\<in>set surplus. \<forall>b<32. interpolate basis (share_index s) ! b = share_value s ! b)"
proof -
  have "foldl (\<lambda>d s. let expected = interpolate basis (share_index s)
                  in foldl (\<lambda>d byte. d OR (expected ! byte XOR share_value s ! byte))
                       d [0..<32]) d surplus = 0 \<longleftrightarrow> d = 0 \<and>
     (\<forall>s\<in>set surplus. \<forall>b<32. interpolate basis (share_index s) ! b = share_value s ! b)" for d
    by (induction surplus arbitrary: d) (auto simp: foldl_or_zero_iff xor_eq_0_iff Let_def)
  then show ?thesis by (simp add: disagreement_def)
qed

lemma reconstruct_Ok_iff:
  "reconstruct t shares = Ok v \<longleftrightarrow>
     0 < unat t \<and> unat t \<le> length shares \<and> length shares \<le> 31 \<and>
     0 \<notin> share_index ` set shares \<and> distinct (map share_index shares) \<and>
     (\<forall>s\<in>set (drop (unat t) shares). \<forall>b<32.
        interpolate (take (unat t) shares) (share_index s) ! b = share_value s ! b) \<and>
     v = interpolate (take (unat t) shares) 0"
proof -
  have "validate_threshold t = Ok () \<longleftrightarrow> 0 < unat t \<and> unat t \<le> 31"
    by (auto simp: validate_threshold_def u8_le_31 word_less_nat_alt not_less unat_gt_0)
  then show ?thesis
    by (auto simp: reconstruct_def result_simps check_coordinates_start disagreement_zero_iff Let_def)
qed

lemma interpolate_share_bytes:
  assumes "distinct (map share_index basis)" "length secret = 32" "length coeffs = 32"
    and "\<forall>c\<in>set coeffs. length c < length basis"
    and "\<forall>s\<in>set basis. share_value s = share_bytes secret coeffs (share_index s)"
  shows "interpolate basis target = share_bytes secret coeffs target"
proof (rule nth_equalityI)
  fix b assume "b < length (interpolate basis target)"
  then have b: "b < 32" by simp
  have vals: "map (\<lambda>s. share_value s ! b) basis
      = map (evaluate (secret ! b) (coeffs ! b)) (map share_index basis)"
    using assms b by simp
  have "length (coeffs ! b) < length (map share_index basis)" using assms b by simp
  then have "weighted_sum (map (\<lambda>s. share_value s ! b) basis)
      (weights (map share_index basis) target) = evaluate (secret ! b) (coeffs ! b) target"
    unfolding vals using assms(1) by (intro weighted_sum_evaluate)
  then show "interpolate basis target ! b = share_bytes secret coeffs target ! b"
    using b assms by (simp add: interpolate_def share_weights_def Let_def)
qed (use assms in simp)

lemma share_bytes_zero [simp]: "share_bytes secret coeffs 0 = secret"
  by (rule nth_equalityI) simp_all

lemma reconstruct_share_bytes:
  assumes "0 < unat t" "unat t \<le> length shares" "length shares \<le> 31"
    and "0 \<notin> share_index ` set shares" "distinct (map share_index shares)"
    and "length secret = 32" "length coeffs = 32" "\<forall>c\<in>set coeffs. length c < unat t"
    and "\<forall>s\<in>set shares. share_value s = share_bytes secret coeffs (share_index s)"
  shows "reconstruct t shares = Ok secret"
proof -
  have "distinct (map share_index (take (unat t) shares))"
    using assms(5) by (metis distinct_take take_map)
  then have "interpolate (take (unat t) shares) x = share_bytes secret coeffs x" for x
    using assms by (intro interpolate_share_bytes) (auto dest: in_set_takeD)
  then show ?thesis
    using assms by (auto simp: reconstruct_Ok_iff dest: in_set_dropD)
qed

lemma reconstruct_split:
  assumes "split fill secret t n r = (Ok all, r')" "fills_buffer fill" "length secret = 32"
    and "set shares \<subseteq> set all" "distinct shares" "unat t \<le> length shares"
  shows "reconstruct t shares = Ok secret"
proof -
  note split_Ok [OF assms(1-3)]
  then obtain coeffs where c: "length coeffs = 32" "\<forall>c\<in>set coeffs. length c = unat t - 1"
    and all: "all = map (\<lambda>i. share_at secret coeffs (word_of_nat i)) [1..<unat n + 1]"
    and n: "0 < unat t" "unat n \<le> 31" by blast
  have inj: "inj_on share_index (set shares)"
  proof (rule inj_on_inverseI)
    show "share_at secret coeffs (share_index s) = s" if "s \<in> set shares" for s
      using that assms(4) all by auto
  qed
  have nz: "(word_of_nat i :: u8) \<noteq> 0" if "0 < i" "i \<le> 31" for i
    using that by (simp add: word_of_nat_eq_0_iff nat_dvd_not_less)
  have "length shares \<le> length all"
    using assms(4,5) by (metis card_mono distinct_card finite_set le_trans card_length)
  then have "length shares \<le> 31" using all n by (simp del: upt_Suc)
  moreover have "0 \<notin> share_index ` set shares"
    using assms(4) all nz n by auto
  ultimately show ?thesis
    using assms(3-6) c n all inj
    by (intro reconstruct_share_bytes [of _ _ _ coeffs]) (auto simp: distinct_map)
qed

section \<open>Shares determine one polynomial\<close>

lemma evaluate_unique:
  assumes "distinct xs" "length ys = length xs" "xs \<noteq> []"
  shows "\<exists>!p. length (snd p) = length xs - 1 \<and> (\<forall>i<length xs. evaluate (fst p) (snd p) (xs ! i) = ys ! i)"
proof -
  have map_byte: "map gf_of (map byte_of cs) = cs" for cs by (simp add: comp_def)
  have ev: "evaluate s cs x = y \<longleftrightarrow> horner (gf_of s # map gf_of cs) (gf_of x) = gf_of y" for s cs x y
    by (metis evaluate_horner gf_eqI)
  obtain cs where cs: "length cs = length xs" "\<forall>i<length xs. horner cs (map gf_of xs ! i) = map gf_of ys ! i"
    and uniq: "\<And>ds. length ds = length xs \<Longrightarrow> \<forall>i<length xs. horner ds (map gf_of xs ! i) = map gf_of ys ! i \<Longrightarrow> ds = cs"
    using interpolation_unique_coefficients [of "map gf_of xs" "map gf_of ys"] assms by auto
  obtain c ds where cd: "cs = c # ds" using cs(1) assms(3) by (cases cs) auto
  show ?thesis
  proof (rule ex1I [of _ "(byte_of c, map byte_of ds)"])
    show "length (snd (byte_of c, map byte_of ds)) = length xs - 1 \<and>
      (\<forall>i<length xs. evaluate (fst (byte_of c, map byte_of ds)) (snd (byte_of c, map byte_of ds)) (xs ! i) = ys ! i)"
      using cs assms(2) cd by (simp add: ev map_byte del: map_map horner.simps)
  next
    fix p assume p: "length (snd p) = length xs - 1 \<and> (\<forall>i<length xs. evaluate (fst p) (snd p) (xs ! i) = ys ! i)"
    then have "gf_of (fst p) # map gf_of (snd p) = cs"
      using assms by (intro uniq) (simp_all add: ev Suc_leI del: horner.simps)
    then show "p = (byte_of c, map byte_of ds)"
      using cd by (cases p) (auto simp: comp_def)
  qed
qed











lemma reconstruct_Ok_polynomial:
  assumes "reconstruct t shares = Ok v" "\<forall>s\<in>set shares. length (share_value s) = 32"
  shows "\<exists>coeffs. length coeffs = 32 \<and> (\<forall>c\<in>set coeffs. length c = unat t - 1) \<and>
           (\<forall>s\<in>set shares. share_value s = share_bytes v coeffs (share_index s))"
proof -
  define basis where "basis = take (unat t) shares"
  note ok = assms(1) [unfolded reconstruct_Ok_iff, folded basis_def]
  have lb: "length basis = unat t" "distinct (map share_index basis)" "basis \<noteq> []"
    using ok by (auto simp: basis_def simp flip: take_map)
  have "\<exists>!p. length (snd p) = unat t - 1 \<and>
      (\<forall>i<unat t. evaluate (fst p) (snd p) (map share_index basis ! i) = share_value (basis ! i) ! b)" for b
    using evaluate_unique [of "map share_index basis" "map (\<lambda>s. share_value s ! b) basis"] lb
    by (simp cong: conj_cong)
  then obtain ps where ps: "length ps = 32" "\<forall>b<32. length (snd (ps ! b)) = unat t - 1 \<and>
      (\<forall>i<unat t. evaluate (fst (ps ! b)) (snd (ps ! b)) (map share_index basis ! i) = share_value (basis ! i) ! b)"
    using list_choice1 [of 32 "\<lambda>b p. length (snd p) = unat t - 1 \<and>
      (\<forall>i<unat t. evaluate (fst p) (snd p) (map share_index basis ! i) = share_value (basis ! i) ! b)"]
    by blast
  let ?s = "map fst ps" and ?c = "map snd ps"
  have c: "length ?c = 32" "\<forall>c\<in>set ?c. length c = unat t - 1" "length ?s = 32"
    using ps by (auto simp: all_set_conv_all_nth)
  have on_basis: "share_value s = share_bytes ?s ?c (share_index s)" if sb: "s \<in> set basis" for s
  proof (rule nth_equalityI)
    have "s \<in> set shares" using sb by (auto simp: basis_def dest: in_set_takeD)
    then show len: "length (share_value s) = length (share_bytes ?s ?c (share_index s))"
      using assms(2) c by simp
    fix b assume "b < length (share_value s)"
    then have "b < 32" using \<open>s \<in> set shares\<close> assms(2) by simp
    moreover obtain i where "i < unat t" "s = basis ! i"
      using sb lb(1) by (auto simp: in_set_conv_nth)
    ultimately show "share_value s ! b = share_bytes ?s ?c (share_index s) ! b"
      using ps lb(1) by simp
  qed
  have interp: "interpolate basis x = share_bytes ?s ?c x" for x
    using lb c ok on_basis by (intro interpolate_share_bytes) auto
  then have v: "v = ?s" using ok by simp
  have "share_value s = share_bytes v ?c (share_index s)" if "s \<in> set shares" for s
  proof (cases "s \<in> set basis")
    case False
    then have "s \<in> set (drop (unat t) shares)"
      using that by (metis Un_iff append_take_drop_id basis_def set_append)
    then show ?thesis
      using ok assms(2) that c(3) interp v by (intro nth_equalityI) (auto simp: v)
  qed (use on_basis v in simp)
  then show ?thesis using c by blast
qed

section \<open>Success and detection\<close>

lemma split_bytes_available:
  assumes "\<And>r n. fst (fill r n) \<noteq> None"
  shows "\<exists>out r'. split_bytes fill degree bs k shares r = (Ok out, r') \<and> length out = length shares"
proof (induction bs arbitrary: k shares r)
  case (Cons b bs)
  obtain c r1 where "fill r degree = (Some c, r1)"
    using assms [of r degree] by (cases "fill r degree") auto
  then show ?case
    using Cons [of "k + 1" "map (\<lambda>s. s\<lparr>share_value := (share_value s)
      [k := evaluate b c (share_index s)]\<rparr>) shares" r1] by simp
qed simp

lemma split_available:
  assumes "\<And>r n. fst (fill r n) \<noteq> None" "t \<noteq> 0" "t \<le> n" "n \<le> MAX_SHARES"
  shows "\<exists>all r'. split fill secret t n r = (Ok all, r') \<and> length all = unat n"
proof -
  have "\<not> 31 < t" "\<not> 31 < n" "\<not> n < t" "n \<noteq> 0" using assms by auto
  then have "split fill secret t n r = split_bytes fill (unat (t - 1)) secret 0
      (map (\<lambda>i. \<lparr>share_index = word_of_nat i, share_value = replicate 32 0\<rparr>) [1..<unat n + 1]) r"
    using assms(2) by (simp add: split_def validate_threshold_def del: upt_Suc)
  then show ?thesis
    using split_bytes_available [of fill "unat (t - 1)" secret 0
      "map (\<lambda>i. \<lparr>share_index = word_of_nat i, share_value = replicate 32 0\<rparr>) [1..<unat n + 1]" r]
      assms(1) by (simp del: upt_Suc split_bytes.simps)
qed

lemma polynomial_through_basis_unique:
  fixes basis :: "share list"
  assumes "distinct (map share_index basis)"
    and "length s = 32" "length c = 32" "\<forall>x\<in>set c. length x < length basis"
    and "length s' = 32" "length c' = 32" "\<forall>x\<in>set c'. length x < length basis"
    and "\<forall>h\<in>set basis. share_value h = share_bytes s c (share_index h)"
    and "\<forall>h\<in>set basis. share_value h = share_bytes s' c' (share_index h)"
  shows "share_bytes s c x = share_bytes s' c' x"
  using interpolate_share_bytes [of basis s c x] interpolate_share_bytes [of basis s' c' x] assms
  by simp

lemma length_interpolated_secret: "reconstruct t shares = Ok v \<Longrightarrow> length v = 32"
  by (simp add: reconstruct_Ok_iff)

lemma altered_share_rejected:
  assumes "length secret = 32" "length coeffs = 32" "\<forall>c\<in>set coeffs. length c = unat t - 1"
    and "\<forall>s\<in>set (left @ right). share_value s = share_bytes secret coeffs (share_index s)"
    and "unat t \<le> length (left @ right)"
    and "length (share_value bad) = 32"
    and "share_value bad \<noteq> share_bytes secret coeffs (share_index bad)"
  shows "reconstruct t (left @ bad # right) \<noteq> Ok v"
proof
  assume ok: "reconstruct t (left @ bad # right) = Ok v"
  note acc = ok [unfolded reconstruct_Ok_iff]
  obtain c' where c': "length c' = 32" "\<forall>c\<in>set c'. length c = unat t - 1"
    "\<forall>s\<in>set (left @ bad # right). share_value s = share_bytes v c' (share_index s)"
    using reconstruct_Ok_polynomial [OF ok] assms by auto
  have "share_bytes secret coeffs (share_index bad) = share_bytes v c' (share_index bad)"
  proof (rule polynomial_through_basis_unique [of "left @ right"])
    show "distinct (map share_index (left @ right))" using acc by auto
    show "\<forall>x\<in>set coeffs. length x < length (left @ right)"
      "\<forall>x\<in>set c'. length x < length (left @ right)"
      using assms(3,5) c'(2) acc by auto
  qed (use assms c' length_interpolated_secret [OF ok] in auto)
  then show False using assms(7) c'(3) by simp
qed

lemma reconstruct_inconsistent:
  assumes "reconstruct t shares \<noteq> Ok (interpolate (take (unat t) shares) 0)"
    and "0 < unat t" "unat t \<le> length shares" "length shares \<le> 31"
    and "0 \<notin> share_index ` set shares" "distinct (map share_index shares)"
  shows "reconstruct t shares = Err InconsistentShares"
proof -
  have "validate_threshold t = Ok ()"
    using assms by (auto simp: validate_threshold_def u8_le_31 word_less_nat_alt unat_gt_0)
  moreover have "check_coordinates [] shares = Ok ()"
    using assms by (simp add: check_coordinates_start)
  ultimately show ?thesis
    using assms by (auto simp: reconstruct_def Let_def split: if_splits)
qed

text \<open>A generator that always succeeds with zero bytes, as in the crate's own tests.\<close>

definition zero_fill :: "unit rng" where
  "zero_fill r n = (Some (replicate n 0), r)"

lemma zero_fill_ok: "fills_buffer zero_fill" "fst (zero_fill r n) \<noteq> None"
  by (simp_all add: fills_buffer_def zero_fill_def)

lemma share_bytes_constant: "share_bytes (replicate 32 v) (replicate 32 []) x = replicate 32 v"
  by (rule nth_equalityI) (simp_all add: share_bytes_def evaluate_def)

section \<open>Properties\<close>

text \<open>A split with valid parameters and an available generator returns \<open>count\<close> shares of full
  length at the coordinates 1 to \<open>count\<close>.\<close>

theorem split_returns_all_shares:
  assumes "fills_buffer fill" "\<And>r n. fst (fill r n) \<noteq> None"
    and "length secret = SECRET_LEN"
    and "threshold \<noteq> 0" "threshold \<le> count" "count \<le> MAX_SHARES"
  shows "\<exists>all r'. split fill secret threshold count r = (Ok all, r')
           \<and> map share_index all = map word_of_nat [1..<unat count + 1]
           \<and> (\<forall>s\<in>set all. length (share_value s) = SECRET_LEN)"
proof -
  obtain all r' where ok: "split fill secret threshold count r = (Ok all, r')"
    using split_available [of fill threshold count secret r, OF assms(2,4,5,6)] by blast
  then show ?thesis
    using split_Ok(4) [OF ok assms(1)] assms(3) by (auto simp: comp_def simp del: upt_Suc)
qed

text \<open>C9. General t-of-n recovery: every selection of at least \<open>threshold\<close> distinct shares of one
  split, in any order and with any surplus, reconstructs exactly the secret.\<close>

theorem any_threshold_subset_reconstructs:
  assumes "fills_buffer fill" "length secret = SECRET_LEN"
    and "split fill secret threshold count r = (Ok all, r')"
    and "set shares \<subseteq> set all" "distinct shares" "unat threshold \<le> length shares"
  shows "reconstruct threshold shares = Ok secret"
  using assms by (intro reconstruct_split) simp_all

theorem any_threshold_subset_reconstructs_witness:
  "\<exists>all. fst (split zero_fill (replicate 32 7) 2 3 ()) = Ok all
     \<and> reconstruct 2 [all ! 2, all ! 0] = Ok (replicate 32 7)"
proof -
  obtain all r' where ok: "split zero_fill (replicate 32 7) 2 3 () = (Ok all, r')"
    and len: "length all = 3"
    using split_available [of zero_fill 2 3] by (auto simp: zero_fill_ok)
  have "map share_index all = [1, 2, 3]"
    using split_Ok(4) [OF ok zero_fill_ok(1)] by (auto simp: comp_def upt_rec)
  then have "map share_index all ! 2 \<noteq> map share_index all ! 0" by simp
  then have "all ! 2 \<noteq> all ! 0" using len by auto
  moreover have "all ! 2 \<in> set all" "all ! 0 \<in> set all" using len by simp_all
  ultimately have "reconstruct 2 [all ! 2, all ! 0] = Ok (replicate 32 7)"
    by (intro any_threshold_subset_reconstructs [OF zero_fill_ok(1) _ ok]) simp_all
  then show ?thesis using ok by auto
qed

text \<open>C24. Reconstruction accepts only consistent input: if it returns a candidate, the coordinates
  are nonzero and distinct, there are between \<open>threshold\<close> and 31 shares, and every supplied share
  lies on one polynomial of degree below \<open>threshold\<close> whose value at 0 is the candidate.\<close>

theorem reconstruct_accepts_only_consistent:
  assumes "reconstruct threshold shares = Ok candidate"
    and "\<forall>s\<in>set shares. length (share_value s) = SECRET_LEN"
  shows "0 \<notin> share_index ` set shares \<and> distinct (map share_index shares)
    \<and> 0 < threshold \<and> unat threshold \<le> length shares \<and> length shares \<le> 31
    \<and> (\<exists>coeffs. length coeffs = SECRET_LEN \<and> (\<forall>c\<in>set coeffs. length c = unat threshold - 1)
         \<and> (\<forall>s\<in>set shares. share_value s = share_bytes candidate coeffs (share_index s)))"
  using assms reconstruct_Ok_polynomial [OF assms(1)]
  by (auto simp: reconstruct_Ok_iff unat_gt_0 word_gt_0)

theorem reconstruct_accepts_only_consistent_witness:
  "reconstruct 1 [\<lparr>share_index = 4, share_value = replicate 32 9\<rparr>] = Ok (replicate 32 9)
   \<and> (\<exists>coeffs. length coeffs = SECRET_LEN \<and> (\<forall>c\<in>set coeffs. length c = unat (1 :: u8) - 1)
         \<and> share_bytes (replicate 32 9) coeffs 4 = replicate 32 9)"
proof -
  have ok: "reconstruct 1 [\<lparr>share_index = 4, share_value = replicate 32 9\<rparr>] = Ok (replicate 32 9)"
    by (rule reconstruct_share_bytes [where coeffs = "replicate 32 []"]) (simp_all add: share_bytes_constant)
  show ?thesis
    using ok reconstruct_accepts_only_consistent [OF ok] by auto
qed



text \<open>C23. A single altered share among more than \<open>threshold\<close> shares is always detected, at any
  position in the list.\<close>

theorem altered_share_is_detected:
  assumes "length secret = SECRET_LEN" "length coeffs = SECRET_LEN"
    and "\<forall>c\<in>set coeffs. length c = unat threshold - 1"
    and "\<forall>s\<in>set (left @ right). share_value s = share_bytes secret coeffs (share_index s)"
    and "0 < threshold" "unat threshold \<le> length (left @ right)" "length (left @ right) < 31"
    and "0 \<notin> share_index ` set (left @ bad # right)"
    and "distinct (map share_index (left @ bad # right))"
    and "length (share_value bad) = SECRET_LEN"
    and "share_value bad \<noteq> share_bytes secret coeffs (share_index bad)"
  shows "reconstruct threshold (left @ bad # right) = Err InconsistentShares"
proof (rule reconstruct_inconsistent)
  show "reconstruct threshold (left @ bad # right) \<noteq>
      Ok (interpolate (take (unat threshold) (left @ bad # right)) 0)"
    by (rule altered_share_rejected [of secret coeffs]) (use assms in simp_all)
qed (use assms in \<open>auto simp: unat_gt_0 word_gt_0\<close>)

theorem altered_share_is_detected_witness:
  "reconstruct 1 [share_at (replicate 32 9) (replicate 32 []) 4,
     \<lparr>share_index = 5, share_value = replicate 32 8\<rparr>] = Err InconsistentShares"
proof -
  have "replicate 32 8 \<noteq> share_bytes (replicate 32 9) (replicate 32 []) 5"
    by (simp add: share_bytes_constant)
  then show ?thesis
    using altered_share_is_detected [of "replicate 32 9" "replicate 32 []" 1
        "[share_at (replicate 32 9) (replicate 32 []) 4]" "[]"
        "\<lparr>share_index = 5, share_value = replicate 32 8\<rparr>"] by simp
qed

end
