(* ===== verification/Policy.thy ===== *)
theory Policy
  imports Policy_Compile Sharing
begin

text \<open>
  Production policies of crates/leelo-policy/src/lib.rs: admission (\<open>ProductionPolicy::new\<close> with its
  compiler \<open>compile_node\<close> and the certificate check), the accessors, and the network decision over a
  list of leaf ids. The \<open>BTreeSet\<close>s of the compiler are sets; its \<open>&mut\<close> arguments form a record that
  each call returns. A \<open>u8\<close> read as a \<open>usize\<close> is \<open>unat\<close>.
\<close>

section \<open>Data\<close>

definition MAX_NODES :: nat where [simp]: "MAX_NODES = 31"
definition MAX_DEPTH :: nat where [simp]: "MAX_DEPTH = 4"

datatype mode = NetworkBound | Attested

datatype policy_error =
    TooManyNodes
  | TooDeep
  | DuplicateNodeId u8
  | DuplicateProvider
  | PolicyInvalidThreshold
  | InvalidCompilation
  | EnvelopeNotAuthenticated
  | UnknownNetworkLeaf u8
  | DuplicateResponse u8
  | FactorsNotSatisfied
  | RootNotAuthenticated
  | AlreadyReleased
  | Sharing_error sss_error

primrec node_id :: "network_node \<Rightarrow> u8" where
  "node_id (Network_Leaf i p) = i"
| "node_id (Network_Threshold i r children) = i"

record network_plan =
  plan_gates :: "gate list"
  plan_leaves :: "leaf_entry list"

record production_policy =
  policy_mode :: mode
  policy_tpm_node_id :: u8
  policy_network :: network_node
  policy_plan :: network_plan

section \<open>The compiler\<close>

text \<open>The \<open>&mut\<close> arguments of \<open>compile_node\<close>.\<close>

record compile_state =
  st_count :: nat
  st_ids :: "u8 set"
  st_providers :: "bytes set"
  st_plan :: network_plan

text \<open>The checks at the head of \<open>compile_node\<close>, shared by both kinds of node.\<close>

definition enter_node :: "u8 \<Rightarrow> nat \<Rightarrow> compile_state \<Rightarrow> (compile_state, policy_error) result" where
  "enter_node i depth s =
     (if depth > MAX_DEPTH then Err TooDeep
      else if st_count s \<ge> MAX_NODES then Err TooManyNodes
      else if i \<in> st_ids s then Err (DuplicateNodeId i)
      else Ok (s\<lparr>st_count := st_count s + 1, st_ids := insert i (st_ids s)\<rparr>))"

definition push_gate :: "gate \<Rightarrow> compile_state \<Rightarrow> nat \<times> compile_state" where
  "push_gate g s =
     (length (plan_gates (st_plan s)),
      s\<lparr>st_plan := (st_plan s)\<lparr>plan_gates := plan_gates (st_plan s) @ [g]\<rparr>\<rparr>)"

definition compile_leaf :: "u8 \<Rightarrow> bytes \<Rightarrow> compile_state \<Rightarrow> (nat \<times> compile_state, policy_error) result" where
  "compile_leaf i p s =
     (if p \<in> st_providers s then Err DuplicateProvider
      else let response_index = length (plan_leaves (st_plan s));
               s' = s\<lparr>st_providers := insert p (st_providers s),
                      st_plan := (st_plan s)\<lparr>plan_leaves := plan_leaves (st_plan s) @ [(i, p)]\<rparr>\<rparr>
           in Ok (push_gate (Gate_Leaf response_index) s'))"

fun compile_node ::
    "network_node \<Rightarrow> nat \<Rightarrow> compile_state \<Rightarrow> (nat \<times> compile_state, policy_error) result"
  and compile_nodes ::
    "network_node list \<Rightarrow> nat \<Rightarrow> compile_state \<Rightarrow> nat list
       \<Rightarrow> (nat list \<times> compile_state, policy_error) result" where
  "compile_node (Network_Leaf i p) depth s =
     and_then (enter_node i depth s) (\<lambda>s'. compile_leaf i p s')"
| "compile_node (Network_Threshold i required children) depth s =
     and_then (enter_node i depth s) (\<lambda>s'.
       if required = 0 \<or> unat required > length children then Err PolicyInvalidThreshold
       else and_then (compile_nodes children (depth + 1) s' []) (\<lambda>(indices, s'').
              Ok (push_gate (Gate_Threshold (unat required) indices) s'')))"
| "compile_nodes [] depth s indices = Ok (indices, s)"
| "compile_nodes (child # children) depth s indices =
     and_then (compile_node child depth s) (\<lambda>(index, s').
       compile_nodes children depth s' (indices @ [index]))"

definition production_policy_new ::
  "mode \<Rightarrow> u8 \<Rightarrow> network_node \<Rightarrow> (production_policy, policy_error) result" where
  "production_policy_new mode tpm_node_id network =
     and_then (compile_node network 2
         \<lparr>st_count = 2, st_ids = {tpm_node_id}, st_providers = {},
          st_plan = \<lparr>plan_gates = [], plan_leaves = []\<rparr>\<rparr>) (\<lambda>(_, s).
       if \<not> check_compilation network (plan_gates (st_plan s)) (plan_leaves (st_plan s))
       then Err InvalidCompilation
       else Ok \<lparr>policy_mode = mode, policy_tpm_node_id = tpm_node_id,
                policy_network = network, policy_plan = st_plan s\<rparr>)"

section \<open>Accessors and the network decision\<close>

definition policy_node_count :: "production_policy \<Rightarrow> nat" where
  "policy_node_count policy = length (plan_gates (policy_plan policy)) + 2"

definition network_leaf_ids :: "production_policy \<Rightarrow> u8 list" where
  "network_leaf_ids policy = map (\<lambda>(i, _). i) (plan_leaves (policy_plan policy))"

definition network_leaves :: "production_policy \<Rightarrow> leaf_entry list" where
  "network_leaves policy = plan_leaves (policy_plan policy)"

primrec record_all ::
  "leaf_entry list \<Rightarrow> u8 list \<Rightarrow> bool list \<Rightarrow> (bool list, policy_error) result" where
  "record_all leaves [] responses = Ok responses"
| "record_all leaves (i # available) responses =
     and_then (ok_or (UnknownNetworkLeaf i) (position (\<lambda>(leaf, _). leaf = i) leaves)) (\<lambda>index.
       case record_response responses index of
         (accepted, responses') \<Rightarrow>
           if \<not> accepted then Err (DuplicateResponse i) else record_all leaves available responses')"

definition plan_responses :: "network_plan \<Rightarrow> u8 list \<Rightarrow> (bool list, policy_error) result" where
  "plan_responses plan available =
     record_all (plan_leaves plan) available (replicate (length (plan_leaves plan)) False)"

definition network_satisfied :: "production_policy \<Rightarrow> u8 list \<Rightarrow> (bool, policy_error) result" where
  "network_satisfied policy available =
     and_then (plan_responses (policy_plan policy) available) (\<lambda>responses.
       Ok (evaluate_network (plan_gates (policy_plan policy)) responses))"

section \<open>Admission\<close>

text \<open>What the compiler accepts below a state, and the state it returns.\<close>

definition forest_ids :: "network_node list \<Rightarrow> u8 list" where
  "forest_ids cs = concat (map tree_ids cs)"

definition forest_providers :: "network_node list \<Rightarrow> bytes list" where
  "forest_providers cs = map snd (forest_entries cs)"

definition compile_ok :: "network_node list \<Rightarrow> nat \<Rightarrow> compile_state \<Rightarrow> bool" where
  "compile_ok cs depth s \<longleftrightarrow>
     (\<forall>c\<in>set cs. depth + height c \<le> 5 \<and> thresholds_valid c)
     \<and> (cs \<noteq> [] \<longrightarrow> st_count s + forest_size cs \<le> 31)
     \<and> distinct (forest_ids cs) \<and> set (forest_ids cs) \<inter> st_ids s = {}
     \<and> distinct (forest_providers cs) \<and> set (forest_providers cs) \<inter> st_providers s = {}"

definition compiled :: "network_node list \<Rightarrow> compile_state \<Rightarrow> compile_state" where
  "compiled cs s =
     \<lparr>st_count = st_count s + forest_size cs,
      st_ids = st_ids s \<union> set (forest_ids cs),
      st_providers = st_providers s \<union> set (forest_providers cs),
      st_plan = \<lparr>plan_gates = plan_gates (st_plan s) @ layout_forest cs
                   (length (plan_gates (st_plan s))) (length (plan_leaves (st_plan s))),
                 plan_leaves = plan_leaves (st_plan s) @ forest_entries cs\<rparr>\<rparr>"

lemma forest_ids_simps [simp]:
  "forest_ids [] = []"
  "forest_ids (c # cs) = tree_ids c @ forest_ids cs"
  "tree_ids (Network_Threshold i r cs) = i # forest_ids cs"
  by (simp_all add: forest_ids_def)

lemma forest_providers_simps [simp]:
  "forest_providers [] = []"
  "forest_providers [Network_Leaf i p] = [p]"
  "forest_providers [Network_Threshold i r cs] = forest_providers cs"
  by (simp_all add: forest_providers_def)

lemma forest_providers_Cons:
  "forest_providers (c # cs) = forest_providers [c] @ forest_providers cs"
  by (simp add: forest_providers_def)

declare tree_ids.simps(2) [simp del]

lemma compiled_Nil [simp]: "compiled [] s = (s :: compile_state)"
  by (simp add: compiled_def)

lemma compiled_Cons: "compiled (c # cs) s = compiled cs (compiled [c] s)"
  by (simp add: compiled_def Un_assoc forest_providers_Cons [of c cs])

lemma compile_ok_Nil [simp]: "compile_ok [] depth s"
  by (simp add: compile_ok_def)

lemma compile_ok_Cons:
  "compile_ok (c # cs) depth s \<longleftrightarrow> compile_ok [c] depth s \<and> compile_ok cs depth (compiled [c] s)"
  by (simp add: compile_ok_def compiled_def forest_providers_Cons [of c cs] Int_Un_distrib
      Int_Un_distrib2) (auto simp: Int_commute)

lemma compile_ok_threshold:
  "compile_ok [Network_Threshold i r cs] depth s \<longleftrightarrow>
     depth \<le> 4 \<and> st_count s < 31 \<and> i \<notin> st_ids s \<and> r \<noteq> 0 \<and> unat r \<le> length cs
     \<and> compile_ok cs (depth + 1) (s\<lparr>st_count := st_count s + 1, st_ids := insert i (st_ids s)\<rparr>)"
proof (cases "cs = []")
  case False
  then obtain c where c: "c \<in> set cs" by (cases cs) auto
  have "depth + Suc (foldr max (map height cs) 0) \<le> 5 \<longleftrightarrow> depth \<le> 4 \<and> foldr max (map height cs) 0 \<le> 4 - depth"
    by auto
  also have "\<dots> \<longleftrightarrow> depth \<le> 4 \<and> (\<forall>c\<in>set cs. depth + 1 + height c \<le> 5)"
    by (auto simp: foldr_max_le)
  finally show ?thesis
    using False c by (auto simp: compile_ok_def)
qed (auto simp: compile_ok_def unat_eq_zero)

lemma compile_node_Ok_iff:
  "compile_node node depth s = Ok (index, s') \<longleftrightarrow> compile_ok [node] depth s
     \<and> index = length (plan_gates (st_plan s)) + nodes node - 1 \<and> s' = compiled [node] s"
  "compile_nodes cs depth s indices = Ok (indices', s') \<longleftrightarrow> compile_ok cs depth s
     \<and> indices' = indices @ child_roots cs (length (plan_gates (st_plan s))) \<and> s' = compiled cs s"
proof (induction node depth s and cs depth s indices arbitrary: index s' and indices' s'
    rule: compile_node_compile_nodes.induct)
  case (1 i p depth s)
  show ?case
    by (auto simp: enter_node_def compile_leaf_def push_gate_def compile_ok_def compiled_def Let_def)
next
  case (2 i required children depth s)
  let ?s = "s\<lparr>st_count := st_count s + 1, st_ids := insert i (st_ids s)\<rparr>"
  show ?case
  proof (cases "depth \<le> 4 \<and> st_count s < 31 \<and> i \<notin> st_ids s \<and> required \<noteq> 0 \<and> unat required \<le> length children")
    case True
    then have enter: "enter_node i depth s = Ok ?s" by (simp add: enter_node_def)
    have "compile_nodes children (depth + 1) ?s [] = Ok (out, t) \<longleftrightarrow> compile_ok children (depth + 1) ?s
        \<and> out = child_roots children (length (plan_gates (st_plan s))) \<and> t = compiled children ?s" for out t
      using 2 [OF enter, of out t] True by simp
    then show ?thesis
      using True enter
      by (auto simp: compile_ok_threshold push_gate_def compiled_def and_then_Ok_iff)
  next
    case False
    then show ?thesis
      by (auto simp: compile_ok_threshold enter_node_def)
  qed
next
  case (4 child children depth s indices)
  show ?case
  proof (cases "compile_ok [child] depth s")
    case True
    then have step: "compile_node child depth s =
        Ok (length (plan_gates (st_plan s)) + nodes child - 1, compiled [child] s)"
      using 4(1) by blast
    have "length (plan_gates (st_plan (compiled [child] s))) = length (plan_gates (st_plan s)) + nodes child"
      by (simp add: compiled_def)
    then show ?thesis
      using 4(2) [OF step refl, of indices' s'] True step
      by (simp add: compile_ok_Cons [of child children] compiled_Cons [of child children])
  next
    case False
    then have "compile_node child depth s \<noteq> Ok r" for r
      using 4(1) by (cases r) auto
    then show ?thesis
      using False by (auto simp: and_then_Ok_iff compile_ok_Cons [of child children])
  qed
qed auto

definition admissible :: "u8 \<Rightarrow> network_node \<Rightarrow> bool" where
  "admissible tpm_node_id network \<longleftrightarrow>
     height network \<le> 3 \<and> nodes network \<le> 29 \<and> thresholds_valid network
     \<and> distinct (tpm_node_id # tree_ids network) \<and> distinct (map snd (tree_leaves network))"

definition admitted :: "mode \<Rightarrow> u8 \<Rightarrow> network_node \<Rightarrow> production_policy" where
  "admitted mode tpm_node_id network =
     \<lparr>policy_mode = mode, policy_tpm_node_id = tpm_node_id, policy_network = network,
      policy_plan = \<lparr>plan_gates = layout network 0 0, plan_leaves = tree_leaves network\<rparr>\<rparr>"

lemma wf_node_leaves: "wf_node node \<Longrightarrow> \<forall>e\<in>set (tree_leaves node). length (snd e) = 32"
  by (induction node) auto

lemma production_policy_new_cases:
  assumes "wf_node network"
  shows "production_policy_new mode tpm network =
    (case compile_node network 2 \<lparr>st_count = 2, st_ids = {tpm}, st_providers = {},
            st_plan = \<lparr>plan_gates = [], plan_leaves = []\<rparr>\<rparr> of
       Ok _ \<Rightarrow> Ok (admitted mode tpm network) | Err e \<Rightarrow> Err e)"
proof (cases "compile_node network 2 \<lparr>st_count = 2, st_ids = {tpm}, st_providers = {},
            st_plan = \<lparr>plan_gates = [], plan_leaves = []\<rparr>\<rparr>")
  case (Ok r)
  obtain index s where r: "r = (index, s)" by (cases r)
  then have ok: "compile_ok [network] 2 \<lparr>st_count = 2, st_ids = {tpm}, st_providers = {},
        st_plan = \<lparr>plan_gates = [], plan_leaves = []\<rparr>\<rparr>"
    and s: "st_plan s = \<lparr>plan_gates = layout network 0 0, plan_leaves = tree_leaves network\<rparr>"
    using Ok by (auto simp: compile_node_Ok_iff compiled_def)
  have "check_compilation network (layout network 0 0) (tree_leaves network)"
    using ok assms by (subst check_compilation_iff) (auto simp: wf_node_leaves compile_ok_def)
  then show ?thesis
    using Ok r s by (simp add: production_policy_new_def admitted_def)
qed (simp add: production_policy_new_def)

lemma production_policy_new_iff:
  assumes "wf_node network"
  shows "production_policy_new mode tpm network = Ok policy \<longleftrightarrow>
    admissible tpm network \<and> policy = admitted mode tpm network"
proof -
  let ?s = "\<lparr>st_count = 2, st_ids = {tpm}, st_providers = {},
     st_plan = \<lparr>plan_gates = [], plan_leaves = []\<rparr>\<rparr>"
  have "compile_ok [network] 2 ?s \<longleftrightarrow> admissible tpm network"
    by (auto simp: compile_ok_def admissible_def forest_providers_def)
  then have "(\<exists>r. compile_node network 2 ?s = Ok r) \<longleftrightarrow> admissible tpm network"
    by (simp add: compile_node_Ok_iff)
  then show ?thesis
    by (cases "compile_node network 2 ?s") (auto simp: production_policy_new_cases [OF assms])
qed

lemma compile_node_certified:
  "compile_node node depth s \<noteq> Err InvalidCompilation"
  "compile_nodes cs depth s indices \<noteq> Err InvalidCompilation"
  by (induction node depth s and cs depth s indices rule: compile_node_compile_nodes.induct)
     (auto simp: enter_node_def compile_leaf_def Let_def result_simps split: if_splits)

lemma tree_leaves_ids: "set (map fst (tree_leaves node)) \<subseteq> set (tree_ids node)"
proof (induction node)
  case (Network_Threshold i r children)
  then show ?case by (force simp: forest_ids_def)
qed simp

lemma distinct_leaf_ids: "distinct (tree_ids node) \<Longrightarrow> distinct (map fst (tree_leaves node))"
proof (induction node)
  case (Network_Threshold i r children)
  then have "distinct (forest_ids children)" "\<forall>c\<in>set children. distinct (tree_ids c) \<longrightarrow> distinct (map fst (tree_leaves c))"
    by auto
  then have "distinct (map fst (forest_entries children))"
  proof (induction children)
    case (Cons c cs)
    have "set (map fst (forest_entries cs)) \<subseteq> set (forest_ids cs)"
      using tree_leaves_ids by (fastforce simp: forest_ids_def)
    then show ?case using Cons tree_leaves_ids [of c] by auto
  qed simp
  then show ?case by simp
qed simp

section \<open>Responses\<close>

lemma position_leaf:
  assumes "distinct (map fst leaves)" "k < length leaves" "fst (leaves ! k) = i"
  shows "position (\<lambda>(leaf, _). leaf = i) leaves = Some k"
proof (rule position_eq_Some)
  fix j assume "j < k"
  then have "map fst leaves ! j \<noteq> map fst leaves ! k"
    using assms nth_eq_iff_index_eq [OF assms(1), of j k] by simp
  then show "\<not> (case leaves ! j of (leaf, _) \<Rightarrow> leaf = i)"
    using assms \<open>j < k\<close> by (auto split: prod.splits)
qed (use assms in \<open>auto split: prod.splits\<close>)

lemma record_response_leaf:
  assumes "distinct (map fst leaves)" "k < length leaves" "fst (leaves ! k) = i"
  shows "record_response (map (A \<circ> fst) leaves) k =
    (if A i then (False, map (A \<circ> fst) leaves) else (True, map (A(i := True) \<circ> fst) leaves))"
proof -
  have "(map (A \<circ> fst) leaves)[k := True] = map (A(i := True) \<circ> fst) leaves"
  proof (rule nth_equalityI)
    fix j assume j: "j < length ((map (A \<circ> fst) leaves)[k := True])"
    then have "fst (leaves ! j) = i \<longleftrightarrow> j = k"
      using assms nth_eq_iff_index_eq [OF assms(1), of j k] by auto
    then show "(map (A \<circ> fst) leaves)[k := True] ! j = map (A(i := True) \<circ> fst) leaves ! j"
      using j by (simp add: nth_list_update)
  qed simp
  then show ?thesis using assms by (simp add: record_response_def)
qed

lemma record_all_step:
  assumes "distinct (map fst leaves)" "i \<in> fst ` set leaves"
  shows "record_all leaves (i # available) (map (A \<circ> fst) leaves) =
    (if A i then Err (DuplicateResponse i)
     else record_all leaves available (map (A(i := True) \<circ> fst) leaves))"
proof -
  obtain k where "k < length leaves" "fst (leaves ! k) = i"
    using assms(2) by (auto simp: in_set_conv_nth)
  then show ?thesis
    using assms(1) by (simp add: position_leaf record_response_leaf)
qed

lemma record_all_unknown:
  "i \<notin> fst ` set leaves \<Longrightarrow>
     record_all leaves (i # available) responses = Err (UnknownNetworkLeaf i)"
proof -
  assume "i \<notin> fst ` set leaves"
  then have "position (\<lambda>(leaf, _). leaf = i) leaves = None"
    by (force simp: position_None_iff)
  then show ?thesis by simp
qed

lemma record_all_prefix:
  assumes "distinct (map fst leaves)"
  shows "set done \<subseteq> fst ` set leaves \<Longrightarrow> distinct done \<Longrightarrow> \<forall>i\<in>set done. \<not> A i \<Longrightarrow>
    record_all leaves (done @ available) (map (A \<circ> fst) leaves) =
      record_all leaves available (map ((\<lambda>i. A i \<or> i \<in> set done) \<circ> fst) leaves)"
proof (induction "done" arbitrary: A)
  case (Cons i ids)
  then have "record_all leaves ((i # ids) @ available) (map (A \<circ> fst) leaves) =
      record_all leaves (ids @ available) (map (A(i := True) \<circ> fst) leaves)"
    using record_all_step [OF assms, of i] by simp
  also have "\<dots> = record_all leaves available
      (map ((\<lambda>j. (A(i := True)) j \<or> j \<in> set ids) \<circ> fst) leaves)"
    using Cons.prems by (intro Cons.IH) auto
  also have "(\<lambda>j. (A(i := True)) j \<or> j \<in> set ids) = (\<lambda>j. A j \<or> j \<in> set (i # ids))"
    by auto
  finally show ?case .
qed (simp add: comp_def)

text \<open>Every list of ids is either free of unknown and repeated ids or has a first offender.\<close>

lemma first_offender:
  fixes ids :: "'a list"
  obtains "distinct ids" "set ids \<subseteq> K"
  | "done" i rest where "ids = done @ i # rest" "distinct done" "set done \<subseteq> K" "i \<notin> K \<or> i \<in> set done"
proof (induction ids arbitrary: thesis rule: rev_induct)
  case (snoc x xs)
  show ?case
  proof (rule snoc.IH)
    assume "distinct xs" "set xs \<subseteq> K"
    then show ?thesis using snoc.prems(1) snoc.prems(2) [of xs x "[]"] by auto
  next
    fix "done" i rest
    assume "xs = done @ i # rest" "distinct done" "set done \<subseteq> K" "i \<notin> K \<or> i \<in> set done"
    then show ?thesis using snoc.prems(2) [of "done" i "rest @ [x]"] by simp
  qed
qed simp

lemma plan_responses_distinct:
  assumes "distinct (map fst (plan_leaves plan))"
    and "distinct available" "set available \<subseteq> fst ` set (plan_leaves plan)"
  shows "plan_responses plan available = Ok (map ((\<lambda>i. i \<in> set available) \<circ> fst) (plan_leaves plan))"
  using record_all_prefix [OF assms(1,3,2), of "\<lambda>_. False" "[]"]
  by (simp add: plan_responses_def comp_def map_replicate_const)

lemma plan_responses_offender:
  assumes "distinct (map fst (plan_leaves plan))" "distinct done" "set done \<subseteq> fst ` set (plan_leaves plan)"
  shows "i \<notin> fst ` set (plan_leaves plan) \<Longrightarrow>
      plan_responses plan (done @ i # rest) = Err (UnknownNetworkLeaf i)"
    and "i \<in> set done \<Longrightarrow> plan_responses plan (done @ i # rest) = Err (DuplicateResponse i)"
proof -
  have "plan_responses plan (done @ i # rest) = record_all (plan_leaves plan) (i # rest)
      (map ((\<lambda>i. i \<in> set done) \<circ> fst) (plan_leaves plan))"
    using record_all_prefix [OF assms(1,3,2), of "\<lambda>_. False" "i # rest"]
    by (simp add: plan_responses_def comp_def map_replicate_const del: record_all.simps)
  then show "i \<notin> fst ` set (plan_leaves plan) \<Longrightarrow>
        plan_responses plan (done @ i # rest) = Err (UnknownNetworkLeaf i)"
      "i \<in> set done \<Longrightarrow> plan_responses plan (done @ i # rest) = Err (DuplicateResponse i)"
    using assms(3) record_all_step [OF assms(1), of i rest "\<lambda>i. i \<in> set done"]
    by (auto simp: record_all_unknown simp del: record_all.simps)
qed

lemma plan_responses_Ok_iff:
  assumes "distinct (map fst (plan_leaves plan))"
  shows "plan_responses plan available = Ok responses \<longleftrightarrow>
    distinct available \<and> set available \<subseteq> fst ` set (plan_leaves plan)
    \<and> responses = map ((\<lambda>i. i \<in> set available) \<circ> fst) (plan_leaves plan)"
proof (rule first_offender [of available "fst ` set (plan_leaves plan)"])
  fix "done" i rest
  assume "available = done @ i # rest" "distinct done" "set done \<subseteq> fst ` set (plan_leaves plan)"
    "i \<notin> fst ` set (plan_leaves plan) \<or> i \<in> set done"
  then show ?thesis
    using plan_responses_offender [OF assms, of "done" i rest] by auto
qed (auto simp: plan_responses_distinct [OF assms])

lemma new_policy:
  assumes "production_policy_new mode tpm network = Ok policy" "wf_node network"
  shows "admissible tpm network" "policy = admitted mode tpm network"
    and "distinct (map fst (plan_leaves (policy_plan policy)))"
    and "plan_gates (policy_plan policy) = layout network 0 0"
    and "plan_leaves (policy_plan policy) = tree_leaves network"
    and "set (network_leaf_ids policy) = fst ` set (tree_leaves network)"
proof -
  show p: "admissible tpm network" "policy = admitted mode tpm network"
    using assms by (auto simp: production_policy_new_iff)
  then show "distinct (map fst (plan_leaves (policy_plan policy)))"
      "plan_gates (policy_plan policy) = layout network 0 0"
      "plan_leaves (policy_plan policy) = tree_leaves network"
    using distinct_leaf_ids by (auto simp: admissible_def admitted_def)
  then show "set (network_leaf_ids policy) = fst ` set (tree_leaves network)"
    by (force simp: network_leaf_ids_def)
qed

lemma evaluate_network_admitted:
  assumes "admissible tpm network"
  shows "evaluate_network (layout network 0 0) (map (A \<circ> fst) (tree_leaves network)) = satisfied A network"
  using assms by (simp add: evaluate_network_layout tree_value_satisfied segment_all admissible_def)

lemma network_satisfied_iff:
  assumes "wf_node network" "production_policy_new mode tpm network = Ok policy"
  shows "network_satisfied policy available = Ok b \<longleftrightarrow>
    distinct available \<and> set available \<subseteq> set (network_leaf_ids policy)
    \<and> b = satisfied (\<lambda>i. i \<in> set available) network"
proof -
  note policy = new_policy [OF assms(2,1)]
  show ?thesis
    using evaluate_network_admitted [OF policy(1)]
    by (auto simp: network_satisfied_def and_then_Ok_iff plan_responses_Ok_iff [OF policy(3)] policy(4-6))
qed

lemma satisfied_cong: "(\<And>e. e \<in> set (tree_leaves node) \<Longrightarrow> A (fst e) = B (fst e)) \<Longrightarrow> satisfied A node = satisfied B node"
proof (induction node)
  case (Network_Threshold i r cs)
  then have "map (satisfied A) cs = map (satisfied B) cs" by auto
  then show ?case by (simp only: satisfied.simps)
qed simp

text \<open>No answers satisfy nothing, and all answers satisfy every tree with valid thresholds.\<close>

lemma satisfied_none: "thresholds_valid node \<Longrightarrow> \<not> satisfied (\<lambda>_. False) node"
proof (induction node)
  case (Network_Threshold i r cs)
  then have "filter id (map (satisfied (\<lambda>_. False)) cs) = []" by (auto simp: filter_empty_conv list_all_iff)
  then show ?case using Network_Threshold.prems by (auto simp: unat_gt_0)
qed simp

lemma satisfied_all: "thresholds_valid node \<Longrightarrow> satisfied (\<lambda>_. True) node"
proof (induction node)
  case (Network_Threshold i r cs)
  then have "filter id (map (satisfied (\<lambda>_. True)) cs) = map (satisfied (\<lambda>_. True)) cs"
    by (auto simp: filter_id_conv list_all_iff)
  then show ?case using Network_Threshold.prems by auto
qed simp

section \<open>Properties\<close>

text \<open>C27. Admission is exactly the documented limits: \<open>ProductionPolicy::new\<close> succeeds if and only if the
  network tree has height at most three, at most 29 nodes (31 with the implicit root and the TPM
  node), valid thresholds, ids distinct from each other and from the TPM id, and distinct
  providers; the plan it then holds is the postorder layout of the tree.\<close>

theorem policy_admission_exact:
  assumes "wf_node network"
  shows "production_policy_new mode tpm network = Ok policy \<longleftrightarrow>
    admissible tpm network \<and> policy = admitted mode tpm network"
  using assms by (rule production_policy_new_iff)

theorem policy_admission_exact_witness:
  "production_policy_new Attested 1 example_node = Ok (admitted Attested 1 example_node)
   \<and> production_policy_new Attested 4 example_node \<noteq> Ok (admitted Attested 4 example_node)"
  using policy_admission_exact [of example_node Attested 1 "admitted Attested 1 example_node"]
    policy_admission_exact [of example_node Attested 4 "admitted Attested 4 example_node"]
  by (simp add: admissible_def)

text \<open>C26. The compiler is complete for the certificate checker: admission never fails with
  \<open>InvalidCompilation\<close>.\<close>

theorem compiler_output_always_certified:
  assumes "wf_node network"
  shows "production_policy_new mode tpm network \<noteq> Err InvalidCompilation"
  using compile_node_certified(1)
  by (auto simp: production_policy_new_cases [OF assms] split: result.splits)

theorem compiler_output_always_certified_witness:
  "production_policy_new NetworkBound 1 (Network_Leaf 2 (replicate 32 9)) \<noteq> Err InvalidCompilation"
  by (rule compiler_output_always_certified) simp

text \<open>C11. The network decision of an admitted policy is the threshold semantics of its source tree
  over the set of ids that answered; it is given exactly for lists of known ids without repetition.\<close>

theorem network_satisfied_is_tree_semantics:
  assumes "wf_node network" "production_policy_new mode tpm network = Ok policy"
  shows "network_satisfied policy available = Ok b \<longleftrightarrow>
    distinct available \<and> set available \<subseteq> set (network_leaf_ids policy)
    \<and> b = satisfied (\<lambda>i. i \<in> set available) network"
  using assms by (rule network_satisfied_iff)

theorem network_satisfied_is_tree_semantics_witness:
  "network_satisfied (admitted Attested 1 example_node) [6, 4] = Ok True"
proof -
  have "production_policy_new Attested 1 example_node = Ok (admitted Attested 1 example_node)"
    by (subst production_policy_new_iff) (simp_all add: admissible_def)
  then show ?thesis
    using network_satisfied_is_tree_semantics [of example_node Attested 1
        "admitted Attested 1 example_node" "[6, 4]" True]
    by (simp add: network_leaf_ids_def admitted_def)
qed

text \<open>The first id of the list that is unknown or repeated decides the error of the network
  decision.\<close>

theorem network_satisfied_first_offender:
  assumes "wf_node network" "production_policy_new mode tpm network = Ok policy"
    and "distinct earlier" "set earlier \<subseteq> set (network_leaf_ids policy)"
  shows "(i \<notin> set (network_leaf_ids policy) \<longrightarrow>
       network_satisfied policy (earlier @ i # rest) = Err (UnknownNetworkLeaf i))
    \<and> (i \<in> set earlier \<longrightarrow>
       network_satisfied policy (earlier @ i # rest) = Err (DuplicateResponse i))"
proof -
  note policy = new_policy [OF assms(2,1)]
  show ?thesis
    using plan_responses_offender [OF policy(3) assms(3)] assms(4)
    by (simp add: network_satisfied_def policy(5,6))
qed

end
