(* ===== verification/Policy_Sharing.thy ===== *)
theory Policy_Sharing
  imports Policy
begin

text \<open>
  Splitting a network secret over a policy and recovering it (crates/leelo-policy/src/lib.rs,
  \<open>split_network\<close>, \<open>split_gate\<close>, \<open>recover_network\<close>). Both run over the compiled plan. An index out of
  range is a panic and \<open>split_gate\<close> recurses through gate indices, so both have an \<open>outcome\<close>: \<open>None\<close>
  stands for a panic, and for the recursion exceeding its fuel. The fuel is the number of gates; an
  admitted plan recurses at most as deep as its tree is high.

  The proofs refine the plan-level code to the recursion on the source tree (\<open>tree_split\<close>,
  \<open>tree_recover\<close>), where the round trip is an induction with the Shamir theorems of \<open>Sharing\<close>.
\<close>

section \<open>Splitting\<close>

type_synonym network_share = "u8 \<times> bytes"

type_synonym 'r split_outcome = "((network_share list, policy_error) result \<times> 'r) option"

fun split_gate :: "nat \<Rightarrow> 'r rng \<Rightarrow> network_plan \<Rightarrow> nat \<Rightarrow> bytes \<Rightarrow> 'r \<Rightarrow> network_share list
      \<Rightarrow> 'r split_outcome"
  and split_gates :: "nat \<Rightarrow> 'r rng \<Rightarrow> network_plan \<Rightarrow> (nat \<times> share) list \<Rightarrow> 'r \<Rightarrow> network_share list
      \<Rightarrow> 'r split_outcome" where
  "split_gate 0 fill plan index secret r leaves = None"
| "split_gate (Suc fuel) fill plan index secret r leaves =
     (if index \<ge> length (plan_gates plan) then None
      else case plan_gates plan ! index of
        Gate_Leaf response_index \<Rightarrow>
          if response_index \<ge> length (plan_leaves plan) then None
          else Some (Ok (leaves @ [(fst (plan_leaves plan ! response_index), secret)]), r)
      | Gate_Threshold required children \<Rightarrow>
          (case split fill secret (word_of_nat required) (word_of_nat (length children)) r of
             (Err e, r') \<Rightarrow> Some (Err (Sharing_error e), r')
           | (Ok shares, r') \<Rightarrow> split_gates fuel fill plan (zip children shares) r' leaves))"
| "split_gates fuel fill plan [] r leaves = Some (Ok leaves, r)"
| "split_gates fuel fill plan ((child, share) # rest) r leaves =
     (case split_gate fuel fill plan child (share_value share) r leaves of
        None \<Rightarrow> None
      | Some (Err e, r') \<Rightarrow> Some (Err e, r')
      | Some (Ok leaves', r') \<Rightarrow> split_gates fuel fill plan rest r' leaves')"

definition split_network :: "'r rng \<Rightarrow> production_policy \<Rightarrow> bytes \<Rightarrow> 'r \<Rightarrow> 'r split_outcome" where
  "split_network fill policy secret r =
     (let gates = plan_gates (policy_plan policy)
      in if gates = [] then None
         else split_gate (length gates) fill (policy_plan policy) (length gates - 1) secret r [])"

section \<open>Recovery\<close>

text \<open>The inner loop of a threshold gate: \<open>take\<close> each child value that is present.\<close>

fun take_children :: "nat list \<Rightarrow> nat \<Rightarrow> bytes option list \<Rightarrow> share list
      \<Rightarrow> (share list \<times> bytes option list, policy_error) outcome" where
  "take_children [] pos vals shares = Some (Ok (shares, vals))"
| "take_children (child # children) pos vals shares =
     (if child \<ge> length vals then None
      else case vals ! child of
        None \<Rightarrow> take_children children (pos + 1) vals shares
      | Some secret \<Rightarrow>
          run_then (Some (map_err Sharing_error (from_parts (word_of_nat (pos + 1)) secret)))
            (\<lambda>s. take_children children (pos + 1) (vals[child := None]) (shares @ [s])))"

fun recover_gate :: "leaf_entry list \<Rightarrow> network_share list \<Rightarrow> gate \<Rightarrow> bytes option list
      \<Rightarrow> (bytes option list, policy_error) outcome" where
  "recover_gate leaves recovered (Gate_Leaf response_index) vals =
     (if response_index \<ge> length leaves then None
      else Some (Ok (vals @ [map_option snd
             (find (\<lambda>(node, _). node = fst (leaves ! response_index)) recovered)])))"
| "recover_gate leaves recovered (Gate_Threshold required children) vals =
     run_then (take_children children 0 vals []) (\<lambda>(shares, vals').
       if length shares < required then Some (Ok (vals' @ [None]))
       else run_then (Some (map_err Sharing_error (reconstruct (word_of_nat required) shares)))
              (\<lambda>secret. Some (Ok (vals' @ [Some secret]))))"

fun recover_gates :: "leaf_entry list \<Rightarrow> network_share list \<Rightarrow> gate list \<Rightarrow> bytes option list
      \<Rightarrow> (bytes option list, policy_error) outcome" where
  "recover_gates leaves recovered [] vals = Some (Ok vals)"
| "recover_gates leaves recovered (gate # gates) vals =
     run_then (recover_gate leaves recovered gate vals) (recover_gates leaves recovered gates)"

definition recover_network :: "production_policy \<Rightarrow> network_share list \<Rightarrow> (bytes, policy_error) outcome" where
  "recover_network policy recovered =
     run_then (Some (plan_responses (policy_plan policy) (map (\<lambda>(i, _). i) recovered))) (\<lambda>_.
       run_then (recover_gates (plan_leaves (policy_plan policy)) recovered
                   (plan_gates (policy_plan policy)) []) (\<lambda>vals.
         Some (ok_or FactorsNotSatisfied (if vals = [] then None else last vals))))"

section \<open>Splitting follows the tree\<close>

fun tree_split :: "'r rng \<Rightarrow> network_node \<Rightarrow> bytes \<Rightarrow> 'r \<Rightarrow> (network_share list, policy_error) result \<times> 'r"
  and forest_split :: "'r rng \<Rightarrow> network_node list \<Rightarrow> share list \<Rightarrow> 'r
      \<Rightarrow> (network_share list, policy_error) result \<times> 'r" where
  "tree_split fill (Network_Leaf i p) secret r = (Ok [(i, secret)], r)"
| "tree_split fill (Network_Threshold i required children) secret r =
     (case split fill secret required (word_of_nat (length children)) r of
        (Err e, r') \<Rightarrow> (Err (Sharing_error e), r')
      | (Ok shares, r') \<Rightarrow> forest_split fill children shares r')"
| "forest_split fill (c # cs) (s # ss) r =
     (case tree_split fill c (share_value s) r of
        (Err e, r') \<Rightarrow> (Err e, r')
      | (Ok out, r') \<Rightarrow>
          (case forest_split fill cs ss r' of
             (Err e, r'') \<Rightarrow> (Err e, r'')
           | (Ok out', r'') \<Rightarrow> (Ok (out @ out'), r'')))"
| "forest_split fill _ _ r = (Ok [], r)"

lemma split_gate_layout:
  "fits node (plan_gates plan) (plan_leaves plan) g l fuel \<Longrightarrow>
     split_gate fuel fill plan (g + nodes node - 1) secret r leaves =
       Some (apfst (map_ok ((@) leaves)) (tree_split fill node secret r))"
  "fits_forest cs (plan_gates plan) (plan_leaves plan) g l fuel \<Longrightarrow>
     split_gates fuel fill plan (zip (child_roots cs g) shares) r leaves =
       Some (apfst (map_ok ((@) leaves)) (forest_split fill cs shares r))"
proof (induction fill node secret r and fill cs shares r
    arbitrary: g l fuel leaves and g l fuel leaves rule: tree_split_forest_split.induct)
  case (1 fill i p secret r)
  then show ?case by (cases fuel) (auto simp: fits_leaf)
next
  case (2 fill i required children secret r)
  from 2(2) obtain n where fuel: "fuel = Suc n" by (cases fuel) (auto simp: fits_threshold)
  show ?case
  proof (cases "split fill secret required (word_of_nat (length children)) r")
    case (Pair res r')
    then show ?thesis
      using 2(1) [OF Pair [symmetric]] 2(2) fuel by (cases res) (auto simp: fits_threshold)
  qed
next
  case (3 fill c cs s ss r)
  have child: "split_gate fuel fill plan (g + nodes c - 1) (share_value s) r leaves =
      Some (apfst (map_ok ((@) leaves)) (tree_split fill c (share_value s) r))"
    using 3(1,3) by (auto simp: fits_forest_Cons)
  show ?case
  proof (cases "tree_split fill c (share_value s) r")
    case (Pair res r')
    show ?thesis
    proof (cases res)
      case (Ok out)
      have "split_gates fuel fill plan (zip (child_roots cs (g + nodes c)) ss) r' (leaves @ out) =
          Some (apfst (map_ok ((@) (leaves @ out))) (forest_split fill cs ss r'))"
        using 3(2) [OF Pair [symmetric] Ok] 3(3) by (auto simp: fits_forest_Cons)
      then show ?thesis
        using child Pair Ok by (auto split: prod.splits result.splits)
    qed (use child Pair in auto)
  qed
qed (auto simp: neq_Nil_conv)

lemma height_le_nodes: "height node \<le> nodes node"
proof (induction node)
  case (Network_Threshold i r cs)
  have "foldr max (map height cs) 0 \<le> forest_size cs"
    unfolding foldr_max_le
  proof
    fix c assume c: "c \<in> set cs"
    then have "nodes c \<le> forest_size cs" by (intro member_le_sum_list) simp_all
    then show "height c \<le> forest_size cs" using Network_Threshold [OF c] by simp
  qed
  then show ?case by simp
qed simp

lemma split_network_tree:
  assumes "production_policy_new mode tpm network = Ok policy" "wf_node network"
  shows "split_network fill policy secret r = Some (tree_split fill network secret r)"
proof -
  note policy = new_policy [OF assms]
  have "fits network (layout network 0 0) (tree_leaves network) 0 0 (nodes network)"
    using policy(1) height_le_nodes [of network] by (simp add: fits_def admissible_def segment_all)
  moreover have "layout network 0 0 \<noteq> []"
    by (metis length_layout(1) list.size(3) nodes_nonzero)
  moreover have "apfst (map_ok ((@) [])) x = x" for x :: "(network_share list, policy_error) result \<times> 'a"
    by (cases x; cases "fst x") auto
  ultimately show ?thesis
    using split_gate_layout(1) [of network "policy_plan policy" 0 0 "nodes network" fill secret r "[]"]
    by (simp add: split_network_def Let_def policy(4,5))
qed

section \<open>Recovery follows the tree\<close>

text \<open>The shares a threshold gate collects: present values with their one-based position.\<close>

primrec numbered :: "nat \<Rightarrow> bytes option list \<Rightarrow> share list" where
  "numbered k [] = []"
| "numbered k (w # ws) = (case w of None \<Rightarrow> [] | Some v \<Rightarrow> [\<lparr>share_index = word_of_nat (k + 1), share_value = v\<rparr>])
     @ numbered (k + 1) ws"

fun tree_recover :: "(u8 \<Rightarrow> bytes option) \<Rightarrow> network_node \<Rightarrow> (bytes option, policy_error) result"
  and forest_recover :: "(u8 \<Rightarrow> bytes option) \<Rightarrow> network_node list \<Rightarrow> (bytes option list, policy_error) result" where
  "tree_recover look (Network_Leaf i p) = Ok (look i)"
| "tree_recover look (Network_Threshold i required children) =
     and_then (forest_recover look children) (\<lambda>ws.
       let shares = numbered 0 ws
       in if length shares < unat required then Ok None
          else map_ok Some (map_err Sharing_error (reconstruct required shares)))"
| "forest_recover look [] = Ok []"
| "forest_recover look (c # cs) =
     and_then (tree_recover look c) (\<lambda>w. map_ok ((#) w) (forest_recover look cs))"

definition looked_up :: "network_share list \<Rightarrow> u8 \<Rightarrow> bytes option" where
  "looked_up recovered i = map_option snd (find (\<lambda>(node, _). node = i) recovered)"

lemma recover_gates_append:
  "recover_gates leaves recovered (gates @ gates') vals =
     run_then (recover_gates leaves recovered gates vals) (recover_gates leaves recovered gates')"
proof (induction gates arbitrary: vals)
  case (Cons g gates)
  then have "recover_gates leaves recovered (gates @ gates') = (\<lambda>vals.
      run_then (recover_gates leaves recovered gates vals) (recover_gates leaves recovered gates'))"
    by blast
  then show ?case by (simp add: run_then_assoc)
qed simp

lemma from_parts_position: "k < 255 \<Longrightarrow> from_parts (word_of_nat (k + 1)) v = Ok \<lparr>share_index = word_of_nat (k + 1), share_value = v\<rparr>"
proof -
  assume "k < 255"
  then have "unat (word_of_nat (k + 1) :: u8) = k + 1"
    by (intro unat_u8_of_nat) simp
  then have "word_of_nat (k + 1) \<noteq> (0 :: u8)" by (metis Suc_eq_plus1 nat.distinct(1) unat_0)
  then show ?thesis by (simp add: from_parts_def)
qed

lemma take_children_spec:
  assumes "\<forall>c\<in>set cs. g \<le> c \<and> c < length vals" "distinct cs" "k + length cs \<le> 255"
  shows "\<exists>vals'. take_children cs k vals shares = Some (Ok (shares @ numbered k (map ((!) vals) cs), vals'))
    \<and> length vals' = length vals \<and> take g vals' = take g vals"
  using assms
proof (induction cs arbitrary: k vals shares)
  case (Cons c cs)
  show ?case
  proof (cases "vals ! c")
    case None
    then show ?thesis using Cons.IH [of vals "k + 1" shares] Cons.prems by simp
  next
    case (Some v)
    have same: "map ((!) (vals[c := None])) cs = map ((!) vals) cs"
      using Cons.prems(2) by (intro map_cong) (auto intro!: nth_list_update_neq)
    show ?thesis
      using Cons.IH [of "vals[c := None]" "k + 1" "shares @ [\<lparr>share_index = word_of_nat (k + 1), share_value = v\<rparr>]"]
        Cons.prems Some from_parts_position [of k v] same by (auto simp del: of_nat_Suc of_nat_add)
  qed
qed simp

lemma distinct_child_roots: "distinct (child_roots cs g)"
proof (induction cs arbitrary: g)
  case (Cons c cs)
  have "g + nodes c - 1 \<notin> set (child_roots cs (g + nodes c))"
    using child_roots_bound [of "g + nodes c - 1" cs "g + nodes c"] nodes_pos [of c]
    by (auto simp del: nodes_pos nodes_nonzero)
  then show ?case using Cons by simp
qed simp

lemma recover_layout:
  "length vals = g \<Longrightarrow> segment leaves l (tree_leaves node) \<Longrightarrow> nodes node \<le> 255 \<Longrightarrow>
     (case tree_recover (looked_up recovered) node of
        Err e \<Rightarrow> recover_gates leaves recovered (layout node g l) vals = Some (Err e)
      | Ok w \<Rightarrow> \<exists>vs. recover_gates leaves recovered (layout node g l) vals = Some (Ok (vals @ vs @ [w]))
                  \<and> length vs = nodes node - 1)"
  "length vals = g \<Longrightarrow> segment leaves l (forest_entries cs) \<Longrightarrow> forest_size cs \<le> 255 \<Longrightarrow>
     (case forest_recover (looked_up recovered) cs of
        Err e \<Rightarrow> recover_gates leaves recovered (layout_forest cs g l) vals = Some (Err e)
      | Ok ws \<Rightarrow> \<exists>vs. recover_gates leaves recovered (layout_forest cs g l) vals = Some (Ok (vals @ vs))
                   \<and> length vs = forest_size cs \<and> map ((!) (vals @ vs)) (child_roots cs g) = ws)"
proof (induction node g l and cs g l arbitrary: vals and vals rule: layout_layout_forest.induct)
  case (1 i p g l)
  then show ?case by (simp add: looked_up_def)
next
  case (2 i r cs g l)
  show ?case
  proof (cases "forest_recover (looked_up recovered) cs")
    case (Err e)
    then show ?thesis using 2 by (simp add: recover_gates_append)
  next
    case (Ok ws)
    then obtain vs where vs: "recover_gates leaves recovered (layout_forest cs g l) vals = Some (Ok (vals @ vs))"
        "length vs = forest_size cs" "map ((!) (vals @ vs)) (child_roots cs g) = ws"
      using 2 by (auto split: result.splits)
    have "\<forall>c\<in>set (child_roots cs g). g \<le> c \<and> c < length (vals @ vs)"
      using child_roots_bound vs(2) 2(2) by fastforce
    then obtain vals' where taken: "take_children (child_roots cs g) 0 (vals @ vs) [] = Some (Ok (numbered 0 ws, vals'))"
        "length vals' = length (vals @ vs)" "take g vals' = vals"
      using take_children_spec [of "child_roots cs g" g "vals @ vs" 0 "[]"] distinct_child_roots [of cs g]
        length_le_forest_size [of cs] 2(2,4) vs(3) by auto
    define vs' where "vs' = drop g vals'"
    have vals': "vals' = vals @ vs'" "length vs' = forest_size cs"
      using taken(2,3) 2(2) vs(2) by (auto simp: vs'_def)
    show ?thesis
      using Ok vs(1) taken(1) vals'
      by (cases "reconstruct r (numbered 0 ws)") (auto simp: recover_gates_append Let_def)
  qed
next
  case (3 g l)
  then show ?case by simp
next
  case (4 c cs g l)
  show ?case
  proof (cases "tree_recover (looked_up recovered) c")
    case (Err e)
    then show ?thesis using 4(1) [of vals] 4(3-) by (simp add: recover_gates_append segment_append)
  next
    case (Ok w)
    then obtain vs where vs: "recover_gates leaves recovered (layout c g l) vals = Some (Ok (vals @ vs @ [w]))"
        "length vs = nodes c - 1"
      using 4(1) [of vals] 4(3-) by (auto simp: segment_append)
    define mid where "mid = vals @ vs @ [w]"
    have mid: "length mid = g + nodes c"
      using 4(3) vs(2) nodes_pos [of c] by (simp add: mid_def del: nodes_pos nodes_nonzero)
    have root: "(mid @ ws) ! (g + nodes c - 1) = w" for ws
      using 4(3) vs(2) by (cases "nodes c") (simp_all add: mid_def nth_append)
    show ?thesis
    proof (cases "forest_recover (looked_up recovered) cs")
      case (Err e)
      then show ?thesis
        using Ok vs(1) 4(2) [OF mid] 4(3-) by (simp add: recover_gates_append segment_append flip: mid_def)
    next
      case (Ok ws)
      then obtain us where "recover_gates leaves recovered (layout_forest cs (g + nodes c) (l + length (tree_leaves c))) mid
            = Some (Ok (mid @ us))" "length us = forest_size cs"
          "map ((!) (mid @ us)) (child_roots cs (g + nodes c)) = ws"
        using 4(2) [OF mid] 4(3-) by (auto simp: segment_append)
      then show ?thesis
        using Ok \<open>tree_recover (looked_up recovered) c = Ok w\<close> vs mid root [of us] 4(3)
        by (simp add: recover_gates_append flip: mid_def)
           (intro exI [of _ "vs @ [w] @ us"], simp add: mid_def)
    qed
  qed
qed

lemma recover_network_tree:
  assumes "production_policy_new mode tpm network = Ok policy" "wf_node network"
    and "distinct (map fst recovered)" "fst ` set recovered \<subseteq> fst ` set (tree_leaves network)"
  shows "recover_network policy recovered =
    Some (and_then (tree_recover (looked_up recovered) network) (ok_or FactorsNotSatisfied))"
proof -
  note policy = new_policy [OF assms(1,2)]
  have ids: "map (\<lambda>(i, _). i) recovered = map fst recovered" by auto
  have "plan_responses (policy_plan policy) (map fst recovered) =
      Ok (map ((\<lambda>i. i \<in> set (map fst recovered)) \<circ> fst) (tree_leaves network))"
    using plan_responses_distinct [OF policy(3) assms(3)] assms(4) by (simp add: policy(5))
  moreover have "nodes network \<le> 255" using policy(1) by (simp add: admissible_def)
  ultimately show ?thesis
    using recover_layout(1) [of "[]" 0 "tree_leaves network" 0 network recovered]
    by (auto simp: recover_network_def ids policy(4,5) segment_all split: result.splits)
qed

section \<open>Round trip on the tree\<close>

lemma split_shares_nth:
  assumes "split fill secret t n r = (Ok shares, r')" "fills_buffer fill" "length secret = 32"
  shows "length shares = unat n" "\<And>k. k < length shares \<Longrightarrow> share_index (shares ! k) = word_of_nat (k + 1)"
    "\<And>s. s \<in> set shares \<Longrightarrow> length (share_value s) = 32" "distinct shares"
proof -
  obtain coeffs where shares: "shares = map (\<lambda>i. share_at secret coeffs (word_of_nat i)) [1..<unat n + 1]"
    using split_Ok(4) [OF assms] by blast
  then show "length shares = unat n" "\<And>k. k < length shares \<Longrightarrow> share_index (shares ! k) = word_of_nat (k + 1)"
    by (simp_all del: upt_Suc)
  show "\<And>s. s \<in> set shares \<Longrightarrow> length (share_value s) = 32"
    using shares assms(3) by auto
  have "unat n \<le> 31" using split_Ok(3) [OF assms] .
  then have "inj_on (\<lambda>i. share_at secret coeffs (word_of_nat i)) (set [1..<unat n + 1])"
  proof (intro inj_onI)
    fix i j
    assume i: "i \<in> set [1..<unat n + 1]" and j: "j \<in> set [1..<unat n + 1]"
      and eq: "share_at secret coeffs (word_of_nat i) = share_at secret coeffs (word_of_nat j)"
    have "unat (word_of_nat i :: u8) = unat (word_of_nat j :: u8)"
      using arg_cong [OF eq, of share_index] by simp
    moreover have "i < 256" "j < 256" using i j \<open>unat n \<le> 31\<close> by auto
    ultimately show "i = j" by (simp add: unat_u8_of_nat)
  qed
  then show "distinct shares"
    using shares by (simp add: distinct_map del: upt_Suc)
qed

lemma numbered_map2:
  assumes "length cs = length ss" "\<forall>j<length ss. share_index (ss ! j) = word_of_nat (k + j + 1)"
  shows "numbered k (map2 (\<lambda>c s. if P c then Some (share_value s) else None) cs ss) =
    map snd (filter (\<lambda>(c, s). P c) (zip cs (ss :: share list)))"
  using assms
proof (induction cs ss arbitrary: k rule: list_induct2)
  case (Cons c cs s ss)
  have "share_index s = word_of_nat (k + 1)" using Cons.prems by force
  moreover have "\<forall>j<length ss. share_index (ss ! j) = word_of_nat (k + 1 + j + 1)"
    using Cons.prems by force
  ultimately show ?case using Cons.IH [of "k + 1"] by simp
qed simp

lemma length_filter_zip: "length cs = length ss \<Longrightarrow>
    length (filter (\<lambda>(c, s). P c) (zip cs ss)) = length (filter P cs)"
  by (induction cs ss rule: list_induct2) auto

lemma distinct_filter_zip: "distinct ss \<Longrightarrow> distinct (map snd (filter P (zip cs ss)))"
proof (induction cs arbitrary: ss)
  case (Cons c cs)
  then show ?case by (cases ss) (auto dest: set_zip_rightD)
qed simp

lemma tree_split_ids:
  "tree_split fill node secret r = (Ok out, r') \<Longrightarrow> fills_buffer fill \<Longrightarrow> length secret = 32 \<Longrightarrow>
     nodes node \<le> 255 \<Longrightarrow> map fst out = map fst (tree_leaves node) \<and> (\<forall>e\<in>set out. length (snd e) = 32)"
  "forest_split fill cs shares r = (Ok out, r') \<Longrightarrow> fills_buffer fill \<Longrightarrow>
     \<forall>s\<in>set shares. length (share_value s) = 32 \<Longrightarrow> length shares = length cs \<Longrightarrow> forest_size cs \<le> 255 \<Longrightarrow>
     map fst out = map fst (forest_entries cs) \<and> (\<forall>e\<in>set out. length (snd e) = 32)"
proof (induction fill node secret r and fill cs shares r arbitrary: out r' and out r'
    rule: tree_split_forest_split.induct)
  case (2 fill i required children secret r)
  then obtain shares r1 where sp: "split fill secret required (word_of_nat (length children)) r = (Ok shares, r1)"
    by (auto split: prod.splits result.splits)
  have "length shares = length children"
    using split_shares_nth(1) [OF sp 2(3,4)] length_le_forest_size [of children] 2(5)
    by (simp add: unat_u8_of_nat)
  then show ?case
    using 2(1) [OF sp [symmetric] refl] 2(2-) sp split_shares_nth(3) [OF sp 2(3,4)] by simp
next
  case (3 fill c cs s ss r)
  then show ?case by (fastforce split: prod.splits result.splits)
qed auto

lemma tree_round_trip:
  "tree_split fill node secret r = (Ok out, r') \<Longrightarrow> fills_buffer fill \<Longrightarrow> length secret = 32 \<Longrightarrow>
     nodes node \<le> 255 \<Longrightarrow> thresholds_valid node \<Longrightarrow>
     \<forall>(i, v)\<in>set out. look i = (if A i then Some v else None) \<Longrightarrow>
     tree_recover look node = Ok (if satisfied A node then Some secret else None)"
  "forest_split fill cs shares r = (Ok out, r') \<Longrightarrow> fills_buffer fill \<Longrightarrow>
     \<forall>s\<in>set shares. length (share_value s) = 32 \<Longrightarrow> length shares = length cs \<Longrightarrow> forest_size cs \<le> 255 \<Longrightarrow>
     \<forall>c\<in>set cs. thresholds_valid c \<Longrightarrow>
     \<forall>(i, v)\<in>set out. look i = (if A i then Some v else None) \<Longrightarrow>
     forest_recover look cs = Ok (map2 (\<lambda>c s. if satisfied A c then Some (share_value s) else None) cs shares)"
proof (induction fill node secret r and fill cs shares r arbitrary: out r' and out r'
    rule: tree_split_forest_split.induct)
  case (2 fill i required children secret r)
  then obtain shares r1 where sp: "split fill secret required (word_of_nat (length children)) r = (Ok shares, r1)"
    by (auto split: prod.splits result.splits)
  note shares = split_shares_nth [OF sp 2(3,4)]
  have len: "length shares = length children"
    using shares(1) length_le_forest_size [of children] 2(5) by (simp add: unat_u8_of_nat)
  have forest: "forest_recover look children =
      Ok (map2 (\<lambda>c s. if satisfied A c then Some (share_value s) else None) children shares)"
    using 2(1) [OF sp [symmetric] refl] 2(2-) sp len shares(3) by simp
  let ?chosen = "map snd (filter (\<lambda>(c, s). satisfied A c) (zip children shares))"
  have chosen: "numbered 0 (map2 (\<lambda>c s. if satisfied A c then Some (share_value s) else None) children shares) = ?chosen"
    using numbered_map2 [of children shares 0 "satisfied A"] len shares(2) by simp
  have count: "length ?chosen = length (filter id (map (satisfied A) children))"
    using length_filter_zip [of children shares "satisfied A"] len by (simp add: filter_map comp_def)
  have "unat required \<le> length ?chosen \<Longrightarrow> reconstruct required ?chosen = Ok secret"
  proof (rule reconstruct_split [OF sp 2(3,4)])
    show "set ?chosen \<subseteq> set shares" by (auto dest: set_zip_rightD)
  qed (auto intro: distinct_filter_zip shares(4))
  then show ?case
    using forest chosen count by (auto simp: Let_def)
next
  case (3 fill c cs s ss r)
  then show ?case by (fastforce split: prod.splits result.splits)
qed auto

lemma tree_split_available:
  "\<lbrakk>\<And>r n. fst (fill r n) \<noteq> None; fills_buffer fill; length secret = 32; nodes node \<le> 31;
    thresholds_valid node\<rbrakk> \<Longrightarrow> \<exists>out r'. tree_split fill node secret r = (Ok out, r')"
  "\<lbrakk>\<And>r n. fst (fill r n) \<noteq> None; fills_buffer fill; \<forall>s\<in>set shares. length (share_value s) = 32;
    forest_size cs \<le> 31; \<forall>c\<in>set cs. thresholds_valid c\<rbrakk> \<Longrightarrow>
    \<exists>out r'. forest_split fill cs shares r = (Ok out, r')"
proof (induction fill node secret r and fill cs shares r rule: tree_split_forest_split.induct)
  case (2 fill i required children secret r)
  have n: "length children \<le> 31" using 2(5) length_le_forest_size [of children] by simp
  have "required \<le> word_of_nat (length children)" "word_of_nat (length children) \<le> (31 :: u8)"
    using 2(6) n by (simp_all add: word_le_nat_alt unat_u8_of_nat)
  then obtain shares r1 where sp: "split fill secret required (word_of_nat (length children)) r = (Ok shares, r1)"
    using split_available [of fill required "word_of_nat (length children)" secret r, OF 2(2)] 2(6) by auto
  show ?case
    using 2(1) [OF sp [symmetric] refl 2(2,3)] 2(5,6) sp split_shares_nth(3) [OF sp 2(3,4)] by simp
next
  case (3 fill c cs s ss r)
  then obtain out r1 where c: "tree_split fill c (share_value s) r = (Ok out, r1)" by fastforce
  then show ?case
    using 3(2) [OF c [symmetric] refl 3(3,4)] 3(5-) by auto
qed auto

lemma looked_up_subset:
  assumes "distinct (map fst shares)" "set recovered \<subseteq> set shares" "(i, v) \<in> set shares"
  shows "looked_up recovered i = (if i \<in> fst ` set recovered then Some v else None)"
proof (cases "find (\<lambda>(node, _). node = i) recovered")
  case None
  then show ?thesis by (force simp: looked_up_def find_None_iff)
next
  case (Some e)
  then have e: "e \<in> set recovered" "fst e = i" by (auto simp: find_Some_iff in_set_conv_nth)
  then have "e \<in> set shares" using assms(2) by auto
  then have "e = (i, v)"
    using assms(1,3) e(2) by (metis distinct_map fst_conv inj_on_eq_iff)
  then show ?thesis using Some e by (force simp: looked_up_def)
qed

lemma recover_split:
  assumes "wf_node network" "production_policy_new mode tpm network = Ok policy"
    and "fills_buffer fill" "length secret = 32"
    and "split_network fill policy secret r = Some (Ok shares, r')"
    and "set recovered \<subseteq> set shares" "distinct recovered"
  shows "recover_network policy recovered =
    Some (if satisfied (\<lambda>i. i \<in> fst ` set recovered) network then Ok secret else Err FactorsNotSatisfied)"
proof -
  note policy = new_policy [OF assms(2,1)]
  have small: "nodes network \<le> 255" "thresholds_valid network"
    using policy(1) by (simp_all add: admissible_def)
  have out: "tree_split fill network secret r = (Ok shares, r')"
    using assms(5) by (simp add: split_network_tree [OF assms(2,1)])
  have ids: "map fst shares = map fst (tree_leaves network)"
    using tree_split_ids(1) [OF out assms(3,4) small(1)] by simp
  then have dist: "distinct (map fst shares)" using policy(3,5) by simp
  then have "distinct (map fst recovered)"
    using assms(6,7) by (auto simp: distinct_map intro: inj_on_subset)
  moreover have "fst ` set recovered \<subseteq> fst ` set (tree_leaves network)"
    using assms(6) arg_cong [OF ids, of set] by auto
  moreover have "tree_recover (looked_up recovered) network =
      Ok (if satisfied (\<lambda>i. i \<in> fst ` set recovered) network then Some secret else None)"
    by (rule tree_round_trip(1) [OF out assms(3,4) small])
       (clarify, rule looked_up_subset [OF dist assms(6)])
  ultimately show ?thesis
    using recover_network_tree [OF assms(2,1)] by auto
qed

lemma split_network_available:
  assumes "wf_node network" "production_policy_new mode tpm network = Ok policy"
    and "fills_buffer fill" "\<And>r n. fst (fill r n) \<noteq> None" "length secret = 32"
  shows "\<exists>shares r'. split_network fill policy secret r = Some (Ok shares, r')
    \<and> map fst shares = network_leaf_ids policy \<and> (\<forall>e\<in>set shares. length (snd e) = 32)"
proof -
  note policy = new_policy [OF assms(2,1)]
  have small: "nodes network \<le> 255" "nodes network \<le> 31" "thresholds_valid network"
    using policy(1) by (simp_all add: admissible_def)
  obtain shares r' where out: "tree_split fill network secret r = (Ok shares, r')"
    using tree_split_available(1) [of fill secret network r, OF assms(4,3,5) small(2,3)] by blast
  have "network_leaf_ids policy = map fst (tree_leaves network)"
    by (simp add: network_leaf_ids_def policy(5) fst_def)
  then show ?thesis
    using out tree_split_ids(1) [OF out assms(3,5) small(1)]
    by (simp add: split_network_tree [OF assms(2,1)])
qed

lemma recover_network_returns:
  assumes "wf_node network" "production_policy_new mode tpm network = Ok policy"
  shows "recover_network policy recovered \<noteq> None"
proof (cases "plan_responses (policy_plan policy) (map (\<lambda>(i, _). i) recovered)")
  case (Ok responses)
  note policy = new_policy [OF assms(2,1)]
  have "map (\<lambda>(i, _). i) recovered = map fst recovered" by auto
  with Ok have "plan_responses (policy_plan policy) (map fst recovered) = Ok responses" by (simp only:)
  then have "distinct (map fst recovered)" "fst ` set recovered \<subseteq> fst ` set (tree_leaves network)"
    by (auto simp: plan_responses_Ok_iff [OF policy(3)] policy(5))
  then show ?thesis
    using recover_network_tree [OF assms(2,1)] by simp
qed (simp add: recover_network_def)

section \<open>Properties\<close>

text \<open>C12. Splitting a network secret over an admitted policy and recovering it from any selection of the
  leaf shares gives back exactly the secret when the answering leaves satisfy the source tree, and
  \<open>FactorsNotSatisfied\<close> when they do not; no panic and no sharing error occurs.\<close>

theorem network_secret_round_trip:
  assumes "wf_node network" "production_policy_new mode tpm network = Ok policy"
    and "fills_buffer fill" "length secret = 32"
    and "split_network fill policy secret r = Some (Ok shares, r')"
    and "set recovered \<subseteq> set shares" "distinct recovered"
  shows "recover_network policy recovered =
    Some (if satisfied (\<lambda>i. i \<in> fst ` set recovered) network then Ok secret else Err FactorsNotSatisfied)"
  using assms by (rule recover_split)

lemma example_policy: "production_policy_new Attested 1 example_node = Ok (admitted Attested 1 example_node)"
  by (subst production_policy_new_iff) (simp_all add: admissible_def)

theorem network_secret_round_trip_witness:
  "\<exists>shares r'. split_network zero_fill (admitted Attested 1 example_node) (replicate 32 7) () = Some (Ok shares, r')
     \<and> recover_network (admitted Attested 1 example_node) shares = Some (Ok (replicate 32 7))
     \<and> recover_network (admitted Attested 1 example_node) [] = Some (Err FactorsNotSatisfied)"
proof -
  have ex: "nodes example_node \<le> 255" "nodes example_node \<le> 31" "thresholds_valid example_node"
    by simp_all
  obtain shares r' where out: "tree_split zero_fill example_node (replicate 32 7) () = (Ok shares, r')"
    using tree_split_available(1) [OF zero_fill_ok(2,1) _ ex(2,3)] by force
  have sp: "split_network zero_fill (admitted Attested 1 example_node) (replicate 32 7) () = Some (Ok shares, r')"
    using out by (subst split_network_tree [OF example_policy]) (simp_all del: tree_split.simps)
  have ids: "map fst shares = [4, 5, 6]"
    using tree_split_ids(1) [OF out zero_fill_ok(1) _ ex(1)] by simp
  then have "distinct (map fst shares)" "set (map fst shares) = {4, 5, 6}" by simp_all
  then have "distinct shares" "fst ` set shares = {4, 5, 6}" by (simp_all add: distinct_map)
  then show ?thesis
    using network_secret_round_trip [OF _ example_policy zero_fill_ok(1) _ sp, of shares]
      network_secret_round_trip [OF _ example_policy zero_fill_ok(1) _ sp, of "[]"] sp
    by simp
qed

text \<open>Splitting over an admitted policy always succeeds when the generator is available: it returns
  one full-length share for each leaf, in the leaf order of the policy.\<close>

theorem split_network_succeeds:
  assumes "wf_node network" "production_policy_new mode tpm network = Ok policy"
    and "fills_buffer fill" "\<And>r n. fst (fill r n) \<noteq> None" "length secret = 32"
  shows "\<exists>shares r'. split_network fill policy secret r = Some (Ok shares, r')
    \<and> map fst shares = network_leaf_ids policy \<and> (\<forall>e\<in>set shares. length (snd e) = 32)"
  using assms by (rule split_network_available)

text \<open>Recovery over an admitted policy never panics, whatever leaves are supplied: it returns a
  candidate or an error for every list of ids and values.\<close>

theorem recover_network_total:
  assumes "wf_node network" "production_policy_new mode tpm network = Ok policy"
  shows "recover_network policy recovered \<noteq> None"
  using assms by (rule recover_network_returns)

end
