(* ===== verification/Release_Machine.thy ===== *)
theory Release_Machine
  imports Leelo_Prelude
begin

text \<open>
  The interface of a one-time release: a state machine whose steps give an outcome, a predicate that
  says which outcomes hand out the secret, and a predicate on states that says the release is spent.
  The policy session and the engine's release gate are both instances. Runs are explicit lists of
  events paired with their outcomes, oldest first.
\<close>

primrec run_steps :: "('s \<Rightarrow> 'e \<Rightarrow> 'o \<times> 's) \<Rightarrow> 's \<Rightarrow> 'e list \<Rightarrow> ('e \<times> 'o) list \<times> 's" where
  "run_steps step s [] = ([], s)"
| "run_steps step s (e # es) =
     (case step s e of (out, s') \<Rightarrow>
        case run_steps step s' es of (log, s'') \<Rightarrow> ((e, out) # log, s''))"

lemma run_steps_append:
  "run_steps step s (es @ es') =
     (case run_steps step s es of (log, s') \<Rightarrow>
        case run_steps step s' es' of (log', s'') \<Rightarrow> (log @ log', s''))"
  by (induction es arbitrary: s) (auto split: prod.splits)

lemma run_steps_ConsE:
  assumes "run_steps step s es = (p # log, t)"
  obtains e es' s' where "es = e # es'" "step s e = (snd p, s')" "p = (e, snd p)" "run_steps step s' es' = (log, t)"
  using assms by (cases es) (auto split: prod.splits)

lemma run_steps_prefix:
  assumes "run_steps step s es = (before @ (e, out) # after, t)"
  shows "\<exists>es1 es2 s1 s2. es = es1 @ e # es2 \<and> run_steps step s es1 = (before, s1) \<and> step s1 e = (out, s2)"
  using assms
proof (induction before arbitrary: s es)
  case Nil
  then show ?case by (force elim: run_steps_ConsE)
next
  case (Cons p before)
  then obtain e1 es' s' where first: "es = e1 # es'" "step s e1 = (snd p, s')" "p = (e1, snd p)"
      and rest: "run_steps step s' es' = (before @ (e, out) # after, t)"
    by (auto elim: run_steps_ConsE)
  obtain es1 es2 s1 s2 where "es' = es1 @ e # es2" "run_steps step s' es1 = (before, s1)" "step s1 e = (out, s2)"
    using Cons.IH [OF rest] by blast
  moreover from this have "es = (e1 # es1) @ e # es2" "run_steps step s (e1 # es1) = (p # before, s1)"
    using first by auto
  ultimately show ?case by blast
qed

lemma run_steps_calls: "run_steps step s es = (log, t) \<Longrightarrow> map fst log = es"
  by (induction es arbitrary: s log) (auto split: prod.splits)

text \<open>An invariant over the log and the state that every step keeps holds after every run.\<close>

lemma run_steps_invariant:
  assumes "run_steps step s es = (log, t)" "I [] s"
    and "\<And>log s e out s'. I log s \<Longrightarrow> step s e = (out, s') \<Longrightarrow> I (log @ [(e, out)]) s'"
  shows "I log t"
  using assms(1)
proof (induction es arbitrary: log t rule: rev_induct)
  case (snoc e es)
  then show ?case using assms(3) by (fastforce simp: run_steps_append split: prod.splits)
qed (use assms(2) in simp)

locale release_machine =
  fixes step :: "'s \<Rightarrow> 'e \<Rightarrow> 'o \<times> 's"
    and grants :: "'e \<Rightarrow> 'o \<Rightarrow> bool"
    and spent :: "'s \<Rightarrow> bool"
  assumes grant_spends: "step s e = (out, s') \<Longrightarrow> grants e out \<Longrightarrow> \<not> spent s \<and> spent s'"
    and spent_stays: "spent s \<Longrightarrow> step s e = (out, s') \<Longrightarrow> spent s'"
begin

lemma no_grant_after:
  "spent s \<Longrightarrow> run_steps step s es = (log, t) \<Longrightarrow> filter (\<lambda>(e, out). grants e out) log = []"
proof (induction es arbitrary: s log)
  case (Cons e es)
  then obtain out s' log' where "step s e = (out, s')" "run_steps step s' es = (log', t)"
      "log = (e, out) # log'"
    by (auto split: prod.splits)
  then show ?case using Cons.IH [of s' log'] Cons.prems(1) grant_spends spent_stays by auto
qed simp

lemma at_most_one_grant:
  "run_steps step s es = (log, t) \<Longrightarrow> length (filter (\<lambda>(e, out). grants e out) log) \<le> 1"
proof (induction es arbitrary: s log)
  case (Cons e es)
  then obtain out s' log' where "step s e = (out, s')" "run_steps step s' es = (log', t)"
      "log = (e, out) # log'"
    by (auto split: prod.splits)
  then show ?case using Cons.IH [of s' log'] no_grant_after [of s' es log'] grant_spends by auto
qed simp

end

end
