(* ===== verification/Policy_Session.thy ===== *)
theory Policy_Session
  imports Policy_Sharing Release_Machine
begin

text \<open>
  The decision session of crates/leelo-policy/src/lib.rs (\<open>PolicySession\<close>). Every \<open>&mut self\<close> method is a
  function that returns its result and the session after the call. A run of the session is any list
  of calls in any order; \<open>session_step\<close> dispatches them.
\<close>

section \<open>Operations\<close>

record policy_session =
  session_require_live :: bool
  session_plan :: network_plan
  session_responses :: "bool list"
  session_state :: release_state

definition session_new :: "production_policy \<Rightarrow> policy_session" where
  "session_new policy =
     \<lparr>session_require_live = (policy_mode policy = Attested),
      session_plan = policy_plan policy,
      session_responses = replicate (length (plan_leaves (policy_plan policy))) False,
      session_state =
        \<lparr>envelope_authenticated = False, tpm_authenticated = False, network_satisfied_flag = False,
         live_authorized = False, root_authenticated = False, released = False\<rparr>\<rparr>"

definition session_authenticate_envelope ::
  "policy_session \<Rightarrow> (unit, policy_error) result \<times> policy_session" where
  "session_authenticate_envelope s =
     (if released (session_state s) then (Err AlreadyReleased, s)
      else (Ok (), s\<lparr>session_state := (session_state s)\<lparr>envelope_authenticated := True\<rparr>\<rparr>))"

definition require_authenticated :: "policy_session \<Rightarrow> (unit, policy_error) result" where
  "require_authenticated s =
     (if released (session_state s) then Err AlreadyReleased
      else if \<not> envelope_authenticated (session_state s) then Err EnvelopeNotAuthenticated
      else Ok ())"

definition accept_network ::
  "u8 \<Rightarrow> policy_session \<Rightarrow> (unit, policy_error) result \<times> policy_session" where
  "accept_network i s =
     (case and_then (require_authenticated s) (\<lambda>_.
        ok_or (UnknownNetworkLeaf i) (position (\<lambda>(leaf, _). leaf = i) (plan_leaves (session_plan s)))) of
        Err e \<Rightarrow> (Err e, s)
      | Ok index \<Rightarrow>
          (case record_response (session_responses s) index of
             (accepted, responses) \<Rightarrow>
               if \<not> accepted then (Err (DuplicateResponse i), s\<lparr>session_responses := responses\<rparr>)
               else (Ok (), s\<lparr>session_responses := responses,
                       session_state := (session_state s)\<lparr>network_satisfied_flag :=
                         evaluate_network (plan_gates (session_plan s)) responses\<rparr>\<rparr>)))"

definition confirm_tpm :: "policy_session \<Rightarrow> (unit, policy_error) result \<times> policy_session" where
  "confirm_tpm s =
     (case require_authenticated s of
        Err e \<Rightarrow> (Err e, s)
      | Ok _ \<Rightarrow> (Ok (), s\<lparr>session_state := (session_state s)\<lparr>tpm_authenticated := True\<rparr>\<rparr>))"

definition confirm_live_authorization ::
  "policy_session \<Rightarrow> (unit, policy_error) result \<times> policy_session" where
  "confirm_live_authorization s =
     (case require_authenticated s of
        Err e \<Rightarrow> (Err e, s)
      | Ok _ \<Rightarrow> (Ok (), s\<lparr>session_state := (session_state s)\<lparr>live_authorized := True\<rparr>\<rparr>))"

definition can_reconstruct :: "policy_session \<Rightarrow> bool" where
  "can_reconstruct s \<longleftrightarrow>
     envelope_authenticated (session_state s) \<and> tpm_authenticated (session_state s)
     \<and> network_satisfied_flag (session_state s)
     \<and> (\<not> session_require_live s \<or> live_authorized (session_state s))
     \<and> \<not> released (session_state s)"

definition session_authenticate_root ::
  "policy_session \<Rightarrow> (unit, policy_error) result \<times> policy_session" where
  "session_authenticate_root s =
     (case require_authenticated s of
        Err e \<Rightarrow> (Err e, s)
      | Ok _ \<Rightarrow>
          if \<not> can_reconstruct s then (Err FactorsNotSatisfied, s)
          else (Ok (), s\<lparr>session_state := (session_state s)\<lparr>root_authenticated := True\<rparr>\<rparr>))"

definition session_can_release :: "policy_session \<Rightarrow> bool" where
  "session_can_release s = can_release (session_state s) (session_require_live s)"

definition session_release :: "policy_session \<Rightarrow> (unit, policy_error) result \<times> policy_session" where
  "session_release s =
     (case require_authenticated s of
        Err e \<Rightarrow> (Err e, s)
      | Ok _ \<Rightarrow>
          if \<not> can_reconstruct s then (Err FactorsNotSatisfied, s)
          else if \<not> root_authenticated (session_state s) then (Err RootNotAuthenticated, s)
          else (case try_release (session_state s) (session_require_live s) of
                  (allowed, state) \<Rightarrow>
                    (if allowed then Ok () else Err AlreadyReleased, s\<lparr>session_state := state\<rparr>)))"

datatype session_call =
    Authenticate_Envelope | Accept_Network u8 | Confirm_Tpm | Confirm_Live
  | Authenticate_Root | Release_Session

fun session_step :: "policy_session \<Rightarrow> session_call \<Rightarrow> (unit, policy_error) result \<times> policy_session" where
  "session_step s Authenticate_Envelope = session_authenticate_envelope s"
| "session_step s (Accept_Network i) = accept_network i s"
| "session_step s Confirm_Tpm = confirm_tpm s"
| "session_step s Confirm_Live = confirm_live_authorization s"
| "session_step s Authenticate_Root = session_authenticate_root s"
| "session_step s Release_Session = session_release s"

lemmas session_defs =
  session_authenticate_envelope_def require_authenticated_def accept_network_def confirm_tpm_def
  confirm_live_authorization_def can_reconstruct_def session_authenticate_root_def session_release_def

section \<open>One release\<close>

definition session_grants :: "session_call \<Rightarrow> (unit, policy_error) result \<Rightarrow> bool" where
  "session_grants call out \<longleftrightarrow> call = Release_Session \<and> out = Ok ()"

interpretation session: release_machine session_step session_grants "\<lambda>s. released (session_state s)"
proof
  show "\<not> released (session_state s) \<and> released (session_state s')"
    if "session_step s e = (out, s')" "session_grants e out" for s e out s'
    using that
    by (auto simp: session_grants_def session_release_def require_authenticated_def can_reconstruct_def
        try_release_def split: if_splits result.splits)
  show "released (session_state s')"
    if "released (session_state s)" "session_step s e = (out, s')" for s e out s'
    using that by (cases e) (auto simp: session_defs)
qed

section \<open>What a session has seen\<close>

text \<open>\<open>seen policy log s\<close>: every flag of the session is backed by a successful call of the log, and the
  response vector is the set of accepted leaves.\<close>

definition accepted_leaf :: "(session_call \<times> (unit, policy_error) result) list \<Rightarrow> u8 \<Rightarrow> bool" where
  "accepted_leaf log i \<longleftrightarrow> (Accept_Network i, Ok ()) \<in> set log"

definition factors_seen :: "production_policy \<Rightarrow> (session_call \<times> (unit, policy_error) result) list \<Rightarrow> bool" where
  "factors_seen policy log \<longleftrightarrow>
     (Authenticate_Envelope, Ok ()) \<in> set log \<and> (Confirm_Tpm, Ok ()) \<in> set log
     \<and> satisfied (accepted_leaf log) (policy_network policy)
     \<and> (policy_mode policy = Attested \<longrightarrow> (Confirm_Live, Ok ()) \<in> set log)"

definition seen :: "production_policy \<Rightarrow> (session_call \<times> (unit, policy_error) result) list \<Rightarrow> policy_session \<Rightarrow> bool" where
  "seen policy log s \<longleftrightarrow>
     session_plan s = policy_plan policy \<and> session_require_live s = (policy_mode policy = Attested)
     \<and> session_responses s = map (accepted_leaf log \<circ> fst) (plan_leaves (policy_plan policy))
     \<and> (envelope_authenticated (session_state s) \<longrightarrow> (Authenticate_Envelope, Ok ()) \<in> set log)
     \<and> (tpm_authenticated (session_state s) \<longrightarrow> (Confirm_Tpm, Ok ()) \<in> set log)
     \<and> (live_authorized (session_state s) \<longrightarrow> (Confirm_Live, Ok ()) \<in> set log)
     \<and> (root_authenticated (session_state s) \<longrightarrow> (Authenticate_Root, Ok ()) \<in> set log)
     \<and> (network_satisfied_flag (session_state s) \<longrightarrow> satisfied (accepted_leaf log) (policy_network policy))"

lemma accepted_leaf_snoc:
  "accepted_leaf (log @ [(call, out)]) =
     (if out = Ok () then (case call of Accept_Network i \<Rightarrow> (accepted_leaf log)(i := True) | _ \<Rightarrow> accepted_leaf log)
      else accepted_leaf log)"
  by (auto simp: accepted_leaf_def fun_eq_iff split: session_call.splits)

lemma accept_network_cases:
  assumes "distinct (map fst leaves)" "plan_leaves (session_plan s) = leaves"
    and "session_responses s = map (A \<circ> fst) leaves"
  shows "accept_network i s =
    (if released (session_state s) then (Err AlreadyReleased, s)
     else if \<not> envelope_authenticated (session_state s) then (Err EnvelopeNotAuthenticated, s)
     else if i \<notin> fst ` set leaves then (Err (UnknownNetworkLeaf i), s)
     else if A i then (Err (DuplicateResponse i), s)
     else (Ok (), s\<lparr>session_responses := map (A(i := True) \<circ> fst) leaves,
             session_state := (session_state s)\<lparr>network_satisfied_flag :=
               evaluate_network (plan_gates (session_plan s)) (map (A(i := True) \<circ> fst) leaves)\<rparr>\<rparr>))"
proof (cases "i \<in> fst ` set leaves")
  case True
  then obtain k where "k < length leaves" "fst (leaves ! k) = i" by (auto simp: in_set_conv_nth)
  then show ?thesis
    using True assms position_leaf [OF assms(1)] record_response_leaf [OF assms(1), of k i A]
    by (simp add: accept_network_def require_authenticated_def)
next
  case False
  then have "position (\<lambda>(leaf, _). leaf = i) leaves = None" by (force simp: position_None_iff)
  then show ?thesis
    using False assms by (simp add: accept_network_def require_authenticated_def)
qed

lemma seen_new:
  "seen policy [] (session_new policy)"
  by (auto simp: seen_def session_new_def accepted_leaf_def comp_def map_replicate_const)

lemma seen_error: "seen policy log s \<Longrightarrow> out \<noteq> Ok () \<Longrightarrow> seen policy (log @ [(call, out)]) s"
  by (simp add: seen_def accepted_leaf_snoc)

lemma step_outcome:
  assumes "session_step s call = (out, s')" "call \<noteq> Release_Session"
  shows "out = Ok () \<or> s' = s"
proof (cases call)
  case (Accept_Network i)
  then show ?thesis
    using assms(1)
    by (auto simp: accept_network_def record_response_def split: if_splits result.splits prod.splits)
qed (use assms in \<open>auto simp: session_defs split: if_splits result.splits\<close>)

lemma release_outcome:
  assumes "session_step s Release_Session = (out, s')"
  shows "s' = s \<or> s' = s\<lparr>session_state := (session_state s)\<lparr>released := True\<rparr>\<rparr>"
  using assms
  by (auto simp: session_release_def try_release_def split: if_splits result.splits)

lemma seen_release:
  "seen policy log s \<Longrightarrow> seen policy (log @ [(Release_Session, out)]) s"
  "seen policy log s \<Longrightarrow>
     seen policy (log @ [(Release_Session, out)]) (s\<lparr>session_state := (session_state s)\<lparr>released := True\<rparr>\<rparr>)"
  by (simp_all add: seen_def accepted_leaf_snoc)

lemma seen_accept:
  assumes policy: "production_policy_new mode tpm network = Ok policy" "wf_node network"
    and "seen policy log s" "accept_network i s = (Ok (), s')"
  shows "seen policy (log @ [(Accept_Network i, Ok ())]) s'"
proof -
  note facts = new_policy [OF policy]
  let ?A = "(accepted_leaf log)(i := True)"
  let ?responses = "map (?A \<circ> fst) (plan_leaves (policy_plan policy))"
  have plan: "session_plan s = policy_plan policy"
      "session_responses s = map (accepted_leaf log \<circ> fst) (plan_leaves (policy_plan policy))"
    using assms(3) by (simp_all add: seen_def)
  have "s' = s\<lparr>session_responses := ?responses,
      session_state := (session_state s)\<lparr>network_satisfied_flag :=
        evaluate_network (plan_gates (policy_plan policy)) ?responses\<rparr>\<rparr>"
    using assms(4) accept_network_cases [OF facts(3), of s "accepted_leaf log" i] plan
    by (simp del: fun_upd_apply split: if_splits)
  moreover have "evaluate_network (plan_gates (policy_plan policy)) ?responses
      = satisfied ?A (policy_network policy)"
    using evaluate_network_admitted [OF facts(1), of ?A] facts(2)
    by (simp add: facts(4,5) admitted_def del: fun_upd_apply)
  moreover have "accepted_leaf (log @ [(Accept_Network i, Ok ())]) = ?A"
    by (simp add: accepted_leaf_snoc)
  ultimately show ?thesis
    using assms(3) by (simp add: seen_def del: fun_upd_apply)
qed

text \<open>The four calls that set one flag.\<close>

lemma flag_outcome:
  "session_step s Authenticate_Envelope = (Ok (), s') \<Longrightarrow>
     s' = s\<lparr>session_state := (session_state s)\<lparr>envelope_authenticated := True\<rparr>\<rparr>"
  "session_step s Confirm_Tpm = (Ok (), s') \<Longrightarrow>
     s' = s\<lparr>session_state := (session_state s)\<lparr>tpm_authenticated := True\<rparr>\<rparr>"
  "session_step s Confirm_Live = (Ok (), s') \<Longrightarrow>
     s' = s\<lparr>session_state := (session_state s)\<lparr>live_authorized := True\<rparr>\<rparr>"
  "session_step s Authenticate_Root = (Ok (), s') \<Longrightarrow>
     s' = s\<lparr>session_state := (session_state s)\<lparr>root_authenticated := True\<rparr>\<rparr>"
  by (auto simp: session_defs split: if_splits result.splits)

lemma seen_flag:
  assumes "seen policy log s"
  shows "seen policy (log @ [(Authenticate_Envelope, Ok ())])
      (s\<lparr>session_state := (session_state s)\<lparr>envelope_authenticated := True\<rparr>\<rparr>)"
    "seen policy (log @ [(Confirm_Tpm, Ok ())]) (s\<lparr>session_state := (session_state s)\<lparr>tpm_authenticated := True\<rparr>\<rparr>)"
    "seen policy (log @ [(Confirm_Live, Ok ())]) (s\<lparr>session_state := (session_state s)\<lparr>live_authorized := True\<rparr>\<rparr>)"
    "seen policy (log @ [(Authenticate_Root, Ok ())]) (s\<lparr>session_state := (session_state s)\<lparr>root_authenticated := True\<rparr>\<rparr>)"
  using assms by (simp_all add: seen_def accepted_leaf_snoc)

lemma seen_step:
  assumes "production_policy_new mode tpm network = Ok policy" "wf_node network"
    and "seen policy log s" "session_step s call = (out, s')"
  shows "seen policy (log @ [(call, out)]) s'"
proof (cases "call = Release_Session")
  case True
  then show ?thesis
    using release_outcome [of s out s'] seen_release [OF assms(3), of out] assms(4) by auto
next
  case False
  show ?thesis
  proof (cases "out = Ok ()")
    case True
    with assms(4) have step: "session_step s call = (Ok (), s')" by simp
    show ?thesis
    proof (cases call)
      case (Accept_Network i)
      then show ?thesis using seen_accept [OF assms(1-3)] step True by simp
    qed (use step True False seen_flag [OF assms(3)] in \<open>auto dest: flag_outcome simp del: session_step.simps\<close>)
  next
    case error: False
    then show ?thesis using step_outcome [OF assms(4) False] seen_error [OF assms(3)] by simp
  qed
qed

lemma seen_run:
  assumes "production_policy_new mode tpm network = Ok policy" "wf_node network"
    and "run_steps session_step (session_new policy) calls = (log, s)"
  shows "seen policy log s"
  using run_steps_invariant [where I = "seen policy", OF assms(3) seen_new] seen_step [OF assms(1,2)] by blast

lemma seen_can_reconstruct: "seen policy log s \<Longrightarrow> can_reconstruct s \<Longrightarrow> factors_seen policy log"
  by (auto simp: seen_def can_reconstruct_def factors_seen_def)

section \<open>A complete run\<close>

lemma accept_run:
  assumes "distinct (map fst (plan_leaves (session_plan s)))"
    and "session_responses s = map (A \<circ> fst) (plan_leaves (session_plan s))"
    and "\<not> released (session_state s)" "envelope_authenticated (session_state s)"
    and "distinct ids" "set ids \<subseteq> fst ` set (plan_leaves (session_plan s))" "\<forall>i\<in>set ids. \<not> A i"
  shows "run_steps session_step s (map Accept_Network ids) =
    (map (\<lambda>i. (Accept_Network i, Ok ())) ids,
     if ids = [] then s else
       s\<lparr>session_responses := map ((\<lambda>i. A i \<or> i \<in> set ids) \<circ> fst) (plan_leaves (session_plan s)),
         session_state := (session_state s)\<lparr>network_satisfied_flag :=
           evaluate_network (plan_gates (session_plan s))
             (map ((\<lambda>i. A i \<or> i \<in> set ids) \<circ> fst) (plan_leaves (session_plan s)))\<rparr>\<rparr>)"
  using assms
proof (induction ids arbitrary: s A)
  case (Cons i ids)
  let ?leaves = "plan_leaves (session_plan s)"
  let ?s = "s\<lparr>session_responses := map (A(i := True) \<circ> fst) ?leaves,
             session_state := (session_state s)\<lparr>network_satisfied_flag :=
               evaluate_network (plan_gates (session_plan s)) (map (A(i := True) \<circ> fst) ?leaves)\<rparr>\<rparr>"
  have step: "session_step s (Accept_Network i) = (Ok (), ?s)"
    using Cons.prems accept_network_cases [OF Cons.prems(1) refl, of A i] by simp
  have fresh: "\<forall>j\<in>set ids. \<not> (A(i := True)) j" using Cons.prems(5,7) by auto
  have more: "(\<lambda>j. (A(i := True)) j \<or> j \<in> set ids) = (\<lambda>j. A j \<or> j \<in> set (i # ids))" by auto
  have "A(i := True) = (\<lambda>j. A j \<or> j \<in> set (i # ids))" if "ids = []" using that by auto
  moreover have "run_steps session_step ?s (map Accept_Network ids) =
    (map (\<lambda>i. (Accept_Network i, Ok ())) ids,
     if ids = [] then ?s else
       ?s\<lparr>session_responses := map ((\<lambda>j. A j \<or> j \<in> set (i # ids)) \<circ> fst) ?leaves,
         session_state := (session_state ?s)\<lparr>network_satisfied_flag :=
           evaluate_network (plan_gates (session_plan s)) (map ((\<lambda>j. A j \<or> j \<in> set (i # ids)) \<circ> fst) ?leaves)\<rparr>\<rparr>)"
    using Cons.IH [of ?s "A(i := True)", OF _ _ _ _ _ _ fresh] Cons.prems more by (simp del: fun_upd_apply)
  ultimately show ?case
    using step by (simp del: fun_upd_apply)
qed simp

lemma complete_run:
  assumes "wf_node network" "production_policy_new mode tpm network = Ok policy"
    and "distinct leaves" "set leaves \<subseteq> set (network_leaf_ids policy)" "leaves \<noteq> []"
    and "satisfied (\<lambda>i. i \<in> set leaves) network"
    and "calls = Authenticate_Envelope # map Accept_Network leaves
       @ [Confirm_Tpm, Confirm_Live, Authenticate_Root, Release_Session]"
  shows "fst (run_steps session_step (session_new policy) calls) = map (\<lambda>call. (call, Ok ())) calls"
proof -
  note facts = new_policy [OF assms(2,1)]
  define s0 where "s0 = snd (session_authenticate_envelope (session_new policy))"
  have s0: "session_authenticate_envelope (session_new policy) = (Ok (), s0)"
      "session_plan s0 = policy_plan policy" "\<not> released (session_state s0)"
      "envelope_authenticated (session_state s0)"
      "session_responses s0 = map ((\<lambda>_. False) \<circ> fst) (plan_leaves (session_plan s0))"
    by (simp_all add: s0_def session_authenticate_envelope_def session_new_def comp_def map_replicate_const)
  obtain s1 where accept: "run_steps session_step s0 (map Accept_Network leaves) =
      (map (\<lambda>i. (Accept_Network i, Ok ())) leaves, s1)"
    and s1: "network_satisfied_flag (session_state s1)" "\<not> released (session_state s1)"
      "envelope_authenticated (session_state s1)"
    using accept_run [OF _ s0(5,3,4) assms(3)] assms(4-6) facts(3) s0
      evaluate_network_admitted [OF facts(1), of "\<lambda>i. i \<in> set leaves"]
    by (auto simp: facts(4-6))
  have "fst (run_steps session_step s1 [Confirm_Tpm, Confirm_Live, Authenticate_Root, Release_Session]) =
      map (\<lambda>call. (call, Ok ())) [Confirm_Tpm, Confirm_Live, Authenticate_Root, Release_Session]"
    using s1 by (simp add: session_defs try_release_def can_release_def)
  then show ?thesis
    using s0(1) accept assms(7) by (auto simp: run_steps_append comp_def split: prod.splits)
qed

lemma example_run:
  "\<exists>s. run_steps session_step (session_new (admitted Attested 1 example_node))
     [Authenticate_Envelope, Accept_Network 6, Accept_Network 4, Confirm_Tpm, Confirm_Live, Authenticate_Root, Release_Session] =
     (map (\<lambda>call. (call, Ok ()))
        [Authenticate_Envelope, Accept_Network 6, Accept_Network 4, Confirm_Tpm, Confirm_Live, Authenticate_Root]
      @ (Release_Session, Ok ()) # [], s)"
  "\<exists>s. run_steps session_step (session_new (admitted Attested 1 example_node))
     [Authenticate_Envelope, Accept_Network 6, Accept_Network 4, Confirm_Tpm, Confirm_Live, Authenticate_Root, Release_Session] =
     (map (\<lambda>call. (call, Ok ()))
        [Authenticate_Envelope, Accept_Network 6, Accept_Network 4, Confirm_Tpm, Confirm_Live]
      @ (Authenticate_Root, Ok ()) # [(Release_Session, Ok ())], s)"
  using complete_run [OF _ example_policy, of "[6, 4]"]
  by (simp_all add: network_leaf_ids_def admitted_def prod_eq_iff del: run_steps.simps)

lemma wf_example: "wf_node example_node"
  by simp

section \<open>Properties\<close>

text \<open>C20. A session releases only after every factor: in any sequence of calls, a successful release is
  preceded by a successful envelope authentication, TPM confirmation, root authentication, network
  answers that satisfy the source tree and, for an attested policy, a live authorization.\<close>

theorem release_requires_every_factor:
  assumes "wf_node network" "production_policy_new mode tpm network = Ok policy"
    and "run_steps session_step (session_new policy) calls =
           (before @ (Release_Session, Ok ()) # after, s)"
  shows "factors_seen policy before \<and> (Authenticate_Root, Ok ()) \<in> set before"
proof -
  obtain calls1 s1 s2 where run: "run_steps session_step (session_new policy) calls1 = (before, s1)"
      and step: "session_step s1 Release_Session = (Ok (), s2)"
    using run_steps_prefix [OF assms(3)] by blast
  have "seen policy before s1" using seen_run [OF assms(2,1) run] .
  moreover have "can_reconstruct s1" "root_authenticated (session_state s1)"
    using step by (auto simp: session_release_def split: if_splits result.splits prod.splits)
  ultimately show ?thesis
    using seen_can_reconstruct by (auto simp: seen_def)
qed

theorem release_requires_every_factor_witness:
  "factors_seen (admitted Attested 1 example_node) (map (\<lambda>call. (call, Ok ()))
     [Authenticate_Envelope, Accept_Network 6, Accept_Network 4, Confirm_Tpm, Confirm_Live, Authenticate_Root])"
proof -
  note example_run(1)
  then show ?thesis
    by (elim exE) (drule release_requires_every_factor [OF wf_example example_policy], blast)
qed

text \<open>The root is authenticated only over satisfied factors: a successful root authentication is
  preceded by every factor.\<close>

theorem root_requires_every_factor:
  assumes "wf_node network" "production_policy_new mode tpm network = Ok policy"
    and "run_steps session_step (session_new policy) calls =
           (before @ (Authenticate_Root, Ok ()) # after, s)"
  shows "factors_seen policy before"
proof -
  obtain calls1 s1 s2 where run: "run_steps session_step (session_new policy) calls1 = (before, s1)"
      and step: "session_step s1 Authenticate_Root = (Ok (), s2)"
    using run_steps_prefix [OF assms(3)] by blast
  have "can_reconstruct s1"
    using step by (auto simp: session_authenticate_root_def split: if_splits result.splits)
  then show ?thesis
    using seen_can_reconstruct seen_run [OF assms(2,1) run] by blast
qed

text \<open>C31. A session releases at most once, in any sequence of calls from any state.\<close>

theorem session_releases_at_most_once:
  "length (filter (\<lambda>(call, out). call = Release_Session \<and> out = Ok ())
     (fst (run_steps session_step s calls))) \<le> 1"
  using session.at_most_one_grant [of s calls]
  by (cases "run_steps session_step s calls") (simp add: session_grants_def)

text \<open>A session can be completed: after the envelope, any distinct known leaves that satisfy the tree,
  the TPM and the live authorization, authenticating the root and releasing both succeed.\<close>

theorem session_completes:
  assumes "wf_node network" "production_policy_new mode tpm network = Ok policy"
    and "distinct leaves" "set leaves \<subseteq> set (network_leaf_ids policy)" "leaves \<noteq> []"
    and "satisfied (\<lambda>i. i \<in> set leaves) network"
    and "calls = Authenticate_Envelope # map Accept_Network leaves
       @ [Confirm_Tpm, Confirm_Live, Authenticate_Root, Release_Session]"
  shows "fst (run_steps session_step (session_new policy) calls) = map (\<lambda>call. (call, Ok ())) calls"
  using assms by (rule complete_run)

end
