(* ===== verification/Crypto.thy ===== *)
theory Crypto
  imports Sharing
begin

text \<open>
  The cryptographic wrappers of crates/leelo-crypto: bounds, framing, error mapping and the order of the
  calls. The primitives themselves (SHA-384, HKDF, ChaCha20-Poly1305, Ed25519, ChaCha20, the RFC 9497
  VOPRF over P-384) are third-party code; they are fields of parameter records, and what the crate
  relies on is stated in the predicates \<open>aead_correct\<close>, \<open>ed25519_correct\<close> and \<open>voprf_correct\<close>.
  \<open>OsRng\<close> is a generator with an explicit state, as in \<open>Sharing\<close>.
\<close>

section \<open>Constants and errors\<close>

definition POINT_BYTES :: nat where [simp]: "POINT_BYTES = 49"
definition PROOF_BYTES :: nat where [simp]: "PROOF_BYTES = 96"
definition OUTPUT_BYTES :: nat where [simp]: "OUTPUT_BYTES = 48"
definition KEY_BYTES :: nat where [simp]: "KEY_BYTES = 32"
definition MAX_INPUT_BYTES :: nat where [simp]: "MAX_INPUT_BYTES = 1024"
definition MAX_CONTEXT_BYTES :: nat where [simp]: "MAX_CONTEXT_BYTES = 65536"

datatype crypto_error =
    InvalidInput | InvalidEncoding | InvalidProof | Authentication | Randomness | CryptographicOperation

text \<open>The hash, key derivation and AEAD of the fixed suite. \<open>hkdf_expand_multi_info salt ikm infos n\<close>,
  \<open>aead_encrypt key nonce aad body\<close> (ciphertext and tag) and \<open>aead_decrypt key nonce aad body tag\<close>.\<close>

record primitives =
  sha384 :: "bytes \<Rightarrow> bytes"
  hkdf_expand_multi_info :: "bytes \<Rightarrow> bytes \<Rightarrow> bytes list \<Rightarrow> nat \<Rightarrow> bytes option"
  aead_encrypt :: "bytes \<Rightarrow> bytes \<Rightarrow> bytes \<Rightarrow> bytes \<Rightarrow> (bytes \<times> bytes) option"
  aead_decrypt :: "bytes \<Rightarrow> bytes \<Rightarrow> bytes \<Rightarrow> bytes \<Rightarrow> bytes \<Rightarrow> bytes option"

definition random_bytes :: "'r rng \<Rightarrow> nat \<Rightarrow> 'r \<Rightarrow> (bytes, crypto_error) result \<times> 'r" where
  "random_bytes fill n r =
     (case fill r n of (None, r') \<Rightarrow> (Err Randomness, r') | (Some bs, r') \<Rightarrow> (Ok bs, r'))"

definition hash_context :: "primitives \<Rightarrow> bytes \<Rightarrow> bytes" where
  "hash_context P bs = sha384 P bs"

section \<open>Key derivation and key wrapping\<close>

record wrapped_key =
  wk_nonce :: bytes
  wk_ciphertext :: bytes

text \<open>The framed parts of the HKDF info.\<close>

definition key_info :: "bytes \<Rightarrow> bytes \<Rightarrow> bytes list" where
  "key_info purpose context =
     [ascii ''leelo/v1/key'', be32 (length purpose), purpose, be32 (length context), context]"

definition derive_secret_key ::
  "primitives \<Rightarrow> bytes \<Rightarrow> bytes \<Rightarrow> bytes \<Rightarrow> (bytes, crypto_error) result" where
  "derive_secret_key P ikm context purpose =
     (if length ikm < 32 \<or> length ikm > MAX_CONTEXT_BYTES \<or> length context > MAX_CONTEXT_BYTES
         \<or> purpose = [] \<or> length purpose > 128
      then Err InvalidInput
      else ok_or CryptographicOperation
        (hkdf_expand_multi_info P (ascii ''leelo/v1/hkdf-sha384'') ikm (key_info purpose context) 32))"

definition derive_wrap_key :: "primitives \<Rightarrow> bytes \<Rightarrow> bytes \<Rightarrow> (bytes, crypto_error) result" where
  "derive_wrap_key P output context = derive_secret_key P output context (ascii ''voprf-leaf-wrap'')"

definition seal_key :: "primitives \<Rightarrow> 'r rng \<Rightarrow> bytes \<Rightarrow> bytes \<Rightarrow> bytes \<Rightarrow> 'r
      \<Rightarrow> (wrapped_key, crypto_error) result \<times> 'r" where
  "seal_key P fill key plaintext aad r =
     (if length aad > MAX_CONTEXT_BYTES then (Err InvalidInput, r)
      else case random_bytes fill 12 r of
        (Err e, r') \<Rightarrow> (Err e, r')
      | (Ok nonce, r') \<Rightarrow>
          (and_then (ok_or CryptographicOperation (aead_encrypt P key nonce aad plaintext)) (\<lambda>(body, tag).
             Ok \<lparr>wk_nonce = nonce, wk_ciphertext = body @ tag\<rparr>), r'))"

definition open_key ::
  "primitives \<Rightarrow> bytes \<Rightarrow> wrapped_key \<Rightarrow> bytes \<Rightarrow> (bytes, crypto_error) result" where
  "open_key P key wrapped aad =
     (if length aad > MAX_CONTEXT_BYTES then Err InvalidInput
      else ok_or Authentication (aead_decrypt P key (wk_nonce wrapped) aad
             (take 32 (wk_ciphertext wrapped)) (drop 32 (wk_ciphertext wrapped))))"

section \<open>Signatures\<close>

record 'k ed25519 =
  ed_from_bytes :: "bytes \<Rightarrow> 'k"
  ed_to_bytes :: "'k \<Rightarrow> bytes"
  ed_public :: "'k \<Rightarrow> bytes"
  ed_sign :: "'k \<Rightarrow> bytes \<Rightarrow> bytes"
  ed_decodes :: "bytes \<Rightarrow> bool"
  ed_verify_strict :: "bytes \<Rightarrow> bytes \<Rightarrow> bytes \<Rightarrow> bool"

definition signing_key_from_seed :: "'k ed25519 \<Rightarrow> bytes \<Rightarrow> 'k" where
  "signing_key_from_seed E seed = ed_from_bytes E seed"

definition signing_key_generate ::
  "'k ed25519 \<Rightarrow> 'r rng \<Rightarrow> 'r \<Rightarrow> ('k, crypto_error) result \<times> 'r" where
  "signing_key_generate E fill r =
     (case random_bytes fill 32 r of
        (Err e, r') \<Rightarrow> (Err e, r')
      | (Ok seed, r') \<Rightarrow> (Ok (signing_key_from_seed E seed), r'))"

definition export_seed :: "'k ed25519 \<Rightarrow> 'k \<Rightarrow> bytes" where
  "export_seed E key = ed_to_bytes E key"

definition signing_public_key :: "'k ed25519 \<Rightarrow> 'k \<Rightarrow> bytes" where
  "signing_public_key E key = ed_public E key"

definition signing_key_sign :: "'k ed25519 \<Rightarrow> 'k \<Rightarrow> bytes \<Rightarrow> (bytes, crypto_error) result" where
  "signing_key_sign E key message =
     (if length message > MAX_CONTEXT_BYTES then Err InvalidInput else Ok (ed_sign E key message))"

definition verify :: "'k ed25519 \<Rightarrow> bytes \<Rightarrow> bytes \<Rightarrow> bytes \<Rightarrow> (unit, crypto_error) result" where
  "verify E public message signature =
     (if length message > MAX_CONTEXT_BYTES then Err InvalidInput
      else if \<not> ed_decodes E public then Err InvalidEncoding
      else if \<not> ed_verify_strict E public message signature then Err Authentication
      else Ok ())"

section \<open>The per-operation generator\<close>

text \<open>ChaCha20 as a stream: \<open>chacha_new key nonce\<close> and \<open>chacha_apply st buffer\<close>, which fails without a
  result when the block counter is exhausted.\<close>

record 'st chacha20 =
  chacha_new :: "bytes \<Rightarrow> bytes \<Rightarrow> 'st"
  chacha_apply :: "'st \<Rightarrow> bytes \<Rightarrow> bytes option \<times> 'st"

definition operation_rng_from_entropy ::
  "'st chacha20 \<Rightarrow> 'r rng \<Rightarrow> 'r \<Rightarrow> ('st, crypto_error) result \<times> 'r" where
  "operation_rng_from_entropy Ch fill r =
     (case fill r 32 of
        (None, r') \<Rightarrow> (Err Randomness, r')
      | (Some seed, r') \<Rightarrow> (Ok (chacha_new Ch seed (replicate 12 0)), r'))"

definition operation_rng_try_fill :: "'st chacha20 \<Rightarrow> 'st rng" where
  "operation_rng_try_fill Ch st n = chacha_apply Ch st (replicate n 0)"

text \<open>\<open>fill_bytes\<close> panics when the stream is exhausted.\<close>

definition operation_rng_fill :: "'st chacha20 \<Rightarrow> 'st \<Rightarrow> nat \<Rightarrow> (bytes \<times> 'st) option" where
  "operation_rng_fill Ch st n =
     (case operation_rng_try_fill Ch st n of (None, st') \<Rightarrow> None | (Some bs, st') \<Rightarrow> Some (bs, st'))"

section \<open>The verifiable oblivious PRF\<close>

record ('p, 'f, 'srv, 'cli, 'st) voprf_lib =
  elem_deserialize :: "bytes \<Rightarrow> 'p option"
  elem_serialize :: "'p \<Rightarrow> bytes"
  server_new_from_seed :: "bytes \<Rightarrow> bytes \<Rightarrow> 'srv option"
  server_new_with_key :: "bytes \<Rightarrow> 'srv option"
  server_serialize :: "'srv \<Rightarrow> bytes"
  server_get_public_key :: "'srv \<Rightarrow> 'p"
  blinded_serialize :: "'p \<Rightarrow> bytes"
  blinded_deserialize :: "bytes \<Rightarrow> 'p option"
  evaluated_serialize :: "'p \<Rightarrow> bytes"
  evaluated_deserialize :: "bytes \<Rightarrow> 'p option"
  server_blind_evaluate :: "'srv \<Rightarrow> 'st \<Rightarrow> 'p \<Rightarrow> 'p \<times> 'f"
  proof_serialize :: "'f \<Rightarrow> bytes"
  proof_deserialize :: "bytes \<Rightarrow> 'f option"
  client_blind :: "bytes \<Rightarrow> 'st \<Rightarrow> ('cli \<times> 'p) option"
  client_finalize :: "'cli \<Rightarrow> bytes \<Rightarrow> 'p \<Rightarrow> 'f \<Rightarrow> 'p \<Rightarrow> bytes option"

record evaluation =
  ev_element :: bytes
  ev_proof :: bytes

record 'cli blind_state =
  bs_inner :: 'cli
  bs_input :: bytes

definition server_public_key_from_bytes ::
  "('p, 'f, 'srv, 'cli, 'st) voprf_lib \<Rightarrow> bytes \<Rightarrow> (bytes, crypto_error) result" where
  "server_public_key_from_bytes V bs =
     (case elem_deserialize V bs of
        None \<Rightarrow> Err InvalidEncoding
      | Some point \<Rightarrow> if elem_serialize V point \<noteq> bs then Err InvalidEncoding else Ok bs)"

definition secret_server_generate ::
  "('p, 'f, 'srv, 'cli, 'st) voprf_lib \<Rightarrow> 'r rng \<Rightarrow> 'r \<Rightarrow> ('srv, crypto_error) result \<times> 'r" where
  "secret_server_generate V fill r =
     (case random_bytes fill 48 r of
        (Err e, r') \<Rightarrow> (Err e, r')
      | (Ok seed, r') \<Rightarrow>
          (ok_or CryptographicOperation (server_new_from_seed V seed (ascii ''leelo/v1/evaluation-key'')), r'))"

definition secret_server_from_secret_bytes ::
  "('p, 'f, 'srv, 'cli, 'st) voprf_lib \<Rightarrow> bytes \<Rightarrow> ('srv, crypto_error) result" where
  "secret_server_from_secret_bytes V bs = ok_or InvalidEncoding (server_new_with_key V bs)"

definition export_secret_bytes :: "('p, 'f, 'srv, 'cli, 'st) voprf_lib \<Rightarrow> 'srv \<Rightarrow> bytes" where
  "export_secret_bytes V srv = take 48 (server_serialize V srv)"

definition secret_server_public_key :: "('p, 'f, 'srv, 'cli, 'st) voprf_lib \<Rightarrow> 'srv \<Rightarrow> bytes" where
  "secret_server_public_key V srv = elem_serialize V (server_get_public_key V srv)"

definition evaluate_with_entropy :: "('p, 'f, 'srv, 'cli, 'st) voprf_lib \<Rightarrow> 'st chacha20 \<Rightarrow> 'r rng \<Rightarrow> 'srv
      \<Rightarrow> bytes \<Rightarrow> 'r \<Rightarrow> (evaluation, crypto_error) result \<times> 'r" where
  "evaluate_with_entropy V Ch fill srv blinded r =
     (case blinded_deserialize V blinded of
        None \<Rightarrow> (Err InvalidEncoding, r)
      | Some message \<Rightarrow>
          (case operation_rng_from_entropy Ch fill r of
             (Err e, r') \<Rightarrow> (Err e, r')
           | (Ok rng, r') \<Rightarrow>
               (case server_blind_evaluate V srv rng message of
                  (element, prf) \<Rightarrow>
                    (Ok \<lparr>ev_element = evaluated_serialize V element, ev_proof = proof_serialize V prf\<rparr>, r'))))"

definition blind_with_entropy :: "('p, 'f, 'srv, 'cli, 'st) voprf_lib \<Rightarrow> 'st chacha20 \<Rightarrow> 'r rng \<Rightarrow> bytes \<Rightarrow> 'r
      \<Rightarrow> ('cli blind_state \<times> bytes, crypto_error) result \<times> 'r" where
  "blind_with_entropy V Ch fill input r =
     (if input = [] \<or> length input > MAX_INPUT_BYTES then (Err InvalidInput, r)
      else case operation_rng_from_entropy Ch fill r of
        (Err e, r') \<Rightarrow> (Err e, r')
      | (Ok rng, r') \<Rightarrow>
          (and_then (ok_or CryptographicOperation (client_blind V input rng)) (\<lambda>(state, message).
             Ok (\<lparr>bs_inner = state, bs_input = input\<rparr>, blinded_serialize V message)), r'))"

definition blind_finalize :: "('p, 'f, 'srv, 'cli, 'st) voprf_lib \<Rightarrow> 'cli blind_state \<Rightarrow> evaluation \<Rightarrow> bytes
      \<Rightarrow> (bytes, crypto_error) result" where
  "blind_finalize V state response pin =
     and_then (ok_or InvalidEncoding (evaluated_deserialize V (ev_element response))) (\<lambda>message.
       and_then (ok_or InvalidEncoding (proof_deserialize V (ev_proof response))) (\<lambda>prf.
         and_then (ok_or InvalidEncoding (elem_deserialize V pin)) (\<lambda>public.
           ok_or InvalidProof (client_finalize V (bs_inner state) (bs_input state) message prf public))))"

section \<open>What the primitives promise\<close>

definition aead_correct :: "primitives \<Rightarrow> bool" where
  "aead_correct P \<longleftrightarrow> (\<forall>key nonce aad body c t. aead_encrypt P key nonce aad body = Some (c, t) \<longrightarrow>
     length c = length body \<and> length t = 16 \<and> aead_decrypt P key nonce aad c t = Some body)"

definition ed25519_correct :: "'k ed25519 \<Rightarrow> bool" where
  "ed25519_correct E \<longleftrightarrow> (\<forall>key message.
     ed_decodes E (ed_public E key) \<and> length (ed_public E key) = 32 \<and> length (ed_sign E key message) = 64
     \<and> ed_verify_strict E (ed_public E key) message (ed_sign E key message)
     \<and> ed_from_bytes E (ed_to_bytes E key) = key)"

text \<open>\<open>voprf_correct V F\<close>: encodings are canonical and of fixed length, and finalising an honest evaluation
  gives the pseudorandom function \<open>F\<close> of the server key and the input, whatever the blinding was.\<close>

definition voprf_correct :: "('p, 'f, 'srv, 'cli, 'st) voprf_lib \<Rightarrow> ('srv \<Rightarrow> bytes \<Rightarrow> bytes) \<Rightarrow> bool" where
  "voprf_correct V F \<longleftrightarrow>
     (\<forall>p. elem_deserialize V (elem_serialize V p) = Some p \<and> length (elem_serialize V p) = POINT_BYTES)
     \<and> (\<forall>p. blinded_deserialize V (blinded_serialize V p) = Some p \<and> length (blinded_serialize V p) = POINT_BYTES)
     \<and> (\<forall>p. evaluated_deserialize V (evaluated_serialize V p) = Some p
            \<and> length (evaluated_serialize V p) = POINT_BYTES)
     \<and> (\<forall>f. proof_deserialize V (proof_serialize V f) = Some f \<and> length (proof_serialize V f) = PROOF_BYTES)
     \<and> (\<forall>input rng state message srv rng' z f.
          client_blind V input rng = Some (state, message) \<longrightarrow>
          server_blind_evaluate V srv rng' message = (z, f) \<longrightarrow>
          client_finalize V state input z f (server_get_public_key V srv) = Some (F srv input))"

section \<open>Lemmas on the wrappers\<close>

lemma random_bytes_Ok:
  "random_bytes fill n r = (Ok bs, r') \<longleftrightarrow> fill r n = (Some bs, r')"
  by (auto simp: random_bytes_def split: prod.splits option.splits)

lemma seal_key_Ok:
  assumes "seal_key P fill key plaintext aad r = (Ok w, r')"
  obtains nonce body tag where "length aad \<le> MAX_CONTEXT_BYTES" "fill r 12 = (Some nonce, r')"
    "aead_encrypt P key nonce aad plaintext = Some (body, tag)"
    "w = \<lparr>wk_nonce = nonce, wk_ciphertext = body @ tag\<rparr>"
  using assms
  by (auto simp: seal_key_def random_bytes_def result_simps split: if_splits prod.splits result.splits option.splits)

lemma open_seal:
  assumes "aead_correct P" "length plaintext = 32" "seal_key P fill key plaintext aad r = (Ok w, r')"
  shows "open_key P key w aad = Ok plaintext"
  using assms(3)
proof (rule seal_key_Ok)
  fix nonce body tag
  assume "length aad \<le> MAX_CONTEXT_BYTES" "aead_encrypt P key nonce aad plaintext = Some (body, tag)"
    "w = \<lparr>wk_nonce = nonce, wk_ciphertext = body @ tag\<rparr>"
  moreover from this have "length body = 32" "aead_decrypt P key nonce aad body tag = Some plaintext"
    using assms(1,2) by (auto simp: aead_correct_def)
  ultimately show ?thesis by (simp add: open_key_def)
qed

lemma sealed_lengths:
  assumes "aead_correct P" "fills_buffer fill" "length plaintext = 32"
    and "seal_key P fill key plaintext aad r = (Ok w, r')"
  shows "length (wk_nonce w) = 12 \<and> length (wk_ciphertext w) = 48"
  using assms(4)
proof (rule seal_key_Ok)
  fix nonce body tag
  assume "fill r 12 = (Some nonce, r')" "aead_encrypt P key nonce aad plaintext = Some (body, tag)"
    "w = \<lparr>wk_nonce = nonce, wk_ciphertext = body @ tag\<rparr>"
  moreover from this have "length nonce = 12" using assms(2) unfolding fills_buffer_def by blast
  ultimately show ?thesis using assms(1,3) by (auto simp: aead_correct_def)
qed

lemma key_info_inject:
  assumes "length purpose < 2 ^ 32" "length purpose' < 2 ^ 32"
    and "length context < 2 ^ 32" "length context' < 2 ^ 32"
    and "concat (key_info purpose context) = concat (key_info purpose' context')"
  shows "purpose = purpose' \<and> context = context'"
proof -
  have "be32 (length purpose) @ purpose @ be32 (length context) @ context =
      be32 (length purpose') @ purpose' @ be32 (length context') @ context'"
    using assms(5) by (simp add: key_info_def)
  then have p: "be32 (length purpose) = be32 (length purpose')"
      and rest: "purpose @ be32 (length context) @ context = purpose' @ be32 (length context') @ context'"
    by (simp_all add: append_eq_append_conv)
  have "length purpose = length purpose'" using be32_inject [OF assms(1,2) p] .
  then have "purpose = purpose'" "be32 (length context) @ context = be32 (length context') @ context'"
    using rest by (simp_all add: append_eq_append_conv)
  then show ?thesis by (simp add: append_eq_append_conv)
qed

lemma verify_sign:
  assumes "ed25519_correct E" "signing_key_sign E key message = Ok signature"
  shows "verify E (signing_public_key E key) message signature = Ok ()"
  using assms
  by (auto simp: signing_key_sign_def verify_def signing_public_key_def ed25519_correct_def split: if_splits)

lemma from_entropy_Ok:
  "operation_rng_from_entropy Ch fill r = (Ok st, r') \<Longrightarrow> \<exists>seed. st = chacha_new Ch seed (replicate 12 0)"
  by (auto simp: operation_rng_from_entropy_def split: prod.splits option.splits)

lemma evaluate_Ok:
  assumes "voprf_correct V F" "evaluate_with_entropy V Ch fill srv (blinded_serialize V message) r = (Ok ev, r')"
  obtains rng z f where "server_blind_evaluate V srv rng message = (z, f)"
    "ev = \<lparr>ev_element = evaluated_serialize V z, ev_proof = proof_serialize V f\<rparr>"
  using assms
  by (auto simp: evaluate_with_entropy_def voprf_correct_def split: option.splits prod.splits result.splits)

lemma blind_Ok:
  assumes "blind_with_entropy V Ch fill input r = (Ok (state, msg), r')"
  obtains rng inner message where "client_blind V input rng = Some (inner, message)"
    "state = \<lparr>bs_inner = inner, bs_input = input\<rparr>" "msg = blinded_serialize V message"
  using assms
  by (auto simp: blind_with_entropy_def result_simps split: if_splits prod.splits result.splits)

lemma voprf_agreement:
  assumes "voprf_correct V F"
    and "blind_with_entropy V Ch fill input r = (Ok (state, msg), r1)"
    and "evaluate_with_entropy V Ch fill' srv msg q = (Ok ev, q1)"
  shows "blind_finalize V state ev (secret_server_public_key V srv) = Ok (F srv input)"
proof -
  obtain rng inner message where blind: "client_blind V input rng = Some (inner, message)"
    "state = \<lparr>bs_inner = inner, bs_input = input\<rparr>" "msg = blinded_serialize V message"
    using assms(2) by (rule blind_Ok)
  obtain rng' z f where ev: "server_blind_evaluate V srv rng' message = (z, f)"
    "ev = \<lparr>ev_element = evaluated_serialize V z, ev_proof = proof_serialize V f\<rparr>"
    using evaluate_Ok [OF assms(1)] assms(3) blind(3) by metis
  have "client_finalize V inner input z f (server_get_public_key V srv) = Some (F srv input)"
    using assms(1) blind(1) ev(1) unfolding voprf_correct_def by metis
  then show ?thesis
    using assms(1) blind(2) ev(2)
    by (simp add: blind_finalize_def secret_server_public_key_def voprf_correct_def)
qed

section \<open>An instance of the contracts\<close>

text \<open>Primitives that satisfy the contracts, for the witnesses: the identity cipher with a constant tag,
  and a VOPRF with one point whose function is constant.\<close>

definition plain_primitives :: primitives where
  "plain_primitives =
     \<lparr>sha384 = (\<lambda>bs. take 48 (bs @ replicate 48 0)),
      hkdf_expand_multi_info = (\<lambda>salt ikm infos n. Some (take n (ikm @ replicate n 0))),
      aead_encrypt = (\<lambda>key nonce aad body. Some (body, replicate 16 0)),
      aead_decrypt = (\<lambda>key nonce aad body tag. if tag = replicate 16 0 then Some body else None)\<rparr>"

definition plain_ed25519 :: "bytes ed25519" where
  "plain_ed25519 =
     \<lparr>ed_from_bytes = (\<lambda>bs. bs), ed_to_bytes = (\<lambda>key. key), ed_public = (\<lambda>key. replicate 32 1),
      ed_sign = (\<lambda>key message. replicate 64 2), ed_decodes = (\<lambda>public. public = replicate 32 1),
      ed_verify_strict = (\<lambda>public message signature. signature = replicate 64 2)\<rparr>"

definition plain_voprf :: "(unit, unit, unit, unit, bytes) voprf_lib" where
  "plain_voprf =
     \<lparr>elem_deserialize = (\<lambda>bs. if bs = replicate 49 2 then Some () else None),
      elem_serialize = (\<lambda>_. replicate 49 2),
      server_new_from_seed = (\<lambda>seed info. Some ()), server_new_with_key = (\<lambda>bs. Some ()),
      server_serialize = (\<lambda>_. replicate 97 0), server_get_public_key = (\<lambda>_. ()),
      blinded_serialize = (\<lambda>_. replicate 49 2),
      blinded_deserialize = (\<lambda>bs. if bs = replicate 49 2 then Some () else None),
      evaluated_serialize = (\<lambda>_. replicate 49 2),
      evaluated_deserialize = (\<lambda>bs. if bs = replicate 49 2 then Some () else None),
      server_blind_evaluate = (\<lambda>_ _ _. ((), ())),
      proof_serialize = (\<lambda>_. replicate 96 3),
      proof_deserialize = (\<lambda>bs. if bs = replicate 96 3 then Some () else None),
      client_blind = (\<lambda>input rng. Some ((), ())),
      client_finalize = (\<lambda>_ _ _ _ _. Some (replicate 48 5))\<rparr>"

definition plain_chacha :: "bytes chacha20" where
  "plain_chacha = \<lparr>chacha_new = (\<lambda>key nonce. key), chacha_apply = (\<lambda>st buffer. (Some buffer, st))\<rparr>"

lemma plain_correct:
  "aead_correct plain_primitives" "ed25519_correct plain_ed25519"
  "voprf_correct plain_voprf (\<lambda>_ _. replicate 48 5)"
  by (simp_all add: aead_correct_def plain_primitives_def ed25519_correct_def plain_ed25519_def
      voprf_correct_def plain_voprf_def)

end
