(* ===== verification/Wire.thy ===== *)
theory Wire
  imports Crypto
begin

text \<open>
  The fixed-length network protocol of crates/leelo-protocol: the key identifier and the request and
  response messages of wire.rs.
\<close>

section \<open>Messages\<close>

definition key_id :: "primitives \<Rightarrow> bytes \<Rightarrow> bytes" where
  "key_id P public = take 32 (hash_context P public)"

definition CONTENT_TYPE :: string where "CONTENT_TYPE = ''application/vnd.leelo.network-bound-v1''"
definition REQUEST_BYTES :: nat where [simp]: "REQUEST_BYTES = 89"
definition RESPONSE_BYTES :: nat where [simp]: "RESPONSE_BYTES = 153"

definition HEADER :: bytes where
  "HEADER = ascii ''LEEL'' @ [1, 1, 1, 0]"

datatype invalid_message = InvalidMessage

record wire_request =
  rq_key_id :: bytes
  rq_point :: bytes

definition encode_request :: "bytes \<Rightarrow> bytes \<Rightarrow> bytes" where
  "encode_request kid point = HEADER @ kid @ point"

definition decode_request :: "bytes \<Rightarrow> (wire_request, invalid_message) result" where
  "decode_request bs =
     (if length bs \<noteq> REQUEST_BYTES \<or> take 8 bs \<noteq> HEADER then Err InvalidMessage
      else Ok \<lparr>rq_key_id = take 32 (drop 8 bs), rq_point = drop 40 bs\<rparr>)"

definition encode_response :: "evaluation \<Rightarrow> bytes" where
  "encode_response ev = HEADER @ ev_element ev @ ev_proof ev"

definition decode_response :: "bytes \<Rightarrow> (evaluation, invalid_message) result" where
  "decode_response bs =
     (if length bs \<noteq> RESPONSE_BYTES \<or> take 8 bs \<noteq> HEADER then Err InvalidMessage
      else Ok \<lparr>ev_element = take 49 (drop 8 bs), ev_proof = drop 57 bs\<rparr>)"

section \<open>Both messages are exact codecs\<close>

definition wf_request :: "wire_request \<Rightarrow> bool" where
  "wf_request q \<longleftrightarrow> length (rq_key_id q) = 32 \<and> length (rq_point q) = 49"

definition wf_evaluation :: "evaluation \<Rightarrow> bool" where
  "wf_evaluation ev \<longleftrightarrow> length (ev_element ev) = 49 \<and> length (ev_proof ev) = 96"

lemma length_HEADER [simp]: "length HEADER = 8"
  by (simp add: HEADER_def)

lemma split_three: "bs = take m bs @ take n (drop m bs) @ drop (m + n) bs"
  by (metis append_take_drop_id drop_drop add.commute)

interpretation request: exact_codec
  "\<lambda>q. encode_request (rq_key_id q) (rq_point q)" decode_request wf_request
proof
  show "decode_request (encode_request (rq_key_id q) (rq_point q)) = Ok q" if "wf_request q" for q
    using that by (simp add: wf_request_def encode_request_def decode_request_def)
  show "wf_request q \<and> bs = encode_request (rq_key_id q) (rq_point q)" if "decode_request bs = Ok q" for bs q
    using that split_three [of bs 8 32]
    by (auto simp: decode_request_def encode_request_def wf_request_def split: if_splits)
qed

interpretation response: exact_codec encode_response decode_response wf_evaluation
proof
  show "decode_response (encode_response ev) = Ok ev" if "wf_evaluation ev" for ev
    using that by (simp add: wf_evaluation_def encode_response_def decode_response_def)
  show "wf_evaluation ev \<and> bs = encode_response ev" if "decode_response bs = Ok ev" for bs ev
    using that split_three [of bs 8 49]
    by (auto simp: decode_response_def encode_response_def wf_evaluation_def split: if_splits)
qed

lemma evaluation_wf:
  assumes "voprf_correct V F" "evaluate_with_entropy V Ch fill srv blinded r = (Ok ev, r')"
  shows "wf_evaluation ev"
  using assms
  by (auto simp: evaluate_with_entropy_def voprf_correct_def wf_evaluation_def
      split: option.splits prod.splits result.splits)

section \<open>Properties\<close>

text \<open>The request decoder accepts exactly the encodings of a 32-byte key id and a 49-byte point: any
  other length or any changed header byte is rejected, and nothing is lost.\<close>

theorem decode_request_exact:
  "decode_request bs = Ok q \<longleftrightarrow>
     length (rq_key_id q) = 32 \<and> length (rq_point q) = 49 \<and> bs = encode_request (rq_key_id q) (rq_point q)"
  by (auto simp: request.decode_iff wf_request_def)

text \<open>The response decoder accepts exactly the encodings of a 49-byte element and a 96-byte proof.\<close>

theorem decode_response_exact:
  "decode_response bs = Ok ev \<longleftrightarrow>
     length (ev_element ev) = 49 \<and> length (ev_proof ev) = 96 \<and> bs = encode_response ev"
  by (auto simp: response.decode_iff wf_evaluation_def)

end
