(* ===== verification/Cbor.thy ===== *)
theory Cbor
  imports Leelo_Prelude
begin

text \<open>
  The interface of the third-party minicbor encoder and decoder that the envelope uses. An encoder call
  appends the bytes of one item to the writer; a decoder call reads one item from the remaining input and
  returns it with the input after it, or fails. \<open>minicbor_correct\<close> states what the envelope relies on: an
  item written by the encoder is read back, text as far as it is ASCII, and a head takes at most nine bytes. \<open>rfc8949\<close> is the
  deterministic encoding of RFC 8949 and satisfies the contract.
\<close>

section \<open>Interface\<close>

record minicbor =
  enc_array :: "nat \<Rightarrow> bytes"
  enc_u8 :: "u8 \<Rightarrow> bytes"
  enc_u32 :: "u32 \<Rightarrow> bytes"
  enc_u64 :: "u64 \<Rightarrow> bytes"
  enc_bytes :: "bytes \<Rightarrow> bytes"
  enc_str :: "bytes \<Rightarrow> bytes"
  dec_array :: "bytes \<Rightarrow> (nat option \<times> bytes) option"
  dec_u8 :: "bytes \<Rightarrow> (u8 \<times> bytes) option"
  dec_u32 :: "bytes \<Rightarrow> (u32 \<times> bytes) option"
  dec_u64 :: "bytes \<Rightarrow> (u64 \<times> bytes) option"
  dec_bytes :: "bytes \<Rightarrow> (bytes \<times> bytes) option"
  dec_str :: "bytes \<Rightarrow> (bytes \<times> bytes) option"

definition minicbor_correct :: "minicbor \<Rightarrow> bool" where
  "minicbor_correct C \<longleftrightarrow>
     (\<forall>n rest. n < 2 ^ 64 \<longrightarrow> dec_array C (enc_array C n @ rest) = Some (Some n, rest))
     \<and> (\<forall>x rest. dec_u8 C (enc_u8 C x @ rest) = Some (x, rest))
     \<and> (\<forall>x rest. dec_u32 C (enc_u32 C x @ rest) = Some (x, rest))
     \<and> (\<forall>x rest. dec_u64 C (enc_u64 C x @ rest) = Some (x, rest))
     \<and> (\<forall>b rest. length b < 2 ^ 64 \<longrightarrow> dec_bytes C (enc_bytes C b @ rest) = Some (b, rest))
     \<and> (\<forall>b rest. length b < 2 ^ 64 \<and> list_all (\<lambda>x. x < 128) b \<longrightarrow> dec_str C (enc_str C b @ rest) = Some (b, rest))
     \<and> (\<forall>n. length (enc_array C n) \<le> 9)
     \<and> (\<forall>x. length (enc_u8 C x) \<le> 9) \<and> (\<forall>x. length (enc_u32 C x) \<le> 9) \<and> (\<forall>x. length (enc_u64 C x) \<le> 9)
     \<and> (\<forall>b. length (enc_str C b) \<le> length b + 9)
     \<and> (\<forall>b. length b \<le> length (enc_bytes C b) \<and> length (enc_bytes C b) \<le> length b + 9)"

locale cbor =
  fixes C :: minicbor
  assumes correct: "minicbor_correct C"
begin

lemma dec_enc [simp]:
  "n < 2 ^ 64 \<Longrightarrow> dec_array C (enc_array C n @ rest) = Some (Some n, rest)"
  "dec_u8 C (enc_u8 C x @ rest) = Some (x, rest)"
  "dec_u32 C (enc_u32 C y @ rest) = Some (y, rest)"
  "dec_u64 C (enc_u64 C z @ rest) = Some (z, rest)"
  "length b < 2 ^ 64 \<Longrightarrow> dec_bytes C (enc_bytes C b @ rest) = Some (b, rest)"
  "length b < 2 ^ 64 \<Longrightarrow> list_all (\<lambda>x. x < 128) b \<Longrightarrow> dec_str C (enc_str C b @ rest) = Some (b, rest)"
  using correct by (simp_all add: minicbor_correct_def)

lemma dec_enc_end [simp]:
  "length b < 2 ^ 64 \<Longrightarrow> dec_bytes C (enc_bytes C b) = Some (b, [])"
  "length b < 2 ^ 64 \<Longrightarrow> list_all (\<lambda>x. x < 128) b \<Longrightarrow> dec_str C (enc_str C b) = Some (b, [])"
  using dec_enc(5,6) [of b "[]"] by simp_all

lemma enc_lengths:
  "length (enc_array C n) \<le> 9" "length b \<le> length (enc_bytes C b)" "length (enc_bytes C b) \<le> length b + 9"
  using correct by (simp_all add: minicbor_correct_def)

lemma enc_small:
  "length (enc_u8 C x) \<le> 9" "length (enc_u32 C y) \<le> 9" "length (enc_u64 C z) \<le> 9" "length (enc_str C b) \<le> length b + 9"
  using correct by (simp_all add: minicbor_correct_def)

end

section \<open>The deterministic encoding of RFC 8949\<close>

text \<open>A head has a major type and an argument in the shortest form.\<close>

definition put_head :: "nat \<Rightarrow> nat \<Rightarrow> bytes" where
  "put_head major n =
     (if n < 24 then [word_of_nat (major * 32 + n)]
      else if n < 2 ^ 8 then word_of_nat (major * 32 + 24) # be_bytes 1 n
      else if n < 2 ^ 16 then word_of_nat (major * 32 + 25) # be_bytes 2 n
      else if n < 2 ^ 32 then word_of_nat (major * 32 + 26) # be_bytes 4 n
      else word_of_nat (major * 32 + 27) # be_bytes 8 n)"

definition get_argument :: "nat \<Rightarrow> bytes \<Rightarrow> (nat \<times> bytes) option" where
  "get_argument k bs = (if length bs < k then None else Some (be_value (take k bs), drop k bs))"

definition get_head :: "nat \<Rightarrow> bytes \<Rightarrow> (nat \<times> bytes) option" where
  "get_head major bs =
     (case bs of
        [] \<Rightarrow> None
      | b # rest \<Rightarrow>
          let info = unat b mod 32
          in if unat b div 32 \<noteq> major then None
             else if info < 24 then Some (info, rest)
             else if info = 24 then get_argument 1 rest
             else if info = 25 then get_argument 2 rest
             else if info = 26 then get_argument 4 rest
             else if info = 27 then get_argument 8 rest
             else None)"

definition get_uint :: "nat \<Rightarrow> bytes \<Rightarrow> (nat \<times> bytes) option" where
  "get_uint bound bs =
     (case get_head 0 bs of Some (n, rest) \<Rightarrow> if n < bound then Some (n, rest) else None | None \<Rightarrow> None)"

definition get_string :: "nat \<Rightarrow> bytes \<Rightarrow> (bytes \<times> bytes) option" where
  "get_string major bs =
     (case get_head major bs of
        Some (n, rest) \<Rightarrow> if length rest < n then None else Some (take n rest, drop n rest)
      | None \<Rightarrow> None)"

definition rfc8949 :: minicbor where
  "rfc8949 =
     \<lparr>enc_array = put_head 4,
      enc_u8 = (\<lambda>x. put_head 0 (unat x)), enc_u32 = (\<lambda>x. put_head 0 (unat x)),
      enc_u64 = (\<lambda>x. put_head 0 (unat x)),
      enc_bytes = (\<lambda>b. put_head 2 (length b) @ b), enc_str = (\<lambda>b. put_head 3 (length b) @ b),
      dec_array = (\<lambda>bs. map_option (apfst Some) (get_head 4 bs)),
      dec_u8 = (\<lambda>bs. map_option (apfst word_of_nat) (get_uint (2 ^ 8) bs)),
      dec_u32 = (\<lambda>bs. map_option (apfst word_of_nat) (get_uint (2 ^ 32) bs)),
      dec_u64 = (\<lambda>bs. map_option (apfst word_of_nat) (get_uint (2 ^ 64) bs)),
      dec_bytes = get_string 2, dec_str = get_string 3\<rparr>"

lemma get_argument_put: "n < 256 ^ k \<Longrightarrow> get_argument k (be_bytes k n @ rest) = Some (n, rest)"
  by (simp add: get_argument_def be_value_bytes)

lemma get_head_put:
  assumes "major < 8" "n < 2 ^ 64"
  shows "get_head major (put_head major n @ rest) = Some (n, rest)"
proof -
  have head: "unat (word_of_nat (major * 32 + i) :: u8) = major * 32 + i" if "i < 32" for i
    using assms(1) that by (intro unat_u8_of_nat) simp
  then have parts: "unat (word_of_nat (major * 32 + i) :: u8) div 32 = major"
      "unat (word_of_nat (major * 32 + i) :: u8) mod 32 = i" if "i < 32" for i
    using that by simp_all
  consider "n < 24" | "24 \<le> n" "n < 2 ^ 8" | "2 ^ 8 \<le> n" "n < 2 ^ 16" | "2 ^ 16 \<le> n" "n < 2 ^ 32" | "2 ^ 32 \<le> n"
    by linarith
  then show ?thesis
  proof cases
    case 1
    then show ?thesis using parts [of n] by (simp add: put_head_def get_head_def Let_def)
  next
    case 2
    then show ?thesis
      using parts [of 24] get_argument_put [of n 1 rest]
      by (simp add: put_head_def get_head_def Let_def del: be_bytes.simps)
  next
    case 3
    then show ?thesis
      using parts [of 25] get_argument_put [of n 2 rest]
      by (simp add: put_head_def get_head_def Let_def del: be_bytes.simps)
  next
    case 4
    then show ?thesis
      using parts [of 26] get_argument_put [of n 4 rest]
      by (simp add: put_head_def get_head_def Let_def del: be_bytes.simps)
  next
    case 5
    then show ?thesis
      using parts [of 27] get_argument_put [of n 8 rest] assms(2)
      by (simp add: put_head_def get_head_def Let_def del: be_bytes.simps)
  qed
qed

lemma length_put_head: "length (put_head major n) \<le> 9"
  by (simp add: put_head_def)

lemma get_uint_put: "n < bound \<Longrightarrow> bound \<le> 2 ^ 64 \<Longrightarrow> get_uint bound (put_head 0 n @ rest) = Some (n, rest)"
  by (simp add: get_uint_def get_head_put)

lemma get_string_put:
  "major < 8 \<Longrightarrow> length b < 2 ^ 64 \<Longrightarrow> get_string major (put_head major (length b) @ b @ rest) = Some (b, rest)"
  by (simp add: get_string_def get_head_put)

lemma rfc8949_correct: "minicbor_correct rfc8949"
proof -
  have "unat (x :: u8) < 2 ^ 8" "unat (y :: u32) < 2 ^ 32" "unat (z :: u64) < 2 ^ 64" for x y z
    using unsigned_less [of x, where 'a = nat] unsigned_less [of y, where 'a = nat]
      unsigned_less [of z, where 'a = nat] by simp_all
  then show ?thesis
    using length_put_head
    by (auto simp: minicbor_correct_def rfc8949_def get_head_put get_uint_put get_string_put)
qed

interpretation rfc: cbor rfc8949
  by unfold_locales (rule rfc8949_correct)

end
