(* ===== verification/Envelope.thy ===== *)
theory Envelope
  imports Policy Wire Cbor
begin

text \<open>
  The signed envelope of crates/leelo-envelope/src/lib.rs: descriptors, bodies, their deterministic CBOR
  encoding and strict decoding, signing and authentication. The parameters are the primitives \<open>P\<close>, the
  VOPRF library \<open>V\<close> (for public-key validation), the CBOR codec \<open>C\<close> and Ed25519 \<open>E\<close>. The decoder state is
  the input that remains, so \<open>d.position() != raw.len()\<close> reads: something remains.

  Fixed-size arrays are byte lists; \<open>wf_descriptor\<close> and \<open>wf_body\<close> state their lengths and that the policy
  value was made by \<open>ProductionPolicy::new\<close>, which Rust's types guarantee.
\<close>

section \<open>Data\<close>

definition VERSION :: u8 where [simp]: "VERSION = 1"
definition SUITE :: u8 where [simp]: "SUITE = 1"
definition MAX_ENVELOPE :: nat where [simp]: "MAX_ENVELOPE = 64 * 1024"
definition MAX_TPM_BLOB :: nat where [simp]: "MAX_TPM_BLOB = 4096"
definition SIGN_DOMAIN :: bytes where "SIGN_DOMAIN = ascii ''leelo/v1/envelope'' @ [0]"

datatype envelope_error =
    TooLarge | Malformed | NonCanonical | Unsupported | InvalidPolicy | InvalidProvider | InvalidSignature

record network_binding =
  nb_node_id :: u8
  nb_provider_id :: bytes
  nb_key_id :: bytes
  nb_public_key :: bytes
  nb_input_seed :: bytes

record descriptor =
  d_binding_id :: bytes
  d_volume_uuid :: bytes
  d_slot :: u8
  d_generation :: u64
  d_policy :: production_policy
  d_networks :: "network_binding list"
  d_tpm_pcr_mask :: u32
  d_tpm_pcr_digest :: bytes

record tpm_blob =
  tpm_public :: bytes
  tpm_private :: bytes
  tpm_name :: bytes
  tpm_parent_name :: bytes

record wrapped_leaf =
  wl_node_id :: u8
  wl_value :: wrapped_key

record envelope_body =
  eb_descriptor :: descriptor
  eb_tpm :: tpm_blob
  eb_leaves :: "wrapped_leaf list"
  eb_payload :: wrapped_key

record authenticated_envelope =
  ae_body :: envelope_body
  ae_context :: bytes

section \<open>Decoder helpers\<close>

definition malformed :: "'a option \<Rightarrow> ('a, envelope_error) result" where
  "malformed r = ok_or Malformed r"

definition arr :: "minicbor \<Rightarrow> nat \<Rightarrow> bytes \<Rightarrow> (unit \<times> bytes, envelope_error) result" where
  "arr C expected bs =
     and_then (malformed (dec_array C bs)) (\<lambda>(n, bs').
       if n \<noteq> Some expected then Err Malformed else Ok ((), bs'))"

definition bytes_exact :: "minicbor \<Rightarrow> nat \<Rightarrow> bytes \<Rightarrow> (bytes \<times> bytes, envelope_error) result" where
  "bytes_exact C n bs =
     and_then (malformed (dec_bytes C bs)) (\<lambda>(b, bs').
       if length b \<noteq> n then Err Malformed else Ok (b, bs'))"

definition bounded_bytes :: "minicbor \<Rightarrow> nat \<Rightarrow> bytes \<Rightarrow> (bytes \<times> bytes, envelope_error) result" where
  "bounded_bytes C limit bs =
     and_then (malformed (dec_bytes C bs)) (\<lambda>(b, bs').
       if b = [] \<or> length b > limit then Err TooLarge else Ok (b, bs'))"

definition bounded_array :: "minicbor \<Rightarrow> nat \<Rightarrow> bytes \<Rightarrow> (nat \<times> bytes, envelope_error) result" where
  "bounded_array C limit bs =
     and_then (malformed (dec_array C bs)) (\<lambda>(len, bs').
       and_then (malformed len) (\<lambda>n.
         if n > limit then Err TooLarge else Ok (n, bs')))"

section \<open>Policy trees\<close>

primrec put_node :: "minicbor \<Rightarrow> network_node \<Rightarrow> bytes" where
  "put_node C (Network_Leaf i provider_id) =
     enc_array C 3 @ enc_u8 C 0 @ enc_u8 C i @ enc_bytes C provider_id"
| "put_node C (Network_Threshold i required children) =
     enc_array C 4 @ enc_u8 C 1 @ enc_u8 C i @ enc_u8 C required @ enc_array C (length children)
     @ concat (map (put_node C) children)"

function get_node :: "minicbor \<Rightarrow> nat \<Rightarrow> nat \<Rightarrow> bytes \<Rightarrow> (network_node \<times> nat \<times> bytes, envelope_error) result"
  and get_nodes :: "minicbor \<Rightarrow> nat \<Rightarrow> nat \<Rightarrow> nat \<Rightarrow> bytes
       \<Rightarrow> (network_node list \<times> nat \<times> bytes, envelope_error) result" where
  "get_node C depth visited bs =
     (if depth > 4 \<or> visited \<ge> 30 then Err TooLarge
      else and_then (malformed (dec_array C bs)) (\<lambda>(len, bs1).
        and_then (malformed len) (\<lambda>n.
          and_then (malformed (dec_u8 C bs1)) (\<lambda>(tag, bs2).
            and_then (malformed (dec_u8 C bs2)) (\<lambda>(i, bs3).
              if n = 3 \<and> tag = 0 then
                and_then (bytes_exact C 32 bs3) (\<lambda>(provider_id, bs4).
                  Ok (Network_Leaf i provider_id, visited + 1, bs4))
              else if n = 4 \<and> tag = 1 then
                and_then (malformed (dec_u8 C bs3)) (\<lambda>(required, bs4).
                  and_then (bounded_array C 30 bs4) (\<lambda>(count, bs5).
                    and_then (get_nodes C (depth + 1) (visited + 1) count bs5) (\<lambda>(children, visited', bs6).
                      Ok (Network_Threshold i required children, visited', bs6))))
              else Err Malformed)))))"
| "get_nodes C depth visited 0 bs = Ok ([], visited, bs)"
| "get_nodes C depth visited (Suc count) bs =
     and_then (get_node C depth visited bs) (\<lambda>(child, visited', bs').
       and_then (get_nodes C depth visited' count bs') (\<lambda>(children, visited'', bs'').
         Ok (child # children, visited'', bs'')))"
  by pat_completeness auto
termination
  by (relation "measures [case_sum (\<lambda>(C, depth, _). 2 * (5 - depth)) (\<lambda>(C, depth, _). 2 * (5 - depth) + 1),
        case_sum (\<lambda>_. 0) (\<lambda>(C, depth, visited, count, _). count)]") auto

declare get_node.simps [simp del]

section \<open>Descriptors\<close>

fun check_bindings :: "primitives \<Rightarrow> ('p, 'f, 'srv, 'cli, 'st) voprf_lib
      \<Rightarrow> (leaf_entry \<times> network_binding) list \<Rightarrow> (unit, envelope_error) result" where
  "check_bindings P V [] = Ok ()"
| "check_bindings P V (((i, provider_id), binding) # rest) =
     (if i \<noteq> nb_node_id binding \<or> provider_id \<noteq> nb_provider_id binding
         \<or> nb_key_id binding \<noteq> key_id P (nb_public_key binding)
      then Err InvalidProvider
      else and_then (map_err (\<lambda>_. InvalidProvider) (server_public_key_from_bytes V (nb_public_key binding)))
             (\<lambda>_. check_bindings P V rest))"

fun check_distinct_keys :: "network_binding list \<Rightarrow> network_binding list \<Rightarrow> (unit, envelope_error) result" where
  "check_distinct_keys earlier [] = Ok ()"
| "check_distinct_keys earlier (binding # rest) =
     (if \<exists>other\<in>set earlier. nb_key_id other = nb_key_id binding \<or> nb_public_key other = nb_public_key binding
      then Err InvalidProvider
      else check_distinct_keys (earlier @ [binding]) rest)"

definition validate_descriptor :: "primitives \<Rightarrow> ('p, 'f, 'srv, 'cli, 'st) voprf_lib \<Rightarrow> descriptor
      \<Rightarrow> (unit, envelope_error) result" where
  "validate_descriptor P V d =
     (if d_slot d \<ge> 32 \<or> d_generation d = 0 \<or> d_binding_id d = replicate 32 0
         \<or> d_volume_uuid d = replicate 16 0 \<or> d_tpm_pcr_mask d = 0
         \<or> (d_tpm_pcr_mask d) AND 0xff000000 \<noteq> 0
      then Err InvalidPolicy
      else let leaves = network_leaves (d_policy d)
           in if length leaves \<noteq> length (d_networks d) then Err InvalidProvider
              else and_then (check_bindings P V (zip leaves (d_networks d))) (\<lambda>_.
                     check_distinct_keys [] (d_networks d)))"

definition put_binding :: "minicbor \<Rightarrow> network_binding \<Rightarrow> bytes" where
  "put_binding C n =
     enc_array C 5 @ enc_u8 C (nb_node_id n) @ enc_bytes C (nb_provider_id n) @ enc_bytes C (nb_key_id n)
     @ enc_bytes C (nb_public_key n) @ enc_bytes C (nb_input_seed n)"

definition mode_byte :: "mode \<Rightarrow> u8" where
  "mode_byte m = (case m of NetworkBound \<Rightarrow> 0 | Attested \<Rightarrow> 1)"

definition descriptor_bytes :: "primitives \<Rightarrow> ('p, 'f, 'srv, 'cli, 'st) voprf_lib \<Rightarrow> minicbor \<Rightarrow> descriptor
      \<Rightarrow> (bytes, envelope_error) result" where
  "descriptor_bytes P V C d =
     and_then (validate_descriptor P V d) (\<lambda>_. Ok (
       enc_array C 13 @ enc_u8 C VERSION @ enc_u8 C SUITE @ enc_bytes C (d_binding_id d)
       @ enc_bytes C (d_volume_uuid d) @ enc_u8 C (d_slot d) @ enc_u64 C (d_generation d)
       @ enc_u8 C (mode_byte (policy_mode (d_policy d))) @ enc_u8 C (policy_tpm_node_id (d_policy d))
       @ put_node C (policy_network (d_policy d))
       @ enc_array C (length (d_networks d)) @ concat (map (put_binding C) (d_networks d))
       @ enc_u32 C (d_tpm_pcr_mask d) @ enc_bytes C (d_tpm_pcr_digest d)
       @ enc_str C (ascii ''luks2-slot'')))"

definition get_binding :: "minicbor \<Rightarrow> bytes \<Rightarrow> (network_binding \<times> bytes, envelope_error) result" where
  "get_binding C bs =
     and_then (arr C 5 bs) (\<lambda>(_, bs).
     and_then (malformed (dec_u8 C bs)) (\<lambda>(i, bs).
     and_then (bytes_exact C 32 bs) (\<lambda>(provider_id, bs).
     and_then (bytes_exact C 32 bs) (\<lambda>(kid, bs).
     and_then (bytes_exact C 49 bs) (\<lambda>(public_key, bs).
     and_then (bytes_exact C 32 bs) (\<lambda>(input_seed, bs).
       Ok (\<lparr>nb_node_id = i, nb_provider_id = provider_id, nb_key_id = kid,
            nb_public_key = public_key, nb_input_seed = input_seed\<rparr>, bs)))))))"

definition mode_of_byte :: "u8 \<Rightarrow> (mode, envelope_error) result" where
  "mode_of_byte b = (if b = 0 then Ok NetworkBound else if b = 1 then Ok Attested else Err Unsupported)"

definition get_versions :: "minicbor \<Rightarrow> bytes \<Rightarrow> (unit \<times> bytes, envelope_error) result" where
  "get_versions C bs =
     and_then (malformed (dec_u8 C bs)) (\<lambda>(version, bs).
       if version \<noteq> VERSION then Err Unsupported
       else and_then (malformed (dec_u8 C bs)) (\<lambda>(suite, bs).
              if suite \<noteq> SUITE then Err Unsupported else Ok ((), bs)))"

definition read_descriptor :: "primitives \<Rightarrow> ('p, 'f, 'srv, 'cli, 'st) voprf_lib \<Rightarrow> minicbor \<Rightarrow> bytes
      \<Rightarrow> (descriptor, envelope_error) result" where
  "read_descriptor P V C raw =
     and_then (arr C 13 raw) (\<lambda>(_, bs).
     and_then (get_versions C bs) (\<lambda>(_, bs).
     and_then (bytes_exact C 32 bs) (\<lambda>(binding_id, bs).
     and_then (bytes_exact C 16 bs) (\<lambda>(volume_uuid, bs).
     and_then (malformed (dec_u8 C bs)) (\<lambda>(slot, bs).
     and_then (malformed (dec_u64 C bs)) (\<lambda>(generation, bs).
     and_then (malformed (dec_u8 C bs)) (\<lambda>(mode_b, bs).
     and_then (mode_of_byte mode_b) (\<lambda>mode.
     and_then (malformed (dec_u8 C bs)) (\<lambda>(tpm_id, bs).
     and_then (get_node C 1 0 bs) (\<lambda>(network, _, bs).
     and_then (map_err (\<lambda>_. InvalidPolicy) (production_policy_new mode tpm_id network)) (\<lambda>policy.
     and_then (bounded_array C 30 bs) (\<lambda>(count, bs).
     and_then (get_many (get_binding C) count bs) (\<lambda>(networks, bs).
     and_then (malformed (dec_u32 C bs)) (\<lambda>(mask, bs).
     and_then (bytes_exact C 32 bs) (\<lambda>(digest, bs).
     and_then (malformed (dec_str C bs)) (\<lambda>(tail, bs).
       if tail \<noteq> ascii ''luks2-slot'' \<or> bs \<noteq> [] then Err Malformed
       else let desc = \<lparr>d_binding_id = binding_id, d_volume_uuid = volume_uuid, d_slot = slot,
                d_generation = generation, d_policy = policy, d_networks = networks,
                d_tpm_pcr_mask = mask, d_tpm_pcr_digest = digest\<rparr>
            in and_then (descriptor_bytes P V C desc) (\<lambda>encoded.
                 if encoded \<noteq> raw then Err NonCanonical else Ok desc)))))))))))))))))"

definition context_hash :: "primitives \<Rightarrow> ('p, 'f, 'srv, 'cli, 'st) voprf_lib \<Rightarrow> minicbor \<Rightarrow> descriptor
      \<Rightarrow> (bytes, envelope_error) result" where
  "context_hash P V C d =
     and_then (descriptor_bytes P V C d) (\<lambda>encoded.
       Ok (sha384 P (ascii ''leelo/v1/context'' @ [0] @ encoded)))"

definition leaf_context :: "bytes \<Rightarrow> u8 \<Rightarrow> bytes" where
  "leaf_context context i = ascii ''leelo/v1/leaf'' @ [0] @ context @ [i]"

definition network_input :: "descriptor \<Rightarrow> network_binding \<Rightarrow> bytes" where
  "network_input d n =
     ascii ''leelo/v1/network-input'' @ [0] @ d_binding_id d @ [nb_node_id n] @ nb_input_seed n"

section \<open>Bodies\<close>

definition put_wrapped :: "minicbor \<Rightarrow> wrapped_key \<Rightarrow> bytes" where
  "put_wrapped C w = enc_array C 2 @ enc_bytes C (wk_nonce w) @ enc_bytes C (wk_ciphertext w)"

definition get_wrapped :: "minicbor \<Rightarrow> bytes \<Rightarrow> (wrapped_key \<times> bytes, envelope_error) result" where
  "get_wrapped C bs =
     and_then (arr C 2 bs) (\<lambda>(_, bs).
     and_then (bytes_exact C 12 bs) (\<lambda>(nonce, bs).
     and_then (bytes_exact C 48 bs) (\<lambda>(ciphertext, bs).
       Ok (\<lparr>wk_nonce = nonce, wk_ciphertext = ciphertext\<rparr>, bs))))"

definition put_leaf :: "minicbor \<Rightarrow> wrapped_leaf \<Rightarrow> bytes" where
  "put_leaf C leaf = enc_array C 2 @ enc_u8 C (wl_node_id leaf) @ put_wrapped C (wl_value leaf)"

definition get_leaf :: "minicbor \<Rightarrow> bytes \<Rightarrow> (wrapped_leaf \<times> bytes, envelope_error) result" where
  "get_leaf C bs =
     and_then (arr C 2 bs) (\<lambda>(_, bs).
     and_then (malformed (dec_u8 C bs)) (\<lambda>(i, bs).
     and_then (get_wrapped C bs) (\<lambda>(wrapped, bs).
       Ok (\<lparr>wl_node_id = i, wl_value = wrapped\<rparr>, bs))))"

definition tpm_in_bounds :: "tpm_blob \<Rightarrow> bool" where
  "tpm_in_bounds t \<longleftrightarrow>
     \<not> (tpm_public t = [] \<or> length (tpm_public t) > MAX_TPM_BLOB
        \<or> tpm_private t = [] \<or> length (tpm_private t) > MAX_TPM_BLOB
        \<or> tpm_name t = [] \<or> length (tpm_name t) > 68
        \<or> tpm_parent_name t = [] \<or> length (tpm_parent_name t) > 68)"

definition put_body :: "minicbor \<Rightarrow> bytes \<Rightarrow> envelope_body \<Rightarrow> bytes" where
  "put_body C desc b =
     enc_array C 4 @ enc_bytes C desc @ enc_array C 4
     @ enc_bytes C (tpm_public (eb_tpm b)) @ enc_bytes C (tpm_private (eb_tpm b))
     @ enc_bytes C (tpm_name (eb_tpm b)) @ enc_bytes C (tpm_parent_name (eb_tpm b))
     @ enc_array C (length (eb_leaves b)) @ concat (map (put_leaf C) (eb_leaves b))
     @ put_wrapped C (eb_payload b)"

definition body_bytes :: "primitives \<Rightarrow> ('p, 'f, 'srv, 'cli, 'st) voprf_lib \<Rightarrow> minicbor \<Rightarrow> envelope_body
      \<Rightarrow> (bytes, envelope_error) result" where
  "body_bytes P V C b =
     and_then (descriptor_bytes P V C (eb_descriptor b)) (\<lambda>desc.
       if \<not> tpm_in_bounds (eb_tpm b) then Err TooLarge
       else let expected = policy_tpm_node_id (d_policy (eb_descriptor b))
                  # map nb_node_id (d_networks (eb_descriptor b))
            in if map wl_node_id (eb_leaves b) \<noteq> expected then Err Malformed
               else let result = put_body C desc b
                    in if length result > MAX_ENVELOPE - 128 then Err TooLarge else Ok result)"

definition get_tpm :: "minicbor \<Rightarrow> bytes \<Rightarrow> (tpm_blob \<times> bytes, envelope_error) result" where
  "get_tpm C bs =
     and_then (arr C 4 bs) (\<lambda>(_, bs).
     and_then (bounded_bytes C MAX_TPM_BLOB bs) (\<lambda>(public, bs).
     and_then (bounded_bytes C MAX_TPM_BLOB bs) (\<lambda>(private, bs).
     and_then (bounded_bytes C 68 bs) (\<lambda>(name, bs).
     and_then (bounded_bytes C 68 bs) (\<lambda>(parent_name, bs).
       Ok (\<lparr>tpm_public = public, tpm_private = private, tpm_name = name,
            tpm_parent_name = parent_name\<rparr>, bs))))))"

definition read_body :: "primitives \<Rightarrow> ('p, 'f, 'srv, 'cli, 'st) voprf_lib \<Rightarrow> minicbor \<Rightarrow> bytes
      \<Rightarrow> (envelope_body, envelope_error) result" where
  "read_body P V C raw =
     and_then (arr C 4 raw) (\<lambda>(_, bs).
     and_then (malformed (dec_bytes C bs)) (\<lambda>(desc, bs).
     and_then (read_descriptor P V C desc) (\<lambda>descr.
     and_then (get_tpm C bs) (\<lambda>(tpm, bs).
     and_then (bounded_array C 31 bs) (\<lambda>(count, bs).
     and_then (get_many (get_leaf C) count bs) (\<lambda>(leaves, bs).
     and_then (get_wrapped C bs) (\<lambda>(payload, bs).
       if bs \<noteq> [] then Err Malformed
       else let body = \<lparr>eb_descriptor = descr, eb_tpm = tpm, eb_leaves = leaves, eb_payload = payload\<rparr>
            in and_then (body_bytes P V C body) (\<lambda>encoded.
                 if encoded \<noteq> raw then Err NonCanonical else Ok body))))))))"

section \<open>Signing and authentication\<close>

definition sign_input :: "bytes \<Rightarrow> bytes" where
  "sign_input body = SIGN_DOMAIN @ body"

definition put_signed :: "minicbor \<Rightarrow> bytes \<Rightarrow> bytes \<Rightarrow> bytes" where
  "put_signed C body signature = enc_array C 2 @ enc_bytes C body @ enc_bytes C signature"

definition sign :: "primitives \<Rightarrow> ('p, 'f, 'srv, 'cli, 'st) voprf_lib \<Rightarrow> minicbor \<Rightarrow> 'k ed25519
      \<Rightarrow> envelope_body \<Rightarrow> 'k \<Rightarrow> (bytes, envelope_error) result" where
  "sign P V C E body key =
     and_then (body_bytes P V C body) (\<lambda>encoded.
     and_then (map_err (\<lambda>_. InvalidSignature) (signing_key_sign E key (sign_input encoded))) (\<lambda>signature.
       Ok (put_signed C encoded signature)))"

definition authenticate :: "primitives \<Rightarrow> ('p, 'f, 'srv, 'cli, 'st) voprf_lib \<Rightarrow> minicbor \<Rightarrow> 'k ed25519
      \<Rightarrow> bytes \<Rightarrow> bytes \<Rightarrow> (authenticated_envelope, envelope_error) result" where
  "authenticate P V C E raw trusted_key =
     (if length raw > MAX_ENVELOPE then Err TooLarge
      else and_then (arr C 2 raw) (\<lambda>(_, bs).
        and_then (malformed (dec_bytes C bs)) (\<lambda>(raw_body, bs).
        and_then (bytes_exact C 64 bs) (\<lambda>(signature, bs).
          if bs \<noteq> [] then Err Malformed
          else and_then (map_err (\<lambda>_. InvalidSignature)
                   (verify E trusted_key (sign_input raw_body) signature)) (\<lambda>_.
                 if put_signed C raw_body signature \<noteq> raw then Err NonCanonical
                 else and_then (read_body P V C raw_body) (\<lambda>body.
                        and_then (context_hash P V C (eb_descriptor body)) (\<lambda>context.
                          Ok \<lparr>ae_body = body, ae_context = context\<rparr>)))))))"

section \<open>Well-formed values\<close>

definition wf_binding :: "network_binding \<Rightarrow> bool" where
  "wf_binding n \<longleftrightarrow> length (nb_provider_id n) = 32 \<and> length (nb_key_id n) = 32
     \<and> length (nb_public_key n) = 49 \<and> length (nb_input_seed n) = 32"

definition wf_policy :: "production_policy \<Rightarrow> bool" where
  "wf_policy p \<longleftrightarrow> wf_node (policy_network p)
     \<and> production_policy_new (policy_mode p) (policy_tpm_node_id p) (policy_network p) = Ok p"

definition wf_descriptor :: "descriptor \<Rightarrow> bool" where
  "wf_descriptor d \<longleftrightarrow> length (d_binding_id d) = 32 \<and> length (d_volume_uuid d) = 16
     \<and> length (d_tpm_pcr_digest d) = 32 \<and> wf_policy (d_policy d) \<and> (\<forall>n\<in>set (d_networks d). wf_binding n)"

definition wf_wrapped :: "wrapped_key \<Rightarrow> bool" where
  "wf_wrapped w \<longleftrightarrow> length (wk_nonce w) = 12 \<and> length (wk_ciphertext w) = 48"

definition wf_leaf :: "wrapped_leaf \<Rightarrow> bool" where
  "wf_leaf l \<longleftrightarrow> wf_wrapped (wl_value l)"

definition wf_body :: "envelope_body \<Rightarrow> bool" where
  "wf_body b \<longleftrightarrow> wf_descriptor (eb_descriptor b) \<and> (\<forall>l\<in>set (eb_leaves b). wf_leaf l)
     \<and> wf_wrapped (eb_payload b)"

lemma leaves_le_nodes: "length (tree_leaves node) \<le> nodes node"
proof (induction node)
  case (Network_Threshold i r cs)
  then have "length (forest_entries cs) \<le> forest_size cs" by (induction cs) force+
  then show ?case by simp
qed simp

lemma wf_policy_bounds:
  assumes "wf_policy p"
  shows "height (policy_network p) \<le> 3" "nodes (policy_network p) \<le> 29" "wf_node (policy_network p)"
    "network_leaves p = tree_leaves (policy_network p)" "length (network_leaves p) \<le> 29"
proof -
  have "wf_node (policy_network p)" "production_policy_new (policy_mode p) (policy_tpm_node_id p) (policy_network p) = Ok p"
    using assms by (simp_all add: wf_policy_def)
  note facts = new_policy [OF this(2,1)]
  show "height (policy_network p) \<le> 3" "nodes (policy_network p) \<le> 29" "wf_node (policy_network p)"
      "network_leaves p = tree_leaves (policy_network p)"
    using facts(1,5) assms by (simp_all add: admissible_def network_leaves_def wf_policy_def)
  then show "length (network_leaves p) \<le> 29"
    using leaves_le_nodes [of "policy_network p"] by simp
qed

section \<open>Round trips\<close>

lemma record_collapse [simp]:
  "\<lparr>d_binding_id = d_binding_id d, d_volume_uuid = d_volume_uuid d, d_slot = d_slot d,
    d_generation = d_generation d, d_policy = d_policy d, d_networks = d_networks d,
    d_tpm_pcr_mask = d_tpm_pcr_mask d, d_tpm_pcr_digest = d_tpm_pcr_digest d\<rparr> = d"
  "\<lparr>tpm_public = tpm_public t, tpm_private = tpm_private t, tpm_name = tpm_name t,
    tpm_parent_name = tpm_parent_name t\<rparr> = t"
  "\<lparr>eb_descriptor = eb_descriptor b, eb_tpm = eb_tpm b, eb_leaves = eb_leaves b, eb_payload = eb_payload b\<rparr> = b"
  by simp_all

lemma mode_byte_inverse [simp]: "mode_of_byte (mode_byte m) = Ok m"
  by (cases m) (simp_all add: mode_of_byte_def mode_byte_def)

context cbor
begin

lemma get_basic [simp]:
  "n < 2 ^ 64 \<Longrightarrow> arr C n (enc_array C n @ rest) = Ok ((), rest)"
  "length b = n \<Longrightarrow> n < 2 ^ 64 \<Longrightarrow> bytes_exact C n (enc_bytes C b @ rest) = Ok (b, rest)"
  "b \<noteq> [] \<Longrightarrow> length b \<le> limit \<Longrightarrow> limit < 2 ^ 64 \<Longrightarrow> bounded_bytes C limit (enc_bytes C b @ rest) = Ok (b, rest)"
  "n \<le> limit \<Longrightarrow> limit < 2 ^ 64 \<Longrightarrow> bounded_array C limit (enc_array C n @ rest) = Ok (n, rest)"
  by (simp_all add: arr_def bytes_exact_def bounded_bytes_def bounded_array_def malformed_def)

lemma get_nodes_put:
  assumes "\<And>c visited rest. c \<in> set cs \<Longrightarrow> visited + nodes c \<le> 30 \<Longrightarrow>
      get_node C depth visited (put_node C c @ rest) = Ok (c, visited + nodes c, rest)"
    and "visited + forest_size cs \<le> 30"
  shows "get_nodes C depth visited (length cs) (concat (map (put_node C) cs) @ rest) =
    Ok (cs, visited + forest_size cs, rest)"
  using assms
proof (induction cs arbitrary: visited)
  case (Cons c cs)
  have "get_node C depth visited (put_node C c @ concat (map (put_node C) cs) @ rest) =
      Ok (c, visited + nodes c, concat (map (put_node C) cs) @ rest)"
    using Cons.prems by simp
  moreover have "get_nodes C depth (visited + nodes c) (length cs) (concat (map (put_node C) cs) @ rest) =
      Ok (cs, visited + nodes c + forest_size cs, rest)"
    using Cons.prems by (intro Cons.IH) simp_all
  ultimately show ?case by (simp add: add.assoc)
qed simp

lemma get_node_put:
  "wf_node node \<Longrightarrow> depth + height node \<le> 5 \<Longrightarrow> visited + nodes node \<le> 30 \<Longrightarrow>
     get_node C depth visited (put_node C node @ rest) = Ok (node, visited + nodes node, rest)"
proof (induction node arbitrary: depth visited rest)
  case (Network_Leaf i p)
  then show ?case by (simp add: get_node.simps malformed_def)
next
  case (Network_Threshold i r cs)
  have high: "height c \<le> 5 - Suc depth" if "c \<in> set cs" for c
    using Network_Threshold.prems(2) that foldr_max_le [of cs "5 - Suc depth"] by auto
  have "length cs \<le> 30" using Network_Threshold.prems(3) length_le_forest_size [of cs] by simp
  moreover have "get_nodes C (depth + 1) (visited + 1) (length cs) (concat (map (put_node C) cs) @ rest) =
      Ok (cs, visited + 1 + forest_size cs, rest)"
    using Network_Threshold.prems Network_Threshold.IH high
    by (intro get_nodes_put) (fastforce intro!: Network_Threshold.IH)+
  ultimately show ?case
    using Network_Threshold.prems by (simp add: get_node.simps malformed_def)
qed

end

sublocale cbor \<subseteq> wrapped: item_codec "put_wrapped C" "get_wrapped C" wf_wrapped
  by unfold_locales (simp add: put_wrapped_def get_wrapped_def wf_wrapped_def)

sublocale cbor \<subseteq> leaf: item_codec "put_leaf C" "get_leaf C" wf_leaf
  by unfold_locales (simp add: put_leaf_def get_leaf_def wf_leaf_def malformed_def wrapped.get_put)

sublocale cbor \<subseteq> binding: item_codec "put_binding C" "get_binding C" wf_binding
  by unfold_locales (simp add: put_binding_def get_binding_def wf_binding_def malformed_def)

context cbor
begin

lemma read_descriptor_put:
  assumes "wf_descriptor d" "descriptor_bytes P V C d = Ok raw"
  shows "read_descriptor P V C raw = Ok d"
proof -
  let ?p = "d_policy d"
  have policy: "wf_policy ?p" and lens: "length (d_binding_id d) = 32" "length (d_volume_uuid d) = 16"
      "length (d_tpm_pcr_digest d) = 32" and bindings: "\<forall>n\<in>set (d_networks d). wf_binding n"
    using assms(1) by (simp_all add: wf_descriptor_def)
  note bounds = wf_policy_bounds [OF policy]
  have node: "get_node C 1 0 (put_node C (policy_network ?p) @ rest) =
      Ok (policy_network ?p, nodes (policy_network ?p), rest)" for rest
    using get_node_put [of "policy_network ?p" 1 0 rest] bounds by simp
  have new: "production_policy_new (policy_mode ?p) (policy_tpm_node_id ?p) (policy_network ?p) = Ok ?p"
    using policy by (simp add: wf_policy_def)
  have count: "length (d_networks d) \<le> 30"
    using assms(2) bounds(5)
    by (auto simp: descriptor_bytes_def validate_descriptor_def Let_def result_simps split: if_splits)
  have raw: "raw = enc_array C 13 @ enc_u8 C VERSION @ enc_u8 C SUITE @ enc_bytes C (d_binding_id d)
       @ enc_bytes C (d_volume_uuid d) @ enc_u8 C (d_slot d) @ enc_u64 C (d_generation d)
       @ enc_u8 C (mode_byte (policy_mode ?p)) @ enc_u8 C (policy_tpm_node_id ?p)
       @ put_node C (policy_network ?p)
       @ enc_array C (length (d_networks d)) @ concat (map (put_binding C) (d_networks d))
       @ enc_u32 C (d_tpm_pcr_mask d) @ enc_bytes C (d_tpm_pcr_digest d)
       @ enc_str C (ascii ''luks2-slot'')"
    using assms(2) by (auto simp: descriptor_bytes_def result_simps)
  have tail: "list_all (\<lambda>x. x < 128) (ascii ''luks2-slot'')" by simp
  have "read_descriptor P V C raw = and_then (descriptor_bytes P V C d) (\<lambda>encoded.
      if encoded \<noteq> raw then Err NonCanonical else Ok d)"
    unfolding read_descriptor_def raw
    using lens count node new tail binding.get_many_put [OF bindings]
    by (simp add: malformed_def get_versions_def Let_def del: ascii_simps(1,2))
  then show ?thesis using assms(2) by simp
qed

lemma get_tpm_put:
  assumes "tpm_in_bounds t"
  shows "get_tpm C (enc_array C 4 @ enc_bytes C (tpm_public t) @ enc_bytes C (tpm_private t)
     @ enc_bytes C (tpm_name t) @ enc_bytes C (tpm_parent_name t) @ rest) = Ok (t, rest)"
  using assms by (simp add: get_tpm_def tpm_in_bounds_def)

lemma body_bytes_Ok:
  assumes "body_bytes P V C b = Ok raw"
  obtains desc where "descriptor_bytes P V C (eb_descriptor b) = Ok desc" "tpm_in_bounds (eb_tpm b)"
    "map wl_node_id (eb_leaves b) = policy_tpm_node_id (d_policy (eb_descriptor b))
       # map nb_node_id (d_networks (eb_descriptor b))"
    "raw = put_body C desc b" "length raw \<le> MAX_ENVELOPE - 128" "length desc < 2 ^ 64"
proof -
  obtain desc where desc: "descriptor_bytes P V C (eb_descriptor b) = Ok desc" "tpm_in_bounds (eb_tpm b)"
    "map wl_node_id (eb_leaves b) = policy_tpm_node_id (d_policy (eb_descriptor b))
       # map nb_node_id (d_networks (eb_descriptor b))"
    "raw = put_body C desc b" "length raw \<le> MAX_ENVELOPE - 128"
    using assms by (auto simp: body_bytes_def Let_def result_simps split: if_splits)
  moreover have "length desc \<le> length raw"
    using enc_lengths(2) [of desc] desc(4) by (simp add: put_body_def)
  ultimately show ?thesis using that by simp
qed

lemma networks_bound:
  assumes "wf_descriptor d" "descriptor_bytes P V C d = Ok raw"
  shows "length (d_networks d) \<le> 29"
proof -
  have "length (network_leaves (d_policy d)) \<le> 29"
    using wf_policy_bounds(5) assms(1) by (simp add: wf_descriptor_def)
  then show ?thesis
    using assms(2)
    by (auto simp: descriptor_bytes_def validate_descriptor_def Let_def result_simps split: if_splits)
qed

lemma read_body_put:
  assumes "wf_body b" "body_bytes P V C b = Ok raw"
  shows "read_body P V C raw = Ok b"
proof -
  obtain desc where desc: "descriptor_bytes P V C (eb_descriptor b) = Ok desc" "tpm_in_bounds (eb_tpm b)"
    "map wl_node_id (eb_leaves b) = policy_tpm_node_id (d_policy (eb_descriptor b))
       # map nb_node_id (d_networks (eb_descriptor b))"
    "raw = put_body C desc b" "length desc < 2 ^ 64"
    using body_bytes_Ok [OF assms(2)] by blast
  have wf: "wf_descriptor (eb_descriptor b)" "\<forall>l\<in>set (eb_leaves b). wf_leaf l" "wf_wrapped (eb_payload b)"
    using assms(1) by (simp_all add: wf_body_def)
  have count: "length (eb_leaves b) \<le> 31"
    using arg_cong [OF desc(3), of length] networks_bound [OF wf(1) desc(1)] by simp
  have "read_body P V C raw = and_then (body_bytes P V C b) (\<lambda>encoded.
      if encoded \<noteq> raw then Err NonCanonical else Ok b)"
    unfolding read_body_def desc(4) put_body_def
    using desc(5) read_descriptor_put [OF wf(1) desc(1)] get_tpm_put [OF desc(2)] count
      leaf.get_many_put [OF wf(2)] wrapped.get_put [OF wf(3), of "[]"]
    by (simp add: malformed_def Let_def)
  then show ?thesis using assms(2) by simp
qed

lemma authenticate_sign:
  assumes "wf_body b" "ed25519_correct E" "sign P V C E b key = Ok raw"
  shows "\<exists>context. context_hash P V C (eb_descriptor b) = Ok context
    \<and> authenticate P V C E raw (signing_public_key E key) = Ok \<lparr>ae_body = b, ae_context = context\<rparr>"
proof -
  obtain encoded signature where enc: "body_bytes P V C b = Ok encoded"
      and sig: "signing_key_sign E key (sign_input encoded) = Ok signature"
      and raw: "raw = put_signed C encoded signature"
    using assms(3) by (auto simp: sign_def result_simps)
  obtain desc where desc: "descriptor_bytes P V C (eb_descriptor b) = Ok desc"
      and small: "length encoded \<le> MAX_ENVELOPE - 128"
    using body_bytes_Ok [OF enc] by blast
  have slen: "length signature = 64"
    using sig assms(2) by (auto simp: signing_key_sign_def ed25519_correct_def split: if_splits)
  have "length raw \<le> MAX_ENVELOPE"
    using enc_lengths(1) [of 2] enc_lengths(3) [of encoded] enc_lengths(3) [of signature] small slen
    by (simp add: raw put_signed_def)
  moreover have "bytes_exact C 64 (enc_bytes C signature) = Ok (signature, [])"
    using get_basic(2) [of signature 64 "[]"] slen by simp
  ultimately show ?thesis
    using small slen verify_sign [OF assms(2) sig] read_body_put [OF assms(1) enc] desc raw
    by (auto simp: authenticate_def put_signed_def malformed_def context_hash_def)
qed


text \<open>The encoding of a validated body never reaches the size limit: only oversized TPM values are refused.\<close>

lemma length_concat_le:
  "(\<And>x. x \<in> set xs \<Longrightarrow> length (f x) \<le> n) \<Longrightarrow> length (concat (map f xs)) \<le> n * length xs"
proof (induction xs)
  case (Cons x xs)
  then have "length (f x) \<le> n" "length (concat (map f xs)) \<le> n * length xs" by simp_all
  then show ?case by simp
qed simp

lemma put_node_length: "wf_node node \<Longrightarrow> length (put_node C node) \<le> 68 * nodes node"
proof (induction node)
  case (Network_Leaf i p)
  then show ?case
    using enc_lengths(1) [of 3] enc_lengths(3) [of p] enc_small(1) [of 0] enc_small(1) [of i] by simp
next
  case (Network_Threshold i r cs)
  then have "\<forall>c\<in>set cs. length (put_node C c) \<le> 68 * nodes c" by simp
  then have "length (concat (map (put_node C) cs)) \<le> 68 * sum_list (map nodes cs)" by (induction cs) auto
  then show ?case
    using enc_lengths(1) [of 4] enc_lengths(1) [of "length cs"] enc_small(1) [of 1] enc_small(1) [of i]
      enc_small(1) [of r] by simp
qed

lemma put_binding_length: "wf_binding b \<Longrightarrow> length (put_binding C b) \<le> 199"
  using enc_lengths(1) [of 5] enc_small(1) [of "nb_node_id b"] enc_lengths(3) [of "nb_provider_id b"]
    enc_lengths(3) [of "nb_key_id b"] enc_lengths(3) [of "nb_public_key b"] enc_lengths(3) [of "nb_input_seed b"]
  by (simp add: put_binding_def wf_binding_def)

lemma put_wrapped_length: "wf_wrapped v \<Longrightarrow> length (put_wrapped C v) \<le> 87"
  using enc_lengths(1) [of 2] enc_lengths(3) [of "wk_nonce v"] enc_lengths(3) [of "wk_ciphertext v"]
  by (simp add: put_wrapped_def wf_wrapped_def)

lemma put_leaf_length: "wf_leaf l \<Longrightarrow> length (put_leaf C l) \<le> 105"
  using enc_lengths(1) [of 2] enc_small(1) [of "wl_node_id l"] put_wrapped_length [of "wl_value l"]
  by (simp add: put_leaf_def wf_leaf_def)

lemma descriptor_length:
  assumes "wf_descriptor d" "descriptor_bytes P V C d = Ok desc"
  shows "length desc \<le> 8300"
proof -
  have "length (put_node C (policy_network (d_policy d))) \<le> 68 * 29"
    using put_node_length [of "policy_network (d_policy d)"] wf_policy_bounds(2,3) [of "d_policy d"] assms(1)
    by (fastforce simp: wf_descriptor_def)
  moreover have "length (concat (map (put_binding C) (d_networks d))) \<le> 199 * 29"
    using length_concat_le [of "d_networks d" "put_binding C" 199] put_binding_length assms(1) networks_bound [OF assms]
    by (fastforce simp: wf_descriptor_def)
  ultimately show ?thesis
    using assms enc_lengths(1) [of 13] enc_lengths(1) [of "length (d_networks d)"]
      enc_lengths(3) [of "d_binding_id d"] enc_lengths(3) [of "d_volume_uuid d"] enc_lengths(3) [of "d_tpm_pcr_digest d"]
      enc_small(1) [of VERSION] enc_small(1) [of SUITE] enc_small(1) [of "d_slot d"] enc_small(3) [of "d_generation d"]
      enc_small(1) [of "mode_byte (policy_mode (d_policy d))"] enc_small(1) [of "policy_tpm_node_id (d_policy d)"]
      enc_small(2) [of "d_tpm_pcr_mask d"] enc_small(4) [of "ascii ''luks2-slot''"]
    by (auto simp: descriptor_bytes_def wf_descriptor_def result_simps)
qed

lemma body_bytes_fits:
  assumes "wf_body b" "validate_descriptor P V (eb_descriptor b) = Ok ()" "tpm_in_bounds (eb_tpm b)"
    and "map wl_node_id (eb_leaves b) = policy_tpm_node_id (d_policy (eb_descriptor b))
       # map nb_node_id (d_networks (eb_descriptor b))"
  shows "\<exists>encoded. body_bytes P V C b = Ok encoded \<and> length encoded \<le> 20000"
proof -
  have wf: "wf_descriptor (eb_descriptor b)" using assms(1) by (simp add: wf_body_def)
  obtain desc where desc: "descriptor_bytes P V C (eb_descriptor b) = Ok desc"
    using assms(2) by (simp add: descriptor_bytes_def)
  have "length (eb_leaves b) \<le> 30"
    using arg_cong [OF assms(4), of length] networks_bound [OF wf desc] by simp
  then have "length (concat (map (put_leaf C) (eb_leaves b))) \<le> 105 * 30"
    using length_concat_le [of "eb_leaves b" "put_leaf C" 105] put_leaf_length assms(1) by (fastforce simp: wf_body_def)
  moreover have "length (put_wrapped C (eb_payload b)) \<le> 87"
    using put_wrapped_length assms(1) by (simp add: wf_body_def)
  ultimately have "length (put_body C desc b) \<le> 20000"
    using assms(3) descriptor_length [OF wf desc] enc_lengths(1) [of 4] enc_lengths(1) [of "length (eb_leaves b)"]
      enc_lengths(3) [of desc] enc_lengths(3) [of "tpm_public (eb_tpm b)"] enc_lengths(3) [of "tpm_private (eb_tpm b)"]
      enc_lengths(3) [of "tpm_name (eb_tpm b)"] enc_lengths(3) [of "tpm_parent_name (eb_tpm b)"]
    by (simp add: put_body_def tpm_in_bounds_def)
  then show ?thesis using desc assms(3,4) by (simp add: body_bytes_def Let_def)
qed

lemma sign_fits:
  assumes "wf_body b" "validate_descriptor P V (eb_descriptor b) = Ok ()" "tpm_in_bounds (eb_tpm b)"
    and "map wl_node_id (eb_leaves b) = policy_tpm_node_id (d_policy (eb_descriptor b))
       # map nb_node_id (d_networks (eb_descriptor b))"
  shows "\<exists>raw. sign P V C E b key = Ok raw"
  using body_bytes_fits [OF assms] by (auto simp: sign_def signing_key_sign_def sign_input_def SIGN_DOMAIN_def)

end

section \<open>Strictness of the decoders\<close>

lemma bytes_exact_Ok: "bytes_exact C n bs = Ok (b, rest) \<Longrightarrow> length b = n"
  by (auto simp: bytes_exact_def result_simps split: if_splits)

lemma get_node_OkD:
  assumes "get_node C depth visited bs = Ok (node, visited', rest)"
  shows "depth \<le> 4 \<and> visited < 30 \<and>
    ((\<exists>i p. node = Network_Leaf i p \<and> length p = 32 \<and> visited' = visited + 1)
     \<or> (\<exists>i r cs k bs'. node = Network_Threshold i r cs
          \<and> get_nodes C (depth + 1) (visited + 1) k bs' = Ok (cs, visited', rest)))"
proof -
  have small: "depth \<le> 4" "visited < 30" using assms by (auto simp: get_node.simps split: if_splits)
  then obtain n tag i bs3 where
    "(if n = (3 :: nat) \<and> tag = (0 :: u8) then
        and_then (bytes_exact C 32 bs3) (\<lambda>(provider_id, bs4).
          Ok (Network_Leaf i provider_id, visited + 1, bs4))
      else if n = 4 \<and> tag = 1 then
        and_then (malformed (dec_u8 C bs3)) (\<lambda>(required, bs4).
          and_then (bounded_array C 30 bs4) (\<lambda>(count, bs5).
            and_then (get_nodes C (depth + 1) (visited + 1) count bs5) (\<lambda>(children, visited', bs6).
              Ok (Network_Threshold i required children, visited', bs6))))
      else Err Malformed) = Ok (node, visited', rest)"
    using assms by (auto simp: get_node.simps [of C depth] and_then_Ok_iff)
  then show ?thesis
    using small by (auto simp: and_then_Ok_iff dest: bytes_exact_Ok split: if_splits)
qed

lemma get_nodes_Ok:
  assumes "get_nodes C depth visited count bs = Ok (cs, visited', rest)"
    and "\<And>c v bs v' r. c \<in> set cs \<Longrightarrow> get_node C depth v bs = Ok (c, v', r) \<Longrightarrow>
           wf_node c \<and> depth + height c \<le> 5 \<and> v' = v + nodes c \<and> v' \<le> 30"
  shows "(\<forall>c\<in>set cs. wf_node c \<and> depth + height c \<le> 5)
     \<and> visited' = visited + forest_size cs \<and> (cs \<noteq> [] \<longrightarrow> visited' \<le> 30)"
  using assms
proof (induction cs arbitrary: visited count bs)
  case Nil
  then show ?case by (cases count) (auto simp: and_then_Ok_iff)
next
  case (Cons c cs)
  obtain k where "count = Suc k" using Cons.prems(1) by (cases count) auto
  then obtain v bs1 where c: "get_node C depth visited bs = Ok (c, v, bs1)"
      and cs: "get_nodes C depth v k bs1 = Ok (cs, visited', rest)"
    using Cons.prems(1) by (auto simp: and_then_Ok_iff)
  have first: "wf_node c \<and> depth + height c \<le> 5 \<and> v = visited + nodes c \<and> v \<le> 30"
    using Cons.prems(2) [OF _ c] by simp
  moreover have "(\<forall>c\<in>set cs. wf_node c \<and> depth + height c \<le> 5)
     \<and> visited' = v + forest_size cs \<and> (cs \<noteq> [] \<longrightarrow> visited' \<le> 30)"
    by (rule Cons.IH [OF cs]) (rule Cons.prems(2), simp_all)
  ultimately show ?case by (cases "cs = []") auto
qed

lemma get_node_Ok:
  "get_node C depth visited bs = Ok (node, visited', rest) \<Longrightarrow>
     wf_node node \<and> depth + height node \<le> 5 \<and> visited' = visited + nodes node \<and> visited' \<le> 30"
proof (induction node arbitrary: depth visited bs visited' rest)
  case (Network_Leaf i p)
  then show ?case using get_node_OkD by fastforce
next
  case (Network_Threshold i r cs)
  obtain k bs' where small: "depth \<le> 4" "visited < 30"
      and cs: "get_nodes C (depth + 1) (visited + 1) k bs' = Ok (cs, visited', rest)"
    using get_node_OkD [OF Network_Threshold.prems] by auto
  have sub: "(\<forall>c\<in>set cs. wf_node c \<and> depth + 1 + height c \<le> 5)
     \<and> visited' = visited + 1 + forest_size cs \<and> (cs \<noteq> [] \<longrightarrow> visited' \<le> 30)"
    by (rule get_nodes_Ok [OF cs]) (rule Network_Threshold.IH)
  then have "foldr max (map height cs) 0 \<le> 4 - depth"
    unfolding foldr_max_le by auto
  then show ?case using sub small by (cases "cs = []") auto
qed

lemma get_many_Ok:
  assumes "get_many get n bs = Ok (xs, rest)" "\<And>bs x r. get bs = Ok (x, r) \<Longrightarrow> Q x"
  shows "length xs = n \<and> (\<forall>x\<in>set xs. Q x)"
  using assms(1)
proof (induction n arbitrary: bs xs)
  case (Suc n)
  then obtain x bs1 ys where "get bs = Ok (x, bs1)" "get_many get n bs1 = Ok (ys, rest)" "xs = x # ys"
    by (auto simp: and_then_Ok_iff)
  then show ?case using Suc.IH assms(2) by auto
qed simp

lemma get_binding_Ok: "get_binding C bs = Ok (n, rest) \<Longrightarrow> wf_binding n"
  by (auto simp: get_binding_def and_then_Ok_iff wf_binding_def dest!: bytes_exact_Ok)

lemma get_wrapped_Ok: "get_wrapped C bs = Ok (w, rest) \<Longrightarrow> wf_wrapped w"
  by (auto simp: get_wrapped_def and_then_Ok_iff wf_wrapped_def dest!: bytes_exact_Ok)

lemma get_leaf_Ok: "get_leaf C bs = Ok (l, rest) \<Longrightarrow> wf_leaf l"
  by (auto simp: get_leaf_def and_then_Ok_iff wf_leaf_def dest!: get_wrapped_Ok)

lemma policy_new_wf:
  assumes "production_policy_new m t network = Ok p" "wf_node network"
  shows "wf_policy p"
  using assms new_policy(2) [OF assms] by (simp add: wf_policy_def admitted_def)

lemma read_descriptor_Ok:
  assumes "read_descriptor P V C raw = Ok d"
  shows "wf_descriptor d" "descriptor_bytes P V C d = Ok raw"
proof -
  obtain binding_id volume_uuid slot generation m tpm_id network policy networks mask digest
    bs1 bs2 bs3 bs4 v bs5 count bs6 bs7 bs8 bs9 where
    parts: "bytes_exact C 32 bs1 = Ok (binding_id, bs2)" "bytes_exact C 16 bs2 = Ok (volume_uuid, bs3)"
      "get_node C 1 0 bs4 = Ok (network, v, bs5)" "production_policy_new m tpm_id network = Ok policy"
      "get_many (get_binding C) count bs6 = Ok (networks, bs7)" "bytes_exact C 32 bs8 = Ok (digest, bs9)"
    and d: "d = \<lparr>d_binding_id = binding_id, d_volume_uuid = volume_uuid, d_slot = slot,
                d_generation = generation, d_policy = policy, d_networks = networks,
                d_tpm_pcr_mask = mask, d_tpm_pcr_digest = digest\<rparr>"
    and raw: "descriptor_bytes P V C d = Ok raw"
    using assms
    by (auto simp: read_descriptor_def and_then_Ok_iff map_err_Ok_iff Let_def split: if_splits)
  have "wf_policy policy" using policy_new_wf [OF parts(4)] get_node_Ok [OF parts(3)] by simp
  moreover have "\<forall>n\<in>set networks. wf_binding n"
    using get_many_Ok [where Q = wf_binding, OF parts(5)] get_binding_Ok by blast
  ultimately show "wf_descriptor d"
    using bytes_exact_Ok [OF parts(1)] bytes_exact_Ok [OF parts(2)] bytes_exact_Ok [OF parts(6)]
    by (simp add: d wf_descriptor_def)
  show "descriptor_bytes P V C d = Ok raw" by (rule raw)
qed

lemma read_body_Ok:
  assumes "read_body P V C raw = Ok b"
  shows "wf_body b" "body_bytes P V C b = Ok raw"
proof -
  obtain desc descr tpm leaves payload count bs1 bs2 bs3 bs4 where
    parts: "read_descriptor P V C desc = Ok descr" "get_many (get_leaf C) count bs1 = Ok (leaves, bs2)"
      "get_wrapped C bs3 = Ok (payload, bs4)"
    and b: "b = \<lparr>eb_descriptor = descr, eb_tpm = tpm, eb_leaves = leaves, eb_payload = payload\<rparr>"
    and raw: "body_bytes P V C b = Ok raw"
    using assms by (auto simp: read_body_def and_then_Ok_iff Let_def split: if_splits)
  have "\<forall>l\<in>set leaves. wf_leaf l"
    using get_many_Ok [where Q = wf_leaf, OF parts(2)] get_leaf_Ok by blast
  then show "wf_body b"
    using read_descriptor_Ok(1) [OF parts(1)] get_wrapped_Ok [OF parts(3)] by (simp add: b wf_body_def)
  show "body_bytes P V C b = Ok raw" by (rule raw)
qed

lemma authenticate_Ok:
  assumes "authenticate P V C E raw trusted_key = Ok env"
  obtains encoded signature where "wf_body (ae_body env)" "body_bytes P V C (ae_body env) = Ok encoded"
    "length signature = 64" "verify E trusted_key (sign_input encoded) signature = Ok ()"
    "raw = put_signed C encoded signature" "length raw \<le> MAX_ENVELOPE"
    "context_hash P V C (eb_descriptor (ae_body env)) = Ok (ae_context env)"
proof -
  obtain encoded signature bs1 bs2 body ctx where
    parts: "bytes_exact C 64 bs1 = Ok (signature, bs2)"
      "verify E trusted_key (sign_input encoded) signature = Ok ()" "raw = put_signed C encoded signature"
      "length raw \<le> MAX_ENVELOPE" "read_body P V C encoded = Ok body"
      "context_hash P V C (eb_descriptor body) = Ok ctx" "env = \<lparr>ae_body = body, ae_context = ctx\<rparr>"
    using assms by (auto simp: authenticate_def and_then_Ok_iff map_err_Ok_iff split: if_splits)
  then show ?thesis
    using that [of encoded signature] read_body_Ok [OF parts(5)] bytes_exact_Ok [OF parts(1)] by simp
qed

section \<open>What a valid descriptor says\<close>

lemma check_bindings_Ok:
  assumes "length leaves = length bindings" "check_bindings P V (zip leaves bindings) = Ok ()"
  shows "leaves = map (\<lambda>n. (nb_node_id n, nb_provider_id n)) bindings
    \<and> (\<forall>n\<in>set bindings. nb_key_id n = key_id P (nb_public_key n)
         \<and> server_public_key_from_bytes V (nb_public_key n) = Ok (nb_public_key n))"
  using assms
proof (induction leaves bindings rule: list_induct2)
  case (Cons leaf leaves binding bindings)
  then show ?case
    by (cases leaf)
       (auto simp: result_simps server_public_key_from_bytes_def split: if_splits option.splits)
qed simp

lemma check_distinct_keys_Ok:
  "check_distinct_keys earlier rest = Ok () \<Longrightarrow>
     distinct (map nb_key_id earlier) \<Longrightarrow> distinct (map nb_public_key earlier) \<Longrightarrow>
     distinct (map nb_key_id (earlier @ rest)) \<and> distinct (map nb_public_key (earlier @ rest))"
proof (induction earlier rest rule: check_distinct_keys.induct)
  case (2 earlier binding rest)
  then show ?case by (fastforce split: if_splits)
qed simp

lemma validate_descriptor_Ok:
  assumes "validate_descriptor P V d = Ok ()"
  shows "network_leaves (d_policy d) = map (\<lambda>n. (nb_node_id n, nb_provider_id n)) (d_networks d)"
    "\<forall>n\<in>set (d_networks d). nb_key_id n = key_id P (nb_public_key n)
       \<and> server_public_key_from_bytes V (nb_public_key n) = Ok (nb_public_key n)"
    "distinct (map nb_key_id (d_networks d))" "distinct (map nb_public_key (d_networks d))"
    "d_slot d < 32" "d_generation d \<noteq> 0" "d_tpm_pcr_mask d \<noteq> 0"
proof -
  have parts: "length (network_leaves (d_policy d)) = length (d_networks d)"
      "check_bindings P V (zip (network_leaves (d_policy d)) (d_networks d)) = Ok ()"
      "check_distinct_keys [] (d_networks d) = Ok ()"
      "d_slot d < 32" "d_generation d \<noteq> 0" "d_tpm_pcr_mask d \<noteq> 0"
    using assms by (auto simp: validate_descriptor_def Let_def and_then_Ok_iff not_le split: if_splits)
  then show "network_leaves (d_policy d) = map (\<lambda>n. (nb_node_id n, nb_provider_id n)) (d_networks d)"
    "\<forall>n\<in>set (d_networks d). nb_key_id n = key_id P (nb_public_key n)
       \<and> server_public_key_from_bytes V (nb_public_key n) = Ok (nb_public_key n)"
    "distinct (map nb_key_id (d_networks d))" "distinct (map nb_public_key (d_networks d))"
    "d_slot d < 32" "d_generation d \<noteq> 0" "d_tpm_pcr_mask d \<noteq> 0"
    using check_bindings_Ok [OF parts(1,2)] check_distinct_keys_Ok [OF parts(3)] by simp_all
qed

section \<open>Properties\<close>

text \<open>C21. Signing and authenticating are inverse: an envelope signed over a well-formed body authenticates
  under the signer's public key to exactly that body, with the context hash of its descriptor.\<close>

theorem signed_envelope_authenticates:
  assumes "minicbor_correct C" "ed25519_correct E" "wf_body b" "sign P V C E b key = Ok raw"
  shows "\<exists>context. context_hash P V C (eb_descriptor b) = Ok context
    \<and> authenticate P V C E raw (signing_public_key E key) = Ok \<lparr>ae_body = b, ae_context = context\<rparr>"
  using cbor.authenticate_sign [OF cbor.intro [OF assms(1)] assms(3,2,4)] .

definition example_descriptor :: descriptor where
  "example_descriptor =
     \<lparr>d_binding_id = replicate 32 1, d_volume_uuid = replicate 16 2, d_slot = 1, d_generation = 1,
      d_policy = admitted NetworkBound 1 (Network_Leaf 2 (replicate 32 4)),
      d_networks = [\<lparr>nb_node_id = 2, nb_provider_id = replicate 32 4, nb_key_id = replicate 32 2,
        nb_public_key = replicate 49 2, nb_input_seed = replicate 32 6\<rparr>],
      d_tpm_pcr_mask = 128, d_tpm_pcr_digest = replicate 32 0\<rparr>"

definition example_body :: envelope_body where
  "example_body =
     \<lparr>eb_descriptor = example_descriptor,
      eb_tpm = \<lparr>tpm_public = [1], tpm_private = [2], tpm_name = [3], tpm_parent_name = [4]\<rparr>,
      eb_leaves = [\<lparr>wl_node_id = 1, wl_value = \<lparr>wk_nonce = replicate 12 0, wk_ciphertext = replicate 48 0\<rparr>\<rparr>,
        \<lparr>wl_node_id = 2, wl_value = \<lparr>wk_nonce = replicate 12 0, wk_ciphertext = replicate 48 0\<rparr>\<rparr>],
      eb_payload = \<lparr>wk_nonce = replicate 12 0, wk_ciphertext = replicate 48 0\<rparr>\<rparr>"

lemma example_validates: "validate_descriptor plain_primitives plain_voprf example_descriptor = Ok ()"
  by (simp add: validate_descriptor_def example_descriptor_def network_leaves_def admitted_def key_id_def
      hash_context_def plain_primitives_def server_public_key_from_bytes_def plain_voprf_def word_le_nat_alt)

lemma example_descriptor_wf: "wf_descriptor example_descriptor"
proof -
  have "production_policy_new NetworkBound 1 (Network_Leaf 2 (replicate 32 4)) =
      Ok (admitted NetworkBound 1 (Network_Leaf 2 (replicate 32 4)))"
    by (subst production_policy_new_iff) (simp_all add: admissible_def)
  then have "wf_policy (admitted NetworkBound 1 (Network_Leaf 2 (replicate 32 4)))"
    by (rule policy_new_wf) simp
  then show ?thesis
    by (simp add: wf_descriptor_def example_descriptor_def wf_binding_def)
qed

lemma example_body_wf: "wf_body example_body"
  using example_descriptor_wf by (simp add: wf_body_def example_body_def wf_leaf_def wf_wrapped_def)

lemma example_body_fits:
  "tpm_in_bounds (eb_tpm example_body)"
  "map wl_node_id (eb_leaves example_body) = policy_tpm_node_id (d_policy (eb_descriptor example_body))
     # map nb_node_id (d_networks (eb_descriptor example_body))"
  "validate_descriptor plain_primitives plain_voprf (eb_descriptor example_body) = Ok ()"
  using example_validates
  by (simp_all add: example_body_def tpm_in_bounds_def) (simp add: example_descriptor_def admitted_def)

lemma example_body_bytes: "\<exists>raw. body_bytes plain_primitives plain_voprf rfc8949 example_body = Ok raw"
  using rfc.body_bytes_fits [OF example_body_wf example_body_fits(3,1,2)] by blast

lemma example_signed:
  "\<exists>raw. sign plain_primitives plain_voprf rfc8949 plain_ed25519 example_body (replicate 32 0) = Ok raw"
  by (rule rfc.sign_fits [OF example_body_wf example_body_fits(3,1,2)])

theorem signed_envelope_authenticates_witness:
  "\<exists>raw context. sign plain_primitives plain_voprf rfc8949 plain_ed25519 example_body (replicate 32 0) = Ok raw
    \<and> authenticate plain_primitives plain_voprf rfc8949 plain_ed25519 raw
         (signing_public_key plain_ed25519 (replicate 32 0)) = Ok \<lparr>ae_body = example_body, ae_context = context\<rparr>"
  using example_signed
    signed_envelope_authenticates [OF rfc8949_correct plain_correct(2) example_body_wf,
      of plain_primitives plain_voprf "replicate 32 0"]
  by blast

text \<open>C22. Authentication is strict: an accepted envelope is the unique canonical encoding of its body and
  of a signature that verifies under the trusted key over the domain-separated body bytes, its body is
  well formed, and its context is the hash of its own descriptor.\<close>

theorem authenticated_envelope_is_canonical:
  assumes "authenticate P V C E raw trusted_key = Ok env"
  shows "\<exists>encoded signature. body_bytes P V C (ae_body env) = Ok encoded
    \<and> raw = put_signed C encoded signature \<and> length raw \<le> MAX_ENVELOPE
    \<and> verify E trusted_key (SIGN_DOMAIN @ encoded) signature = Ok ()
    \<and> wf_body (ae_body env)
    \<and> context_hash P V C (eb_descriptor (ae_body env)) = Ok (ae_context env)"
proof -
  obtain encoded signature where "wf_body (ae_body env)" "body_bytes P V C (ae_body env) = Ok encoded"
    "verify E trusted_key (sign_input encoded) signature = Ok ()"
    "raw = put_signed C encoded signature" "length raw \<le> MAX_ENVELOPE"
    "context_hash P V C (eb_descriptor (ae_body env)) = Ok (ae_context env)"
    using assms by (rule authenticate_Ok)
  then show ?thesis by (auto simp: sign_input_def)
qed

theorem authenticated_envelope_is_canonical_witness:
  "\<exists>raw env. authenticate plain_primitives plain_voprf rfc8949 plain_ed25519 raw
      (signing_public_key plain_ed25519 (replicate 32 0)) = Ok env
    \<and> (\<exists>encoded signature. verify plain_ed25519 (signing_public_key plain_ed25519 (replicate 32 0))
          (SIGN_DOMAIN @ encoded) signature = Ok ())"
proof -
  obtain raw env where ok: "authenticate plain_primitives plain_voprf rfc8949 plain_ed25519 raw
      (signing_public_key plain_ed25519 (replicate 32 0)) = Ok env"
    using example_signed rfc.authenticate_sign [OF example_body_wf plain_correct(2)] by blast
  then show ?thesis using authenticated_envelope_is_canonical [OF ok] by fastforce
qed

text \<open>Reading a body inverts writing it and accepts nothing else: \<open>read_body\<close> returns a body exactly
  for the bytes \<open>body_bytes\<close> produces from it.\<close>

theorem read_body_exact:
  assumes "minicbor_correct C"
  shows "read_body P V C raw = Ok b \<longleftrightarrow> wf_body b \<and> body_bytes P V C b = Ok raw"
  using read_body_Ok cbor.read_body_put [OF cbor.intro [OF assms]] by metis

text \<open>Reading a descriptor is exact in the same sense, so descriptors with equal bytes are equal.\<close>

theorem read_descriptor_exact:
  assumes "minicbor_correct C"
  shows "read_descriptor P V C raw = Ok d \<longleftrightarrow> wf_descriptor d \<and> descriptor_bytes P V C d = Ok raw"
  using read_descriptor_Ok cbor.read_descriptor_put [OF cbor.intro [OF assms]] by metis

text \<open>C32. The tree decoder is bounded on every input: a decoded tree has height at most four and at most 30
  nodes, the node counter is exact, and every provider id has 32 bytes.\<close>

theorem get_node_bounds:
  assumes "get_node C 1 0 bs = Ok (network, visited, rest)"
  shows "height network \<le> 4 \<and> nodes network \<le> 30 \<and> visited = nodes network \<and> wf_node network"
  using get_node_Ok [OF assms] by simp

theorem get_node_bounds_witness:
  "get_node rfc8949 1 0 (put_node rfc8949 example_node) = Ok (example_node, 4, []) \<and> nodes example_node \<le> 30"
  using get_node_bounds [of rfc8949 "put_node rfc8949 example_node" example_node 4 "[]"]
    rfc.get_node_put [of example_node 1 0 "[]"] by simp

text \<open>A valid descriptor binds every policy leaf, in leaf order, to one provider with a canonical public
  key and the key id of that key, and no two leaves share a key.\<close>

theorem descriptor_binds_policy_leaves:
  assumes "descriptor_bytes P V C d = Ok raw"
  shows "map (\<lambda>n. (nb_node_id n, nb_provider_id n)) (d_networks d) = network_leaves (d_policy d)
    \<and> distinct (map nb_public_key (d_networks d)) \<and> distinct (map nb_key_id (d_networks d))
    \<and> (\<forall>n\<in>set (d_networks d). nb_key_id n = key_id P (nb_public_key n)
         \<and> server_public_key_from_bytes V (nb_public_key n) = Ok (nb_public_key n))"
proof -
  have "validate_descriptor P V d = Ok ()" using assms by (auto simp: descriptor_bytes_def and_then_Ok_iff)
  then show ?thesis using validate_descriptor_Ok [of P V d] by simp
qed

end
