(* ===== verification/Observation.thy ===== *)
theory Observation
  imports Envelope
begin

text \<open>
  Failure values of the engine (crates/leelo-engine/src/lib.rs) and its operation report
  (crates/leelo-engine/src/observation.rs). The clock is a parameter: \<open>clock w\<close> is \<open>Instant::now()\<close>, an
  instant and the world after the reading, in nanoseconds. \<open>Instant\<close> subtraction saturates at zero, as
  subtraction on \<open>nat\<close> does. The two fixed arrays of the report are lists of fixed length (part
  of \<open>in_stages\<close>); the recorded stages are a prefix of the stage array.
\<close>

section \<open>Failures\<close>

datatype phase = Prepare | Recover

datatype stage =
    Validate | TpmSeal | ShareGeneration | Network | TpmUnseal | PreparePayload | AuthenticatePayload

datatype failure =
    Envelope | Cryptography | Sharing | Policy | Tpm | InsufficientFactors | Deadline
  | InconsistentShares | TargetMismatch | UnsupportedMode | Runtime

datatype network_failure =
    Configuration | Unavailable | Timeout | RemoteRejected | InvalidResponse | InvalidProof
  | Authentication | Cryptography

record provider_failure =
  pf_provider_id :: bytes
  pf_kind :: network_failure

datatype engine_error =
    Envelope envelope_error
  | Crypto
  | Sharing
  | Policy
  | Provider string
  | Tpm string string
  | InsufficientFactors "provider_failure list"
  | DeadlineExceeded "provider_failure list"
  | InconsistentShares
  | TargetMismatch
  | UnsupportedMode
  | Runtime

primrec from_error :: "engine_error \<Rightarrow> failure" where
  "from_error (Envelope e) = failure.Envelope"
| "from_error Crypto = failure.Cryptography"
| "from_error Sharing = failure.Sharing"
| "from_error Policy = failure.Policy"
| "from_error (Provider what) = failure.Tpm"
| "from_error (Tpm operation detail) = failure.Tpm"
| "from_error (InsufficientFactors failures) = failure.InsufficientFactors"
| "from_error (DeadlineExceeded failures) = failure.Deadline"
| "from_error InconsistentShares = failure.InconsistentShares"
| "from_error TargetMismatch = failure.TargetMismatch"
| "from_error UnsupportedMode = failure.UnsupportedMode"
| "from_error Runtime = failure.Runtime"

section \<open>The report\<close>

definition MAX_PROVIDER_OBSERVATIONS :: nat where [simp]: "MAX_PROVIDER_OBSERVATIONS = MAX_NODES"
definition MAX_STAGES :: nat where [simp]: "MAX_STAGES = 8"

datatype provider_outcome =
    NotStarted | Authenticated | Failed network_failure | CanceledQuorum | CanceledDeadline | CanceledOperation

record provider_observation =
  po_provider_id :: bytes
  po_outcome :: provider_outcome
  po_duration :: nat

record stage_observation =
  so_stage :: stage
  so_duration :: nat
  so_failure :: "failure option"

record operation_report =
  report_phase :: phase
  report_mode :: "mode option"
  report_duration :: nat
  report_failure :: "failure option"
  report_providers :: "provider_observation option list"
  report_stages :: "stage_observation option list"
  report_active_stage :: "(stage \<times> nat) option"

type_synonym 'w clock = "'w \<Rightarrow> nat \<times> 'w"

definition report_new :: "phase \<Rightarrow> operation_report" where
  "report_new p =
     \<lparr>report_phase = p, report_mode = None, report_duration = 0, report_failure = None,
      report_providers = replicate MAX_PROVIDER_OBSERVATIONS None,
      report_stages = replicate MAX_STAGES None, report_active_stage = None\<rparr>"

definition report_default :: operation_report where
  "report_default = report_new Recover"

definition providers :: "operation_report \<Rightarrow> provider_observation list" where
  "providers r = concat (map (\<lambda>p. case p of None \<Rightarrow> [] | Some x \<Rightarrow> [x]) (report_providers r))"

definition stages :: "operation_report \<Rightarrow> stage_observation list" where
  "stages r = concat (map (\<lambda>p. case p of None \<Rightarrow> [] | Some x \<Rightarrow> [x]) (report_stages r))"

definition degraded :: "operation_report \<Rightarrow> bool" where
  "degraded r \<longleftrightarrow> list_ex (\<lambda>p. case po_outcome p of Failed _ \<Rightarrow> True | _ \<Rightarrow> False) (providers r)"

definition close_stage :: "'w clock \<Rightarrow> failure option \<Rightarrow> operation_report \<Rightarrow> 'w \<Rightarrow> operation_report \<times> 'w" where
  "close_stage clock failed r w =
     (case report_active_stage r of
        None \<Rightarrow> (r, w)
      | Some (stage, started) \<Rightarrow>
          (case position (\<lambda>slot. slot = None) (report_stages r) of
             None \<Rightarrow> (r\<lparr>report_active_stage := None\<rparr>, w)
           | Some k \<Rightarrow>
               (case clock w of (now, w') \<Rightarrow>
                  (r\<lparr>report_active_stage := None,
                     report_stages := (report_stages r)[k :=
                       Some \<lparr>so_stage = stage, so_duration = now - started, so_failure = failed\<rparr>]\<rparr>, w'))))"

definition enter_stage :: "'w clock \<Rightarrow> stage \<Rightarrow> operation_report \<Rightarrow> 'w \<Rightarrow> operation_report \<times> 'w" where
  "enter_stage clock stage r w =
     (case close_stage clock None r w of (r', w') \<Rightarrow>
        case clock w' of (now, w'') \<Rightarrow> (r'\<lparr>report_active_stage := Some (stage, now)\<rparr>, w''))"

definition report_begin :: "'w clock \<Rightarrow> phase \<Rightarrow> operation_report \<Rightarrow> 'w \<Rightarrow> operation_report \<times> 'w" where
  "report_begin clock p r w = enter_stage clock Validate (report_new p) w"

definition configure :: "mode \<Rightarrow> network_binding list \<Rightarrow> operation_report \<Rightarrow> operation_report" where
  "configure m bindings r =
     r\<lparr>report_mode := Some m,
       report_providers :=
         map (\<lambda>binding. Some \<lparr>po_provider_id = nb_provider_id binding, po_outcome = NotStarted, po_duration = 0\<rparr>)
             (take (length (report_providers r)) bindings)
         @ drop (length bindings) (report_providers r)\<rparr>"

definition finish :: "'w clock \<Rightarrow> nat \<Rightarrow> failure option \<Rightarrow> operation_report \<Rightarrow> 'w \<Rightarrow> operation_report \<times> 'w" where
  "finish clock started failed r w =
     (case close_stage clock failed (r\<lparr>report_failure := failed\<rparr>) w of (r', w') \<Rightarrow>
        case clock w' of (now, w'') \<Rightarrow> (r'\<lparr>report_duration := now - started\<rparr>, w''))"

definition report_provider :: "nat \<Rightarrow> provider_outcome \<Rightarrow> nat \<Rightarrow> operation_report \<Rightarrow> operation_report" where
  "report_provider index outcome duration r =
     (if index < length (report_providers r)
      then case report_providers r ! index of
             None \<Rightarrow> r
           | Some entry \<Rightarrow>
               r\<lparr>report_providers := (report_providers r)[index :=
                   Some (entry\<lparr>po_outcome := outcome, po_duration := duration\<rparr>)]\<rparr>
      else r)"

definition report_pending :: "operation_report \<Rightarrow> nat \<Rightarrow> bool" where
  "report_pending r index \<longleftrightarrow>
     index < length (report_providers r) \<and>
     (case report_providers r ! index of None \<Rightarrow> False | Some p \<Rightarrow> po_outcome p = NotStarted)"

section \<open>Invariant\<close>

text \<open>\<open>stage_log r log\<close>: the stage array holds exactly \<open>log\<close>, oldest first, and then empty slots.\<close>

definition stage_log :: "operation_report \<Rightarrow> stage_observation list \<Rightarrow> bool" where
  "stage_log r log \<longleftrightarrow> length log \<le> MAX_STAGES
     \<and> report_stages r = map Some log @ replicate (MAX_STAGES - length log) None"

lemma stage_log_stages: "stage_log r log \<Longrightarrow> stages r = log"
  by (simp add: stage_log_def stages_def comp_def map_replicate_const)

lemma first_free:
  "position (\<lambda>slot. slot = None) (map Some log @ replicate n None) = (if n = 0 then None else Some (length log))"
  by (induction log) (auto simp: position_None_iff gr0_conv_Suc)

lemma close_stage_log:
  assumes "stage_log r log" "report_active_stage r = Some (stage, started)" "length log < MAX_STAGES"
    and "close_stage clock failed r w = (r', w')"
  shows "\<exists>elapsed. stage_log r' (log @ [\<lparr>so_stage = stage, so_duration = elapsed, so_failure = failed\<rparr>])"
    "report_active_stage r' = None" "report_providers r' = report_providers r" "report_failure r' = report_failure r"
proof -
  have stages: "report_stages r = map Some log @ replicate (8 - length log) None"
    using assms(1) by (simp add: stage_log_def)
  obtain now w1 where now: "clock w = (now, w1)" by fastforce
  let ?obs = "\<lparr>so_stage = stage, so_duration = now - started, so_failure = failed\<rparr>"
  obtain k where k: "8 - length log = Suc k" using assms(3) by (metis MAX_STAGES_def zero_less_diff gr0_conv_Suc)
  have free: "position (\<lambda>slot. slot = None) (report_stages r) = Some (length log)"
    using k by (simp only: stages first_free) simp
  have r': "r' = r\<lparr>report_active_stage := None, report_stages := (report_stages r)[length log := Some ?obs]\<rparr>"
    using assms(2,4) now free by (auto simp: close_stage_def)
  have "(report_stages r)[length log := Some ?obs] = map Some (log @ [?obs]) @ replicate k None"
    by (simp add: stages k list_update_append)
  moreover have "length log \<le> 7" "k = 7 - length log" using k by arith+
  ultimately have "stage_log r' (log @ [?obs])" by (simp add: stage_log_def r')
  then show "\<exists>elapsed. stage_log r' (log @ [\<lparr>so_stage = stage, so_duration = elapsed, so_failure = failed\<rparr>])" by blast
  show "report_active_stage r' = None" "report_providers r' = report_providers r" "report_failure r' = report_failure r"
    by (simp_all add: r')
qed

lemma close_stage_idle: "report_active_stage r = None \<Longrightarrow> close_stage clock failed r w = (r, w)"
  by (simp add: close_stage_def)

lemma stage_log_update [simp]:
  "stage_log (r\<lparr>report_active_stage := a\<rparr>) log \<longleftrightarrow> stage_log r log"
  "stage_log (r\<lparr>report_failure := f\<rparr>) log \<longleftrightarrow> stage_log r log"
  "stage_log (r\<lparr>report_duration := d\<rparr>) log \<longleftrightarrow> stage_log r log"
  "stage_log (configure m bindings r) log \<longleftrightarrow> stage_log r log"
  "stage_log (report_provider index outcome duration r) log \<longleftrightarrow> stage_log r log"
  by (auto simp: stage_log_def configure_def report_provider_def split: option.splits)

text \<open>\<open>in_stages r done current\<close>: the report of an operation that has left the stages \<open>done\<close> without
  failure and is in stage \<open>current\<close>.\<close>

definition in_stages :: "operation_report \<Rightarrow> stage list \<Rightarrow> stage \<Rightarrow> bool" where
  "in_stages r done current \<longleftrightarrow>
     length (report_providers r) = MAX_PROVIDER_OBSERVATIONS
     \<and> (\<exists>log. stage_log r log \<and> map so_stage log = done \<and> (\<forall>ob\<in>set log. so_failure ob = None))
     \<and> (\<exists>started. report_active_stage r = Some (current, started))"

lemma report_begin_stages: "report_begin clock p r w = (r', w') \<Longrightarrow> in_stages r' [] Validate"
  by (auto simp: report_begin_def enter_stage_def close_stage_def in_stages_def stage_log_def report_new_def
      split: prod.splits)

lemma enter_stages:
  assumes "in_stages r done current" "length done < 7" "enter_stage clock stage r w = (r', w')"
  shows "in_stages r' (done @ [current]) stage"
proof -
  obtain log started where log: "stage_log r log" "map so_stage log = done" "\<forall>ob\<in>set log. so_failure ob = None"
    and active: "report_active_stage r = Some (current, started)"
    and size: "length (report_providers r) = MAX_PROVIDER_OBSERVATIONS"
    using assms(1) by (auto simp: in_stages_def)
  have "length log < MAX_STAGES" using assms(2) log(2) by auto
  moreover obtain r1 w1 where close: "close_stage clock None r w = (r1, w1)" by fastforce
  ultimately obtain elapsed where
    "stage_log r1 (log @ [\<lparr>so_stage = current, so_duration = elapsed, so_failure = None\<rparr>])"
    "report_providers r1 = report_providers r"
    using close_stage_log [OF log(1) active _ close] by blast
  moreover obtain now where "r' = r1\<lparr>report_active_stage := Some (stage, now)\<rparr>"
    using assms(3) close by (auto simp: enter_stage_def split: prod.splits)
  ultimately show ?thesis
    using log(2,3) size unfolding in_stages_def
    by (intro conjI exI [of _ "log @ [\<lparr>so_stage = current, so_duration = elapsed, so_failure = None\<rparr>]"]) auto
qed

lemma configure_providers [simp]:
  "length (report_providers (configure m bindings r)) = length (report_providers r)"
  by (simp add: configure_def)

lemma in_stages_update:
  "in_stages (configure m bindings r) done current \<longleftrightarrow> in_stages r done current"
  "in_stages (report_provider index outcome duration r) done current \<longleftrightarrow> in_stages r done current"
  by (auto simp: in_stages_def configure_def stage_log_def report_provider_def split: option.splits)

text \<open>The final report: every stage but the last ended without failure, the last with the failure of the
  whole operation.\<close>

definition final_report :: "operation_report \<Rightarrow> stage list \<Rightarrow> stage \<Rightarrow> bool" where
  "final_report r done current \<longleftrightarrow>
     map so_stage (stages r) = done @ [current]
     \<and> map so_failure (stages r) = replicate (length done) None @ [report_failure r]
     \<and> report_active_stage r = None"

lemma finish_report:
  assumes "in_stages r done current" "length done < 8" "finish clock started failed r w = (r', w')"
  shows "final_report r' done current" "report_failure r' = failed"
proof -
  obtain log at where log: "stage_log r log" "map so_stage log = done" "\<forall>ob\<in>set log. so_failure ob = None"
    and active: "report_active_stage r = Some (current, at)"
    using assms(1) by (auto simp: in_stages_def)
  let ?r = "r\<lparr>report_failure := failed\<rparr>"
  obtain r1 w1 where close: "close_stage clock failed ?r w = (r1, w1)" by fastforce
  have "length log < MAX_STAGES" using assms(2) log(2) by auto
  then obtain elapsed where new: "stage_log r1 (log @ [\<lparr>so_stage = current, so_duration = elapsed, so_failure = failed\<rparr>])"
    and rest: "report_active_stage r1 = None" "report_failure r1 = failed"
    using close_stage_log [of ?r log current at clock failed w r1 w1] log(1) active close by auto
  obtain d where r': "r' = r1\<lparr>report_duration := d\<rparr>"
    using assms(3) close by (auto simp: finish_def split: prod.splits)
  then have "stages r' = log @ [\<lparr>so_stage = current, so_duration = elapsed, so_failure = failed\<rparr>]"
    using new by (intro stage_log_stages) simp
  moreover have "map so_failure log = replicate (length log) None"
    using log(3) by (simp add: map_replicate_const cong: map_cong)
  moreover have "length log = length done" using log(2) by auto
  ultimately show "final_report r' done current" using log(2) rest by (simp add: final_report_def r')
  show "report_failure r' = failed" using rest by (simp add: r')
qed

end
