(* ===== verification/Rust_Text.thy ===== *)
theory Rust_Text
  imports Leelo_Prelude
begin

text \<open>
  The parts of the standard library that the crates use on text. A \<open>&str\<close> is a \<open>string\<close> whose characters
  are its UTF-8 bytes. The theory holds UTF-8 validation (\<open>CStr::to_str\<close>), NUL checking (\<open>CString::new\<close>),
  decimal printing and parsing of \<open>u8\<close>, the ASCII character classes, the functions on paths and
  \<open>split_once\<close>.
\<close>

section \<open>UTF-8\<close>

definition continuation :: "u8 \<Rightarrow> bool" where
  "continuation b \<longleftrightarrow> 0x80 \<le> b \<and> b \<le> 0xBF"

definition second_of_three :: "u8 \<Rightarrow> u8 \<Rightarrow> bool" where
  "second_of_three a b \<longleftrightarrow> continuation b \<and> (a = 0xE0 \<longrightarrow> 0xA0 \<le> b) \<and> (a = 0xED \<longrightarrow> b \<le> 0x9F)"

definition second_of_four :: "u8 \<Rightarrow> u8 \<Rightarrow> bool" where
  "second_of_four a b \<longleftrightarrow> continuation b \<and> (a = 0xF0 \<longrightarrow> 0x90 \<le> b) \<and> (a = 0xF4 \<longrightarrow> b \<le> 0x8F)"

fun utf8_valid :: "bytes \<Rightarrow> bool" where
  "utf8_valid [] \<longleftrightarrow> True"
| "utf8_valid [a] \<longleftrightarrow> a < 0x80"
| "utf8_valid [a, b] \<longleftrightarrow>
     (if a < 0x80 then b < 0x80 else 0xC2 \<le> a \<and> a \<le> 0xDF \<and> continuation b)"
| "utf8_valid [a, b, c] \<longleftrightarrow>
     (if a < 0x80 then utf8_valid [b, c]
      else if 0xC2 \<le> a \<and> a \<le> 0xDF then continuation b \<and> utf8_valid [c]
      else 0xE0 \<le> a \<and> a \<le> 0xEF \<and> second_of_three a b \<and> continuation c)"
| "utf8_valid (a # b # c # d # rest) \<longleftrightarrow>
     (if a < 0x80 then utf8_valid (b # c # d # rest)
      else if 0xC2 \<le> a \<and> a \<le> 0xDF then continuation b \<and> utf8_valid (c # d # rest)
      else if 0xE0 \<le> a \<and> a \<le> 0xEF then second_of_three a b \<and> continuation c \<and> utf8_valid (d # rest)
      else 0xF0 \<le> a \<and> a \<le> 0xF4 \<and> second_of_four a b \<and> continuation c \<and> continuation d \<and> utf8_valid rest)"

definition text_of :: "bytes \<Rightarrow> string" where
  "text_of bs = map (\<lambda>b. char_of (unat b)) bs"

definition to_str :: "bytes \<Rightarrow> string option" where
  "to_str bs = (if utf8_valid bs then Some (text_of bs) else None)"

definition cstring_new :: "string \<Rightarrow> string option" where
  "cstring_new s = (if CHR 0x00 \<in> set s then None else Some s)"

lemma utf8_valid_ascii: "\<forall>b\<in>set bs. b < 0x80 \<Longrightarrow> utf8_valid bs"
  by (induction bs rule: utf8_valid.induct) auto

lemma to_str_ascii:
  assumes "list_all (\<lambda>c. (of_char c :: nat) \<in> {32..<127}) s"
  shows "to_str (ascii s) = Some s" "cstring_new s = Some s"
proof -
  have "(word_of_nat (of_char c) :: u8) < 0x80 \<and> char_of (unat (word_of_nat (of_char c) :: u8)) = c" if "c \<in> set s" for c
  proof -
    have c: "(of_char c :: nat) < 127" using assms that by (auto simp: list_all_iff)
    then have "unat (word_of_nat (of_char c) :: u8) = of_char c" by (simp add: unat_u8_of_nat)
    then show ?thesis using c by (simp add: word_less_nat_alt)
  qed
  then show "to_str (ascii s) = Some s"
    by (auto simp: to_str_def text_of_def ascii_def intro!: utf8_valid_ascii map_idI)
  have "CHR 0x00 \<notin> set s" using assms by (auto simp: list_all_iff)
  then show "cstring_new s = Some s" by (simp add: cstring_new_def)
qed

section \<open>Decimal numbers\<close>

definition digit :: "nat \<Rightarrow> char" where
  "digit n = char_of (48 + n)"

fun decimal :: "nat \<Rightarrow> string" where
  "decimal n = (if n < 10 then [digit n] else decimal (n div 10) @ [digit (n mod 10)])"

declare decimal.simps [simp del]

definition is_digit :: "char \<Rightarrow> bool" where
  "is_digit c \<longleftrightarrow> 48 \<le> (of_char c :: nat) \<and> (of_char c :: nat) \<le> 57"

definition decimal_value :: "string \<Rightarrow> nat" where
  "decimal_value s = foldl (\<lambda>n c. 10 * n + (of_char c - 48)) 0 s"

text \<open>\<open>str::parse::<u8>\<close>: one leading plus sign is accepted, and leading zeros are.\<close>

definition parse_u8 :: "string \<Rightarrow> u8 option" where
  "parse_u8 s =
     (let t = (case s of [] \<Rightarrow> [] | c # rest \<Rightarrow> if c = CHR ''+'' then rest else s)
      in if t = [] \<or> \<not> list_all is_digit t \<or> decimal_value t > 255 then None
         else Some (word_of_nat (decimal_value t)))"

lemma of_digit: "n < 10 \<Longrightarrow> (of_char (digit n) :: nat) = 48 + n"
  by (simp add: digit_def)

lemma decimal_digits: "list_all is_digit (decimal n)"
proof (induction n rule: decimal.induct)
  case (1 n)
  have "is_digit (digit m)" if "m < 10" for m using that by (simp add: is_digit_def of_digit)
  then show ?case using 1 by (subst decimal.simps) simp
qed

lemma decimal_value_decimal: "decimal_value (decimal n) = n"
proof (induction n rule: decimal.induct)
  case (1 n)
  then show ?case by (subst decimal.simps) (simp add: decimal_value_def of_digit)
qed

lemma decimal_nonempty: "decimal n \<noteq> []"
  by (subst decimal.simps) simp

lemma decimal_inject: "decimal m = decimal n \<Longrightarrow> m = n"
  by (metis decimal_value_decimal)

lemma decimal_not_plus: "decimal n \<noteq> CHR ''+'' # rest"
  using decimal_digits [of n] by (auto simp: is_digit_def)

lemma parse_decimal [simp]: "parse_u8 (decimal (unat x)) = Some x"
proof -
  have "(case decimal (unat x) of [] \<Rightarrow> [] | c # rest \<Rightarrow> if c = CHR ''+'' then rest else decimal (unat x))
      = decimal (unat x)"
    using decimal_not_plus [of "unat x"] decimal_nonempty [of "unat x"] by (auto split: list.splits)
  moreover have "unat x \<le> 255" using unsigned_less [of x, where 'a = nat] by simp
  ultimately show ?thesis
    by (simp add: parse_u8_def Let_def decimal_nonempty decimal_digits decimal_value_decimal)
qed

lemma decimal_length: "n < 100 \<Longrightarrow> length (decimal n) \<le> 2"
  by (subst decimal.simps, subst decimal.simps) auto

section \<open>Character classes\<close>

definition is_lower_hex :: "char \<Rightarrow> bool" where
  "is_lower_hex c \<longleftrightarrow> is_digit c \<or> (97 \<le> (of_char c :: nat) \<and> (of_char c :: nat) \<le> 102)"

definition is_lowercase :: "char \<Rightarrow> bool" where
  "is_lowercase c \<longleftrightarrow> 97 \<le> (of_char c :: nat) \<and> (of_char c :: nat) \<le> 122"

definition is_alphanumeric :: "char \<Rightarrow> bool" where
  "is_alphanumeric c \<longleftrightarrow> is_digit c \<or> (65 \<le> (of_char c :: nat) \<and> (of_char c :: nat) \<le> 90)
     \<or> (97 \<le> (of_char c :: nat) \<and> (of_char c :: nat) \<le> 122)"

section \<open>Numbers and parts\<close>

fun split_once :: "char \<Rightarrow> string \<Rightarrow> (string \<times> string) option" where
  "split_once d [] = None"
| "split_once d (c # cs) = (if c = d then Some ([], cs) else map_option (apfst ((#) c)) (split_once d cs))"

lemma split_once_Some: "d \<in> set cs \<Longrightarrow> split_once d cs \<noteq> None"
  by (induction cs) auto

section \<open>Paths\<close>

text \<open>\<open>Path::with_extension\<close>: the name is the last component, if it is a normal one; its stem ends before the last dot
  that is not its first character. \<open>strip_end\<close> works on the reversed path and drops separators and \<open>.\<close> components.\<close>

fun strip_end :: "string \<Rightarrow> string" where
  "strip_end [] = []"
| "strip_end (c # cs) =
     (if c = CHR ''/'' then strip_end cs
      else if c = CHR ''.'' \<and> cs \<noteq> [] \<and> hd cs = CHR ''/'' then strip_end cs
      else c # cs)"

definition file_stem :: "string \<Rightarrow> string" where
  "file_stem name =
     (if CHR ''.'' \<in> set (tl name) then rev (tl (dropWhile (\<lambda>c. c \<noteq> CHR ''.'') (rev name))) else name)"

definition with_extension :: "string \<Rightarrow> string \<Rightarrow> string" where
  "with_extension path ext =
     (let stripped = rev (strip_end (rev path)); name = rev (takeWhile (\<lambda>c. c \<noteq> CHR ''/'') (rev stripped)) in
      if name = [] \<or> name = ''.'' \<or> name = ''..'' then path
      else take (length stripped - length name) stripped @ file_stem name @ CHR ''.'' # ext)"

text \<open>\<open>path.parent().unwrap_or(".").join(file)\<close> for a relative \<open>file\<close>.\<close>

definition parent_path :: "string \<Rightarrow> string option" where
  "parent_path path =
     (let rest = strip_end (rev path); above = dropWhile (\<lambda>c. c \<noteq> CHR ''/'') rest in
      if rest = [] then None
      else if above = [] then Some []
      else if strip_end above = [] then Some ''/'' else Some (rev (strip_end above)))"

definition join_path :: "string \<Rightarrow> string \<Rightarrow> string" where
  "join_path dir file = (if dir = [] then file else if last dir = CHR ''/'' then dir @ file else dir @ CHR ''/'' # file)"

end
