(* ===== verification/Telemetry.thy ===== *)
theory Telemetry
  imports Rust_Text
begin

text \<open>
  The event emitter of crates/leelo-telemetry/src/lib.rs: events with static labels, the record that is sent, its
  validation against the fixed vocabulary, and the emitter with its counters. JSON, the socket, the clock and the
  package version are fields of \<open>telemetry_env\<close>; \<open>'f\<close> stands for \<open>f64\<close>, with the conversion of a duration and the
  test that a value is finite and at most a week.
\<close>

section \<open>Events and records\<close>

definition MAX_EVENT_BYTES :: nat where [simp]: "MAX_EVENT_BYTES = 4096"
definition SCHEMA_VERSION :: u8 where [simp]: "SCHEMA_VERSION = 1"

record telemetry_event =
  tv_component :: string
  tv_event :: string
  tv_operation :: string
  tv_stage :: string
  tv_outcome :: string
  tv_reason :: string
  tv_duration :: nat
  tv_mode :: string
  tv_provider_index :: "u8 option"
  tv_storage_state :: string
  tv_awaiting_boot_test :: bool
  tv_degraded :: bool
  tv_native_code :: "int option"

definition event_new :: "string \<Rightarrow> string \<Rightarrow> string \<Rightarrow> string \<Rightarrow> string \<Rightarrow> string \<Rightarrow> telemetry_event" where
  "event_new component event operation stage outcome reason =
     \<lparr>tv_component = component, tv_event = event, tv_operation = operation, tv_stage = stage, tv_outcome = outcome,
      tv_reason = reason, tv_duration = 0, tv_mode = ''none'', tv_provider_index = None,
      tv_storage_state = ''not_applicable'', tv_awaiting_boot_test = False, tv_degraded = False, tv_native_code = None\<rparr>"

record 'f telemetry_record =
  tr_schema_version :: u8
  tr_component :: string
  tr_event :: string
  tr_operation :: string
  tr_stage :: string
  tr_outcome :: string
  tr_reason :: string
  tr_duration_seconds :: 'f
  tr_mode :: string
  tr_provider_index :: "u8 option"
  tr_storage_state :: string
  tr_awaiting_boot_test :: bool
  tr_degraded :: bool
  tr_native_code :: "int option"
  tr_software_version :: string
  tr_attempt_id :: "bytes option"
  tr_boot_id :: "bytes option"
  tr_sequence :: u64
  tr_unix_time_ms :: "u64 option"
  tr_dropped_before :: u64

record ('f, 'w) telemetry_env =
  te_as_secs_f64 :: "nat \<Rightarrow> 'f"
  te_within_week :: "'f \<Rightarrow> bool"
  te_version :: string
  te_unix_time_ms :: "'w \<Rightarrow> u64 option \<times> 'w"
  te_to_json :: "'f telemetry_record \<Rightarrow> bytes option"
  te_from_json :: "bytes \<Rightarrow> 'f telemetry_record option"
  te_send_to :: "bytes \<Rightarrow> string \<Rightarrow> 'w \<Rightarrow> nat option \<times> 'w"

section \<open>Validation\<close>

definition valid_label :: "string \<Rightarrow> bool" where
  "valid_label s \<longleftrightarrow> s \<noteq> [] \<and> length s \<le> 48 \<and> list_all (\<lambda>c. is_lowercase c \<or> is_digit c \<or> c = CHR ''_'') s"

definition components :: "string list" where
  "components = [''client'', ''frontend'', ''worker'', ''leelod'']"

definition event_names :: "string list" where
  "event_names =
     [''operation_started'', ''operation_completed'', ''provider_completed'', ''phase_started'', ''phase_completed'',
      ''enrollment_state'', ''key_creation'', ''service_start'', ''service_ready'', ''service_stop'', ''service_failed'',
      ''telemetry_failed'', ''worker_peer_denied'', ''capacity_rejected'', ''evaluation_failed'', ''listener_recovered'',
      ''listener_impaired'', ''listener_failed'', ''snapshot_listener_failed'', ''worker_reply_invalid'']"

definition operations :: "string list" where
  "operations = [''enroll'', ''resume'', ''check'', ''activate'', ''keygen'', ''inspect'', ''pcr_digest'', ''serve'']"

definition modes :: "string list" where
  "modes = [''none'', ''unknown'', ''network_bound'', ''attested'']"

definition storage_states :: "string list" where
  "storage_states = [''not_applicable'', ''not_mutated'', ''pending_reconciliation'', ''committed'', ''unknown'']"

definition stage_names :: "string list" where
  "stage_names =
     [''preflight'', ''preflight_durable'', ''prepare'', ''recover'', ''recovery_test'', ''activate'', ''check'', ''validate'',
      ''tpm_seal'', ''network'', ''tpm_unseal'', ''authenticate_payload'', ''prepare_payload'', ''share_generation'',
      ''pending_bundle'', ''pending_bundle_durable'', ''prepared_and_recovery_tested'', ''storage_commit'',
      ''storage_committed'', ''storage_attach'', ''final_journal'', ''final_journal_durable'', ''key_file'', ''key_load'',
      ''startup'', ''service'', ''socket_directory'', ''listener'', ''snapshot'', ''readiness'', ''admission'', ''crypto'',
      ''connection'', ''ipc'', ''tls_config'']"

definition outcomes :: "string list" where
  "outcomes =
     [''started'', ''success'', ''failure'', ''observed'', ''not_started'', ''authenticated'', ''failed'', ''canceled_quorum'',
      ''canceled_deadline'', ''canceled_operation'']"

definition reasons :: "string list" where
  "reasons =
     [''none'', ''envelope'', ''cryptography'', ''sharing'', ''policy'', ''tpm'', ''insufficient_factors'', ''deadline'',
      ''inconsistent_shares'', ''target_mismatch'', ''unsupported_mode'', ''runtime'', ''configuration'', ''unavailable'',
      ''timeout'', ''remote_rejected'', ''invalid_response'', ''invalid_proof'', ''authentication'', ''io'', ''cryptsetup'',
      ''partial_enrollment'', ''writer_busy'', ''metadata_changed'', ''occupied_slot'', ''metadata_capacity'', ''invalid_token'',
      ''wrong_volume'', ''storage'', ''configuration_or_operation'', ''peer_uid'', ''peer_credentials'', ''capacity'',
      ''randomness'', ''cryptographic_operation'', ''temporary_accept'', ''fatal_accept'', ''invalid_reply'',
      ''invalid_key_file'', ''invalid_directory'', ''bind_failed'', ''permissions_failed'', ''setup_failed'', ''notify_failed'',
      ''invalid_configuration'', ''key_creation_failed'', ''service_failed'', ''accept_error'', ''listener_error'']"

definition vocabulary :: "'f telemetry_record \<Rightarrow> bool" where
  "vocabulary r \<longleftrightarrow>
     tr_component r \<in> set components \<and> tr_event r \<in> set event_names \<and> tr_operation r \<in> set operations
     \<and> tr_mode r \<in> set modes \<and> tr_storage_state r \<in> set storage_states \<and> tr_stage r \<in> set stage_names
     \<and> tr_outcome r \<in> set outcomes \<and> tr_reason r \<in> set reasons"

definition record_valid :: "('f, 'w) telemetry_env \<Rightarrow> 'f telemetry_record \<Rightarrow> bool" where
  "record_valid T r \<longleftrightarrow>
     tr_schema_version r = SCHEMA_VERSION \<and> length (tr_software_version r) \<le> 48
     \<and> list_all (\<lambda>c. is_alphanumeric c \<or> c \<in> set ''.-_'') (tr_software_version r)
     \<and> list_all valid_label [tr_component r, tr_event r, tr_operation r, tr_stage r, tr_outcome r, tr_reason r, tr_mode r, tr_storage_state r]
     \<and> te_within_week T (tr_duration_seconds r)
     \<and> (case tr_provider_index r of None \<Rightarrow> True | Some index \<Rightarrow> 1 \<le> index \<and> index \<le> 31)
     \<and> vocabulary r"

definition record_decode :: "('f, 'w) telemetry_env \<Rightarrow> bytes \<Rightarrow> 'f telemetry_record option" where
  "record_decode T bs =
     (if length bs > MAX_EVENT_BYTES then None
      else case te_from_json T bs of None \<Rightarrow> None | Some r \<Rightarrow> if record_valid T r then Some r else None)"

section \<open>The emitter\<close>

datatype emit_status = Sent | Disabled | Dropped

record emitter =
  em_path :: "string option"
  em_socket :: bool
  em_attempt_id :: "bytes option"
  em_boot_id :: "bytes option"
  em_sequence :: u64
  em_dropped :: u64

text \<open>The parts of \<open>new\<close> that ask the operating system are arguments: the random identifier, whether the socket could be
  made, and the bytes of the boot identifier file.\<close>

definition to_digit :: "u8 \<Rightarrow> nat option" where
  "to_digit b =
     (let n = unat b in
      if 48 \<le> n \<and> n \<le> 57 then Some (n - 48)
      else if 65 \<le> n \<and> n \<le> 70 then Some (n - 55)
      else if 97 \<le> n \<and> n \<le> 102 then Some (n - 87)
      else None)"

fun boot_digits :: "nat \<Rightarrow> bytes \<Rightarrow> bytes option" where
  "boot_digits 0 digits = (if digits = [] then Some [] else None)"
| "boot_digits (Suc n) (a # b # digits) =
     (case (to_digit a, to_digit b) of
        (Some x, Some y) \<Rightarrow> map_option ((#) (word_of_nat x * 16 + word_of_nat y)) (boot_digits n digits)
      | _ \<Rightarrow> None)"
| "boot_digits (Suc n) digits = None"

definition boot_id :: "bytes option \<Rightarrow> bytes option" where
  "boot_id contents =
     (case contents of
        None \<Rightarrow> None
      | Some file \<Rightarrow>
          let bs = take 38 file in
          if length bs \<noteq> 37 \<or> bs ! 36 \<noteq> 10 then None else boot_digits 16 (filter (\<lambda>b. b \<noteq> 45) (take 36 bs)))"

definition emitter_new :: "string option \<Rightarrow> bytes option \<Rightarrow> bool \<Rightarrow> bytes option \<Rightarrow> emitter" where
  "emitter_new path random socket boot_file =
     \<lparr>em_path = path, em_socket = (path \<noteq> None \<and> socket), em_attempt_id = (if path \<noteq> None then random else None),
      em_boot_id = (if path \<noteq> None then boot_id boot_file else None), em_sequence = 0, em_dropped = 0\<rparr>"

definition drop_event :: "emitter \<Rightarrow> emitter" where
  "drop_event em = em\<lparr>em_dropped := saturating_add (em_dropped em) 1\<rparr>"

definition make_record :: "('f, 'w) telemetry_env \<Rightarrow> emitter \<Rightarrow> telemetry_event \<Rightarrow> u64 \<Rightarrow> u64 option \<Rightarrow> 'f telemetry_record" where
  "make_record T em e sequence time =
     \<lparr>tr_schema_version = SCHEMA_VERSION, tr_component = tv_component e, tr_event = tv_event e, tr_operation = tv_operation e,
      tr_stage = tv_stage e, tr_outcome = tv_outcome e, tr_reason = tv_reason e,
      tr_duration_seconds = te_as_secs_f64 T (tv_duration e), tr_mode = tv_mode e, tr_provider_index = tv_provider_index e,
      tr_storage_state = tv_storage_state e, tr_awaiting_boot_test = tv_awaiting_boot_test e, tr_degraded = tv_degraded e,
      tr_native_code = tv_native_code e, tr_software_version = te_version T, tr_attempt_id = em_attempt_id em,
      tr_boot_id = em_boot_id em, tr_sequence = sequence, tr_unix_time_ms = time, tr_dropped_before = em_dropped em\<rparr>"

text \<open>Serialising into the fixed buffer fails when the record does not fit.\<close>

definition to_buffer :: "('f, 'w) telemetry_env \<Rightarrow> 'f telemetry_record \<Rightarrow> bytes option" where
  "to_buffer T r = (case te_to_json T r of None \<Rightarrow> None | Some bs \<Rightarrow> if length bs > MAX_EVENT_BYTES then None else Some bs)"

definition labels :: "telemetry_event \<Rightarrow> string list" where
  "labels e = [tv_component e, tv_event e, tv_operation e, tv_stage e, tv_outcome e, tv_reason e, tv_mode e, tv_storage_state e]"

definition emit :: "('f, 'w) telemetry_env \<Rightarrow> telemetry_event \<Rightarrow> emitter \<Rightarrow> 'w \<Rightarrow> emit_status \<times> emitter \<times> 'w" where
  "emit T e em w =
     (case em_path em of
        None \<Rightarrow> (Disabled, em, w)
      | Some path \<Rightarrow>
          if em_attempt_id em = None \<or> \<not> list_all valid_label (labels e) then (Dropped, drop_event em, w)
          else
            (case te_unix_time_ms T w of (time, w1) \<Rightarrow>
             let r = make_record T em e (em_sequence em) time; em = em\<lparr>em_sequence := em_sequence em + 1\<rparr> in
             case (if record_valid T r then to_buffer T r else None) of
               None \<Rightarrow> (Dropped, drop_event em, w1)
             | Some bs \<Rightarrow>
                 if em_socket em
                 then (case te_send_to T bs path w1 of (n, w2) \<Rightarrow>
                         if n = Some (length bs) then (Sent, em, w2) else (Dropped, drop_event em, w2))
                 else (Dropped, drop_event em, w1)))"

section \<open>What is sent and what is lost\<close>

text \<open>Parsing gives back the serialised record, up to the rounding of the duration, which stays in its range.\<close>

definition telemetry_json_correct :: "('f, 'w) telemetry_env \<Rightarrow> bool" where
  "telemetry_json_correct T \<longleftrightarrow>
     (\<forall>r bs. te_to_json T r = Some bs \<longrightarrow>
        (\<exists>seconds. te_from_json T bs = Some (r\<lparr>tr_duration_seconds := seconds\<rparr>)
           \<and> (te_within_week T (tr_duration_seconds r) \<longrightarrow> te_within_week T seconds)))"

lemma emit_Sent:
  assumes "emit T e em w = (Sent, em', w')"
  shows "\<exists>path time w1 bs. em_path em = Some path \<and> em_attempt_id em \<noteq> None \<and> te_unix_time_ms T w = (time, w1)
    \<and> record_valid T (make_record T em e (em_sequence em) time) \<and> to_buffer T (make_record T em e (em_sequence em) time) = Some bs
    \<and> te_send_to T bs path w1 = (Some (length bs), w') \<and> em' = em\<lparr>em_sequence := em_sequence em + 1\<rparr>"
  using assms by (auto simp: emit_def Let_def split: option.splits if_splits prod.splits)

section \<open>A concrete emitter\<close>

definition example_emitter :: emitter where
  "example_emitter = emitter_new (Some ''/run/leelo/events'') (Some (replicate 16 7)) True None"

definition example_event :: telemetry_event where
  "example_event = event_new ''worker'' ''service_ready'' ''serve'' ''startup'' ''success'' ''none''"

definition example_record :: "unit telemetry_record" where
  "example_record =
     \<lparr>tr_schema_version = 1, tr_component = ''worker'', tr_event = ''service_ready'', tr_operation = ''serve'',
      tr_stage = ''startup'', tr_outcome = ''success'', tr_reason = ''none'', tr_duration_seconds = (), tr_mode = ''none'',
      tr_provider_index = None, tr_storage_state = ''not_applicable'', tr_awaiting_boot_test = False, tr_degraded = False,
      tr_native_code = None, tr_software_version = ''0'', tr_attempt_id = Some (replicate 16 7), tr_boot_id = None,
      tr_sequence = 0, tr_unix_time_ms = None, tr_dropped_before = 0\<rparr>"

definition example_telemetry :: "(unit, bytes) telemetry_env" where
  "example_telemetry =
     \<lparr>te_as_secs_f64 = (\<lambda>_. ()), te_within_week = (\<lambda>_. True), te_version = ''0'', te_unix_time_ms = (\<lambda>w. (None, w)),
      te_to_json = (\<lambda>r. if r = example_record then Some [1] else None),
      te_from_json = (\<lambda>bs. if bs = [1] then Some example_record else None),
      te_send_to = (\<lambda>bs path w. (Some (length bs), bs))\<rparr>"

lemma example_labels: "list_all valid_label (labels example_event)"
  by (simp add: labels_def example_event_def event_new_def valid_label_def is_lowercase_def)

lemma example_sent: "\<exists>em'. emit example_telemetry example_event example_emitter [] = (Sent, em', [1])"
proof -
  have "make_record example_telemetry example_emitter example_event 0 None = example_record"
    by (simp add: make_record_def example_telemetry_def example_emitter_def emitter_new_def example_event_def event_new_def
        example_record_def boot_id_def)
  moreover have "vocabulary example_record"
    by (simp add: vocabulary_def example_record_def components_def event_names_def operations_def modes_def storage_states_def
        stage_names_def outcomes_def reasons_def)
  then have "record_valid example_telemetry example_record"
    using example_labels
    by (simp add: record_valid_def example_record_def example_telemetry_def is_alphanumeric_def is_digit_def labels_def
        example_event_def event_new_def)
  moreover have "to_buffer example_telemetry example_record = Some [1]"
    by (simp add: to_buffer_def example_telemetry_def)
  moreover have "te_unix_time_ms example_telemetry w = (None, w)" "te_send_to example_telemetry bs path w = (Some (length bs), bs)" for w bs path
    by (simp_all add: example_telemetry_def)
  moreover have "em_path example_emitter = Some ''/run/leelo/events''" "em_attempt_id example_emitter = Some (replicate 16 7)"
    "em_socket example_emitter" "em_sequence example_emitter = 0"
    by (simp_all add: example_emitter_def emitter_new_def)
  ultimately show ?thesis using example_labels by (simp add: emit_def Let_def)
qed

section \<open>Properties\<close>

text \<open>C37. Every datagram the emitter counts as sent is one that a collector accepts: it is at most 4096 bytes long,
  decodes to a valid record, and this record has the labels of the event, an attempt identifier, the sequence
  number and the number of events dropped before it.\<close>

theorem sent_event_decodes:
  assumes "telemetry_json_correct T" "emit T e em w = (Sent, em', w')"
  shows "\<exists>bs path w1 r. te_send_to T bs path w1 = (Some (length bs), w') \<and> record_decode T bs = Some r
    \<and> [tr_component r, tr_event r, tr_operation r, tr_stage r, tr_outcome r, tr_reason r, tr_mode r, tr_storage_state r] = labels e
    \<and> tr_attempt_id r = em_attempt_id em \<and> tr_attempt_id r \<noteq> None
    \<and> tr_sequence r = em_sequence em \<and> tr_dropped_before r = em_dropped em \<and> em_sequence em' = em_sequence em + 1"
proof -
  obtain path time w1 bs where sent: "em_attempt_id em \<noteq> None" "record_valid T (make_record T em e (em_sequence em) time)"
    "to_buffer T (make_record T em e (em_sequence em) time) = Some bs" "te_send_to T bs path w1 = (Some (length bs), w')"
    "em' = em\<lparr>em_sequence := em_sequence em + 1\<rparr>"
    using emit_Sent [OF assms(2)] by blast
  let ?r = "make_record T em e (em_sequence em) time"
  have json: "te_to_json T ?r = Some bs" and fits: "length bs \<le> MAX_EVENT_BYTES"
    using sent(3) by (auto simp: to_buffer_def split: option.splits if_splits)
  obtain seconds where parsed: "te_from_json T bs = Some (?r\<lparr>tr_duration_seconds := seconds\<rparr>)"
    "te_within_week T (tr_duration_seconds ?r) \<Longrightarrow> te_within_week T seconds"
    using assms(1) json unfolding telemetry_json_correct_def by blast
  have "record_valid T (?r\<lparr>tr_duration_seconds := seconds\<rparr>)"
    using sent(2) parsed(2) by (simp add: record_valid_def vocabulary_def)
  then have "record_decode T bs = Some (?r\<lparr>tr_duration_seconds := seconds\<rparr>)"
    using parsed(1) fits by (simp add: record_decode_def)
  then show ?thesis using sent by (fastforce simp: make_record_def labels_def)
qed

theorem sent_event_decodes_witness:
  "\<exists>r. record_decode example_telemetry [1] = Some r \<and> tr_sequence r = 0 \<and> tr_attempt_id r \<noteq> None"
proof -
  obtain em' where sent: "emit example_telemetry example_event example_emitter [] = (Sent, em', [1])"
    using example_sent by blast
  have "telemetry_json_correct example_telemetry"
    by (simp add: telemetry_json_correct_def example_telemetry_def)
  from sent_event_decodes [OF this sent] show ?thesis
    by (auto simp: example_telemetry_def example_emitter_def emitter_new_def)
qed

end
