(* ===== verification/Luks_Token.thy ===== *)
theory Luks_Token
  imports Rust_Text
begin

text \<open>
  The LUKS2 token of crates/leelo-luks/src/lib.rs: a JSON object that carries the slot and the signed
  envelope. serde_json and base64 are parameters (\<open>token_lib\<close>); \<open>token_lib_correct\<close> states what the crate
  relies on: compact objects in field order for strings without escapes, parsing of what was printed, and
  unpadded base64 of the documented length that decodes to what was encoded.
\<close>

section \<open>Errors and data\<close>

text \<open>An I/O error carries the operating system's code where there is one.\<close>

datatype luks_error =
    UnsupportedPlatform | Io "int option" | InvalidInput | Cryptsetup string int | WrongVolume | OccupiedSlot
  | InvalidToken | ReadOnly | WriterBusy | NoTokenSpace | MetadataSpace nat nat | MetadataChanged
  | PartialEnrollment u8 string luks_error

record token =
  tok_kind :: string
  tok_keyslots :: "string list"
  tok_envelope :: string

record token_envelope =
  te_slot :: u8
  te_bytes :: bytes

record token_lib =
  token_to_json :: "token \<Rightarrow> string option"
  token_from_json :: "string \<Rightarrow> token option"
  base64_encode :: "bytes \<Rightarrow> string"
  base64_decode :: "string \<Rightarrow> bytes option"

section \<open>Operations\<close>

definition encode_token :: "token_lib \<Rightarrow> u8 \<Rightarrow> bytes \<Rightarrow> (string, luks_error) result" where
  "encode_token T slot envelope =
     (if slot \<ge> 32 \<or> envelope = [] \<or> length envelope > 64 * 1024 then Err InvalidInput
      else ok_or InvalidToken (token_to_json T
        \<lparr>tok_kind = ''leelo'', tok_keyslots = [decimal (unat slot)], tok_envelope = base64_encode T envelope\<rparr>))"

definition decode_token :: "token_lib \<Rightarrow> string \<Rightarrow> (token_envelope, luks_error) result" where
  "decode_token T json =
     (if length json > 90 * 1024 then Err InvalidToken
      else and_then (ok_or InvalidToken (token_from_json T json)) (\<lambda>t.
        if tok_kind t \<noteq> ''leelo'' \<or> length (tok_keyslots t) \<noteq> 1 then Err InvalidToken
        else and_then (ok_or InvalidToken (parse_u8 (tok_keyslots t ! 0))) (\<lambda>slot.
          if slot \<ge> 32 \<or> decimal (unat slot) \<noteq> tok_keyslots t ! 0 then Err InvalidToken
          else and_then (ok_or InvalidToken (base64_decode T (tok_envelope t))) (\<lambda>bs.
            if bs = [] \<or> length bs > 64 * 1024 \<or> base64_encode T bs \<noteq> tok_envelope t then Err InvalidToken
            else Ok \<lparr>te_slot = slot, te_bytes = bs\<rparr>))))"

section \<open>What the crate relies on\<close>

abbreviation quote_char :: char where "quote_char \<equiv> CHR 0x22"
abbreviation quoted :: "string \<Rightarrow> string" where "quoted s \<equiv> quote_char # s @ [quote_char]"

definition json_plain :: "char \<Rightarrow> bool" where
  "json_plain c \<longleftrightarrow> 32 \<le> (of_char c :: nat) \<and> (of_char c :: nat) < 127 \<and> c \<noteq> quote_char \<and> c \<noteq> CHR 0x5C"

definition token_text :: "string \<Rightarrow> string \<Rightarrow> string \<Rightarrow> string" where
  "token_text kind slot envelope =
     ''{'' @ quoted ''type'' @ '':'' @ quoted kind @ '','' @ quoted ''keyslots'' @ '':['' @ quoted slot @ ''],''
     @ quoted ''envelope'' @ '':'' @ quoted envelope @ ''}''"

definition token_lib_correct :: "token_lib \<Rightarrow> bool" where
  "token_lib_correct T \<longleftrightarrow>
     (\<forall>b. base64_decode T (base64_encode T b) = Some b)
     \<and> (\<forall>b. length (base64_encode T b) = (4 * length b + 2) div 3)
     \<and> (\<forall>b. list_all json_plain (base64_encode T b))
     \<and> (\<forall>kind slot envelope. list_all json_plain kind \<longrightarrow> list_all json_plain slot \<longrightarrow> list_all json_plain envelope \<longrightarrow>
          token_to_json T \<lparr>tok_kind = kind, tok_keyslots = [slot], tok_envelope = envelope\<rparr>
            = Some (token_text kind slot envelope)
          \<and> token_from_json T (token_text kind slot envelope)
            = Some \<lparr>tok_kind = kind, tok_keyslots = [slot], tok_envelope = envelope\<rparr>)"

section \<open>Lemmas\<close>

lemma decimal_plain: "list_all json_plain (decimal n)"
  using decimal_digits [of n] by (auto simp: list_all_iff is_digit_def json_plain_def)

lemma encode_token_text:
  assumes "token_lib_correct T" "slot < 32" "envelope \<noteq> []" "length envelope \<le> 64 * 1024"
  defines "json \<equiv> token_text ''leelo'' (decimal (unat slot)) (base64_encode T envelope)"
  shows "encode_token T slot envelope = Ok json" "decode_token T json = Ok \<lparr>te_slot = slot, te_bytes = envelope\<rparr>"
    "length json \<le> (4 * length envelope + 2) div 3 + 48" "list_all (\<lambda>c. (of_char c :: nat) \<in> {32..<127}) json"
proof -
  define b where "b = base64_encode T envelope"
  have b: "base64_decode T b = Some envelope" "length b = (4 * length envelope + 2) div 3" "list_all json_plain b"
    using assms(1) by (auto simp: token_lib_correct_def b_def)
  have "list_all json_plain ''leelo''" by (simp add: json_plain_def)
  then have js: "token_to_json T \<lparr>tok_kind = ''leelo'', tok_keyslots = [decimal (unat slot)], tok_envelope = b\<rparr> = Some json"
    "token_from_json T json = Some \<lparr>tok_kind = ''leelo'', tok_keyslots = [decimal (unat slot)], tok_envelope = b\<rparr>"
    using assms(1) b(3) decimal_plain [of "unat slot"] unfolding token_lib_correct_def json_def b_def by blast+
  have "length (decimal (unat slot)) \<le> 2" using decimal_length [of "unat slot"] assms(2) by (simp add: word_less_nat_alt)
  then show len: "length json \<le> (4 * length envelope + 2) div 3 + 48"
    using b(2) by (simp add: json_def token_text_def b_def)
  then have "length json \<le> 90 * 1024" using assms(4) by linarith
  then show "encode_token T slot envelope = Ok json" "decode_token T json = Ok \<lparr>te_slot = slot, te_bytes = envelope\<rparr>"
    using js b(1) assms(2-4) by (simp_all add: encode_token_def decode_token_def b_def [symmetric] not_le)
  have "list_all (\<lambda>c. (of_char c :: nat) \<in> {32..<127}) s" if "list_all json_plain s" for s
    using that by (auto simp: list_all_iff json_plain_def)
  then show "list_all (\<lambda>c. (of_char c :: nat) \<in> {32..<127}) json"
    using b(3) decimal_plain [of "unat slot"] by (simp add: json_def token_text_def b_def)
qed

lemma encode_decode_token:
  assumes "token_lib_correct T" "slot < 32" "envelope \<noteq> []" "length envelope \<le> 64 * 1024"
  shows "\<exists>json. encode_token T slot envelope = Ok json \<and> decode_token T json = Ok \<lparr>te_slot = slot, te_bytes = envelope\<rparr>"
  using encode_token_text(1,2) [OF assms] by blast

lemma decode_token_Ok:
  assumes "decode_token T json = Ok t"
  shows "te_slot t < 32" "te_bytes t \<noteq> []" "length (te_bytes t) \<le> 64 * 1024"
    "token_from_json T json = Some \<lparr>tok_kind = ''leelo'', tok_keyslots = [decimal (unat (te_slot t))],
       tok_envelope = base64_encode T (te_bytes t)\<rparr>"
proof -
  obtain u slot bs where u: "token_from_json T json = Some u" "tok_kind u = ''leelo''" "length (tok_keyslots u) = 1"
    and slot: "\<not> 32 \<le> slot" "decimal (unat slot) = tok_keyslots u ! 0"
    and bs: "bs \<noteq> []" "length bs \<le> 64 * 1024" "base64_encode T bs = tok_envelope u"
    and t: "t = \<lparr>te_slot = slot, te_bytes = bs\<rparr>"
    using assms by (auto simp: decode_token_def result_simps split: if_splits)
  show "te_slot t < 32" "te_bytes t \<noteq> []" "length (te_bytes t) \<le> 64 * 1024"
    using slot(1) bs t by (simp_all add: not_le)
  have "tok_keyslots u = [decimal (unat slot)]"
    using u(3) slot(2) by (cases "tok_keyslots u") simp_all
  then show "token_from_json T json = Some \<lparr>tok_kind = ''leelo'', tok_keyslots = [decimal (unat (te_slot t))],
       tok_envelope = base64_encode T (te_bytes t)\<rparr>"
    using u t bs(3) by simp
qed

section \<open>A concrete library\<close>

definition alphabet :: string where
  "alphabet = ''ABCDEFGHIJKLMNOPQRSTUVWXYZabcdefghijklmnopqrstuvwxyz0123456789-_''"

definition group3 :: "u8 \<Rightarrow> u8 \<Rightarrow> u8 \<Rightarrow> nat" where
  "group3 a b c = unat a * 65536 + unat b * 256 + unat c"

fun sextets :: "bytes \<Rightarrow> nat list" where
  "sextets [] = []"
| "sextets [a] = [group3 a 0 0 div 262144, group3 a 0 0 div 4096 mod 64]"
| "sextets [a, b] = [group3 a b 0 div 262144, group3 a b 0 div 4096 mod 64, group3 a b 0 div 64 mod 64]"
| "sextets (a # b # c # rest) =
     [group3 a b c div 262144, group3 a b c div 4096 mod 64, group3 a b c div 64 mod 64, group3 a b c mod 64]
     @ sextets rest"

definition ungroup :: "nat \<Rightarrow> bytes" where
  "ungroup n = [word_of_nat (n div 65536), word_of_nat (n div 256 mod 256), word_of_nat (n mod 256)]"

fun unsextets :: "nat list \<Rightarrow> bytes" where
  "unsextets [] = []"
| "unsextets [w] = []"
| "unsextets [w, x] = take 1 (ungroup (w * 262144 + x * 4096))"
| "unsextets [w, x, y] = take 2 (ungroup (w * 262144 + x * 4096 + y * 64))"
| "unsextets (w # x # y # z # rest) = ungroup (w * 262144 + x * 4096 + y * 64 + z) @ unsextets rest"

lemma group3_less: "group3 a b c < 16777216"
  using unsigned_less [of a, where 'a = nat] unsigned_less [of b, where 'a = nat] unsigned_less [of c, where 'a = nat]
  by (simp add: group3_def)

lemma regroup: "(n :: nat) div 262144 * 262144 + n div 4096 mod 64 * 4096 + n div 64 mod 64 * 64 + n mod 64 = n"
proof -
  have "n div 64 div 64 = n div 4096" "n div 4096 div 64 = n div 262144" by (simp_all add: div_mult2_eq [symmetric])
  then show ?thesis
    using div_mult_mod_eq [of n 64] div_mult_mod_eq [of "n div 64" 64] div_mult_mod_eq [of "n div 4096" 64] by linarith
qed

lemma ungroup_group3: "ungroup (group3 a b c) = [a, b, c]"
proof -
  define k where "k = unat b + 256 * unat a"
  have less: "unat b < 256" "unat c < 256"
    using unsigned_less [of b, where 'a = nat] unsigned_less [of c, where 'a = nat] by simp_all
  have "group3 a b c = unat c + 256 * k" by (simp add: group3_def k_def)
  then have "group3 a b c div 256 = k" "group3 a b c mod 256 = unat c" using less(2) by simp_all
  moreover have "k div 256 = unat a" "k mod 256 = unat b" using less(1) by (simp_all add: k_def)
  moreover have "group3 a b c div 65536 = group3 a b c div 256 div 256" by (simp add: div_mult2_eq [symmetric])
  ultimately show ?thesis by (simp add: ungroup_def)
qed

lemma group3_low:
  "group3 a b 0 mod 64 = 0" "group3 a 0 0 mod 64 = 0" "group3 a 0 0 div 64 mod 64 = 0"
proof -
  have "group3 a b 0 = 64 * (unat a * 1024 + unat b * 4)" by (simp add: group3_def)
  then show "group3 a b 0 mod 64 = 0" by (metis mod_mult_self1_is_0)
  have "group3 a 0 0 = 64 * (64 * (unat a * 16))" by (simp add: group3_def)
  then show "group3 a 0 0 mod 64 = 0" "group3 a 0 0 div 64 mod 64 = 0"
    by (metis mod_mult_self1_is_0, metis mod_mult_self1_is_0 nonzero_mult_div_cancel_left zero_neq_numeral)
qed

lemma unsextets_sextets: "unsextets (sextets bs) = bs"
proof (induction bs rule: sextets.induct)
  case (2 a)
  then show ?case using regroup [of "group3 a 0 0"] by (simp add: group3_low ungroup_group3)
next
  case (3 a b)
  then show ?case using regroup [of "group3 a b 0"] by (simp add: group3_low ungroup_group3)
next
  case (4 a b c rest)
  then show ?case using regroup [of "group3 a b c"] by (simp add: ungroup_group3)
qed simp

lemma sextets_less: "\<forall>n\<in>set (sextets bs). n < 64"
proof (induction bs rule: sextets.induct)
  case (2 a)
  then show ?case using group3_less [of a 0 0] by (simp add: less_mult_imp_div_less)
next
  case (3 a b)
  then show ?case using group3_less [of a b 0] by (simp add: less_mult_imp_div_less)
next
  case (4 a b c rest)
  then show ?case using group3_less [of a b c] by (simp add: less_mult_imp_div_less)
qed simp

lemma sextets_length: "length (sextets bs) = (4 * length bs + 2) div 3"
  by (induction bs rule: sextets.induct) simp_all

definition alphabet_index :: "char \<Rightarrow> nat" where
  "alphabet_index c = (case position (\<lambda>x. x = c) alphabet of Some n \<Rightarrow> n | None \<Rightarrow> 64)"

lemma alphabet_facts: "length alphabet = 64" "list_all json_plain alphabet"
    "list_all (\<lambda>n. alphabet_index (alphabet ! n) = n) [0..<64]"
  by code_simp+

lemma alphabet_index_nth: "n < 64 \<Longrightarrow> alphabet_index (alphabet ! n) = n"
  using alphabet_facts(3) by (simp add: list_all_iff)

definition strip :: "string \<Rightarrow> string \<Rightarrow> string option" where
  "strip p s = (if take (length p) s = p then Some (drop (length p) s) else None)"

text \<open>A quoted string without escapes, and the rest after its closing quote.\<close>

definition plain_string :: "string \<Rightarrow> (string \<times> string) option" where
  "plain_string s = (case s of c # rest \<Rightarrow>
     (if c = quote_char then
        (case dropWhile (\<lambda>c. c \<noteq> quote_char) rest of
           [] \<Rightarrow> None
         | _ # after \<Rightarrow> Some (takeWhile (\<lambda>c. c \<noteq> quote_char) rest, after))
      else None) | [] \<Rightarrow> None)"

lemma strip_append [simp]: "strip p (p @ s) = Some s" by (simp add: strip_def)

lemma plain_string_quoted [simp]:
  "list_all json_plain s \<Longrightarrow> plain_string (quote_char # s @ quote_char # rest) = Some (s, rest)"
  by (simp add: plain_string_def list_all_iff json_plain_def takeWhile_append2 dropWhile_append2)

definition plain_token :: "string \<Rightarrow> token option" where
  "plain_token s =
     Option.bind (strip (''{'' @ quoted ''type'' @ '':'') s) (\<lambda>s.
     Option.bind (plain_string s) (\<lambda>(kind, s).
     Option.bind (strip ('','' @ quoted ''keyslots'' @ '':['') s) (\<lambda>s.
     Option.bind (plain_string s) (\<lambda>(slot, s).
     Option.bind (strip (''],'' @ quoted ''envelope'' @ '':'') s) (\<lambda>s.
     Option.bind (plain_string s) (\<lambda>(envelope, s).
       if s = ''}'' then Some \<lparr>tok_kind = kind, tok_keyslots = [slot], tok_envelope = envelope\<rparr> else None))))))"

lemma plain_token_text:
  assumes "list_all json_plain kind" "list_all json_plain slot" "list_all json_plain envelope"
  shows "plain_token (token_text kind slot envelope)
    = Some \<lparr>tok_kind = kind, tok_keyslots = [slot], tok_envelope = envelope\<rparr>"
  using assms plain_string_quoted [OF assms(3), of "''}''"] by (simp add: plain_token_def token_text_def strip_def)

definition example_token_lib :: token_lib where
  "example_token_lib =
     \<lparr>token_to_json = (\<lambda>t. Some (token_text (tok_kind t) (concat (tok_keyslots t)) (tok_envelope t))),
      token_from_json = plain_token,
      base64_encode = (\<lambda>bs. map ((!) alphabet) (sextets bs)),
      base64_decode = (\<lambda>s. Some (unsextets (map alphabet_index s)))\<rparr>"

lemma example_token_lib_correct: "token_lib_correct example_token_lib"
proof -
  have "map (alphabet_index \<circ> (!) alphabet) (sextets bs) = sextets bs" for bs
    using sextets_less [of bs] by (intro map_idI) (simp add: alphabet_index_nth)
  moreover have "\<forall>c\<in>set (map ((!) alphabet) (sextets bs)). json_plain c" for bs
    using sextets_less [of bs] alphabet_facts(1,2) by (auto simp: list_all_iff)
  ultimately show ?thesis
    by (simp add: token_lib_correct_def example_token_lib_def unsextets_sextets sextets_length plain_token_text
        list_all_iff)
qed

section \<open>Properties\<close>

text \<open>C33. Every token the crate writes reads back as the same slot and the same envelope.\<close>

theorem token_round_trip:
  assumes "token_lib_correct T" "slot < 32" "envelope \<noteq> []" "length envelope \<le> 64 * 1024"
  shows "\<exists>json. encode_token T slot envelope = Ok json \<and> decode_token T json = Ok \<lparr>te_slot = slot, te_bytes = envelope\<rparr>"
  using assms by (rule encode_decode_token)

theorem token_round_trip_witness:
  "\<exists>json. encode_token example_token_lib 3 [1, 2, 3, 4] = Ok json
    \<and> decode_token example_token_lib json = Ok \<lparr>te_slot = 3, te_bytes = [1, 2, 3, 4]\<rparr>"
  by (rule token_round_trip [OF example_token_lib_correct]) simp_all

end
