(* ===== verification/Cli_Observation.thy ===== *)
theory Cli_Observation
  imports Observation Telemetry Luks_Token
begin

text \<open>
  What the command line tool reports, from crates/leelo-cli/src/observation.rs: the state of one operation and the
  events it hands to the emitter, with the classification of errors. The emitter is represented by the list of the
  events given to it, oldest first; what it does with them is the subject of the theory of telemetry. Readings of the
  clock are arguments, in the order the code takes them.
\<close>

section \<open>Errors\<close>

text \<open>\<open>Box<dyn Error>\<close>: the errors that the classification tells apart, and any other with its source.\<close>

datatype cli_error =
    Cli_Engine engine_error
  | Cli_Envelope envelope_error
  | Cli_Io
  | Cli_Luks luks_error
  | Cli_Other string "cli_error option"

primrec engine_reason :: "failure \<Rightarrow> string" where
  "engine_reason failure.Envelope = ''envelope''"
| "engine_reason failure.Cryptography = ''cryptography''"
| "engine_reason failure.Sharing = ''sharing''"
| "engine_reason failure.Policy = ''policy''"
| "engine_reason failure.Tpm = ''tpm''"
| "engine_reason failure.InsufficientFactors = ''insufficient_factors''"
| "engine_reason failure.Deadline = ''deadline''"
| "engine_reason failure.InconsistentShares = ''inconsistent_shares''"
| "engine_reason failure.TargetMismatch = ''target_mismatch''"
| "engine_reason failure.UnsupportedMode = ''unsupported_mode''"
| "engine_reason failure.Runtime = ''runtime''"

primrec network_reason :: "network_failure \<Rightarrow> string" where
  "network_reason network_failure.Configuration = ''configuration''"
| "network_reason network_failure.Unavailable = ''unavailable''"
| "network_reason network_failure.Timeout = ''timeout''"
| "network_reason network_failure.RemoteRejected = ''remote_rejected''"
| "network_reason network_failure.InvalidResponse = ''invalid_response''"
| "network_reason network_failure.InvalidProof = ''invalid_proof''"
| "network_reason network_failure.Authentication = ''authentication''"
| "network_reason network_failure.Cryptography = ''cryptography''"

definition luks_reason :: "luks_error \<Rightarrow> string \<times> int option" where
  "luks_reason e =
     (case e of
        Cryptsetup operation code \<Rightarrow> (''cryptsetup'', Some code)
      | PartialEnrollment slot stage source \<Rightarrow> (''partial_enrollment'', None)
      | WriterBusy \<Rightarrow> (''writer_busy'', None)
      | MetadataChanged \<Rightarrow> (''metadata_changed'', None)
      | OccupiedSlot \<Rightarrow> (''occupied_slot'', None)
      | NoTokenSpace \<Rightarrow> (''metadata_capacity'', None)
      | MetadataSpace required available \<Rightarrow> (''metadata_capacity'', None)
      | InvalidToken \<Rightarrow> (''invalid_token'', None)
      | WrongVolume \<Rightarrow> (''wrong_volume'', None)
      | _ \<Rightarrow> (''storage'', None))"

fun classify :: "cli_error \<Rightarrow> string \<times> int option" where
  "classify (Cli_Engine e) = (engine_reason (from_error e), None)"
| "classify (Cli_Envelope e) = (''envelope'', None)"
| "classify Cli_Io = (''io'', None)"
| "classify (Cli_Luks e) = luks_reason e"
| "classify (Cli_Other message (Some source)) = classify source"
| "classify (Cli_Other message None) = (''configuration_or_operation'', None)"

section \<open>The operation\<close>

datatype storage_state = NotApplicable | NotMutated | PendingReconciliation | Committed | Unknown

primrec storage_name :: "storage_state \<Rightarrow> string" where
  "storage_name NotApplicable = ''not_applicable''"
| "storage_name NotMutated = ''not_mutated''"
| "storage_name PendingReconciliation = ''pending_reconciliation''"
| "storage_name Committed = ''committed''"
| "storage_name Unknown = ''unknown''"

record cli_operation =
  cx_emitter :: "telemetry_event list"
  cx_operation :: string
  cx_started :: nat
  cx_stage_started :: nat
  cx_stage :: string
  cx_mode :: string
  cx_storage :: storage_state
  cx_awaiting_boot_test :: bool
  cx_degraded :: bool
  cx_configured :: "bytes option list"

definition cli_event :: "cli_operation \<Rightarrow> string \<Rightarrow> string \<Rightarrow> string \<Rightarrow> string \<Rightarrow> telemetry_event" where
  "cli_event cx event stage outcome reason =
     (event_new ''client'' event (cx_operation cx) stage outcome reason)
       \<lparr>tv_mode := cx_mode cx, tv_storage_state := storage_name (cx_storage cx),
        tv_awaiting_boot_test := cx_awaiting_boot_test cx, tv_degraded := cx_degraded cx\<rparr>"

definition hand_over :: "telemetry_event \<Rightarrow> cli_operation \<Rightarrow> cli_operation" where
  "hand_over e cx = cx\<lparr>cx_emitter := cx_emitter cx @ [e]\<rparr>"

definition cli_emit :: "string \<Rightarrow> string \<Rightarrow> string \<Rightarrow> string \<Rightarrow> nat \<Rightarrow> cli_operation \<Rightarrow> cli_operation" where
  "cli_emit event stage outcome reason duration cx =
     hand_over ((cli_event cx event stage outcome reason)\<lparr>tv_duration := duration\<rparr>) cx"

definition operation_new :: "string \<Rightarrow> nat \<Rightarrow> cli_operation" where
  "operation_new operation now =
     cli_emit ''operation_started'' ''preflight'' ''started'' ''none'' 0
       \<lparr>cx_emitter = [], cx_operation = operation, cx_started = now, cx_stage_started = now, cx_stage = ''preflight'',
        cx_mode = ''unknown'',
        cx_storage = (if operation = ''enroll'' then NotMutated else if operation = ''resume'' then Unknown else NotApplicable),
        cx_awaiting_boot_test = False, cx_degraded = False, cx_configured = replicate MAX_PROVIDER_OBSERVATIONS None\<rparr>"

definition cli_stage :: "string \<Rightarrow> nat \<Rightarrow> nat \<Rightarrow> cli_operation \<Rightarrow> cli_operation" where
  "cli_stage stage now now' cx =
     (let cx = cli_emit ''phase_completed'' (cx_stage cx) ''success'' ''none'' (now - cx_stage_started cx) cx;
          cx = cx\<lparr>cx_stage := stage, cx_stage_started := now'\<rparr>
      in cli_emit ''phase_started'' stage ''started'' ''none'' 0 cx)"

definition milestone :: "string \<Rightarrow> nat \<Rightarrow> cli_operation \<Rightarrow> cli_operation" where
  "milestone stage now cx = cli_emit ''enrollment_state'' stage ''observed'' ''none'' (now - cx_started cx) cx"

definition set_storage :: "storage_state \<Rightarrow> cli_operation \<Rightarrow> cli_operation" where
  "set_storage storage cx = cx\<lparr>cx_storage := storage\<rparr>"

definition committed :: "nat \<Rightarrow> cli_operation \<Rightarrow> cli_operation" where
  "committed now cx = milestone ''storage_committed'' now (cx\<lparr>cx_storage := Committed, cx_awaiting_boot_test := True\<rparr>)"

definition configure_providers :: "bytes list \<Rightarrow> cli_operation \<Rightarrow> cli_operation" where
  "configure_providers ids cx =
     cx\<lparr>cx_configured := map Some (take (length (cx_configured cx)) ids)
        @ replicate (length (cx_configured cx) - length ids) None\<rparr>"

definition provider_labels :: "provider_outcome \<Rightarrow> string \<times> string" where
  "provider_labels outcome =
     (case outcome of
        NotStarted \<Rightarrow> (''not_started'', ''none'')
      | Authenticated \<Rightarrow> (''authenticated'', ''none'')
      | Failed reason \<Rightarrow> (''failed'', network_reason reason)
      | CanceledQuorum \<Rightarrow> (''canceled_quorum'', ''none'')
      | CanceledDeadline \<Rightarrow> (''canceled_deadline'', ''deadline'')
      | CanceledOperation \<Rightarrow> (''canceled_operation'', ''none''))"

definition provider_event :: "cli_operation \<Rightarrow> string \<Rightarrow> provider_observation \<Rightarrow> telemetry_event" where
  "provider_event cx phase p =
     (let (outcome, reason) = provider_labels (po_outcome p) in
      (cli_event cx ''provider_completed'' phase outcome reason)
        \<lparr>tv_provider_index := map_option (\<lambda>index. word_of_nat (index + 1))
            (position (\<lambda>configured. configured = Some (po_provider_id p)) (cx_configured cx)),
         tv_duration := po_duration p\<rparr>)"

primrec stage_name :: "stage \<Rightarrow> string" where
  "stage_name Validate = ''validate''"
| "stage_name TpmSeal = ''tpm_seal''"
| "stage_name ShareGeneration = ''share_generation''"
| "stage_name stage.Network = ''network''"
| "stage_name TpmUnseal = ''tpm_unseal''"
| "stage_name PreparePayload = ''prepare_payload''"
| "stage_name AuthenticatePayload = ''authenticate_payload''"

definition stage_event :: "stage_observation \<Rightarrow> cli_operation \<Rightarrow> cli_operation" where
  "stage_event so cx =
     cli_emit ''phase_completed'' (stage_name (so_stage so)) (if so_failure so \<noteq> None then ''failure'' else ''success'')
       (case so_failure so of None \<Rightarrow> ''none'' | Some f \<Rightarrow> engine_reason f) (so_duration so) cx"

definition observe_engine :: "operation_report \<Rightarrow> cli_operation \<Rightarrow> cli_operation" where
  "observe_engine report cx =
     (let cx = cx\<lparr>cx_mode := (case report_mode report of Some NetworkBound \<Rightarrow> ''network_bound''
                   | Some Attested \<Rightarrow> ''attested'' | None \<Rightarrow> ''unknown''),
                 cx_degraded := cx_degraded cx \<or> degraded report\<rparr>;
          phase = (case report_phase report of Prepare \<Rightarrow> ''prepare'' | Recover \<Rightarrow> ''recover'');
          cx = fold (\<lambda>p cx. hand_over (provider_event cx phase p) cx) (providers report) cx
      in fold stage_event (stages report) cx)"

definition completion_event :: "(unit, cli_error) result \<Rightarrow> nat \<Rightarrow> cli_operation \<Rightarrow> telemetry_event" where
  "completion_event r now cx =
     (let (reason, native_code) = (case r of Ok _ \<Rightarrow> (''none'', None) | Err e \<Rightarrow> classify e) in
      (cli_event cx ''operation_completed'' (cx_stage cx) (if is_ok r then ''success'' else ''failure'') reason)
        \<lparr>tv_duration := now - cx_started cx, tv_native_code := native_code\<rparr>)"

definition finish_operation :: "(unit, cli_error) result \<Rightarrow> nat \<Rightarrow> nat \<Rightarrow> cli_operation \<Rightarrow> cli_operation" where
  "finish_operation r now now' cx =
     (let event = completion_event r now cx in
      hand_over event
        (cli_emit ''phase_completed'' (cx_stage cx) (tv_outcome event) (tv_reason event) (now' - cx_stage_started cx) cx))"

section \<open>Every event can be delivered\<close>

text \<open>An event whose labels the emitter accepts and whose record a collector decodes, whatever the counters and the clock
  are, unless its duration is out of range.\<close>

definition deliverable :: "telemetry_event \<Rightarrow> bool" where
  "deliverable e \<longleftrightarrow>
     tv_component e \<in> set components \<and> tv_event e \<in> set event_names \<and> tv_operation e \<in> set operations
     \<and> tv_mode e \<in> set modes \<and> tv_storage_state e \<in> set storage_states \<and> tv_stage e \<in> set stage_names
     \<and> tv_outcome e \<in> set outcomes \<and> tv_reason e \<in> set reasons
     \<and> (case tv_provider_index e of None \<Rightarrow> True | Some index \<Rightarrow> 1 \<le> index \<and> index \<le> 31)"

definition wf_operation :: "cli_operation \<Rightarrow> bool" where
  "wf_operation cx \<longleftrightarrow>
     list_all deliverable (cx_emitter cx) \<and> cx_operation cx \<in> set operations \<and> cx_stage cx \<in> set stage_names
     \<and> cx_mode cx \<in> set modes \<and> length (cx_configured cx) \<le> 31"

lemma vocabulary_labels:
  "list_all valid_label (components @ event_names @ operations @ modes @ storage_states @ stage_names @ outcomes @ reasons)"
  by (simp add: components_def event_names_def operations_def modes_def storage_states_def stage_names_def outcomes_def reasons_def
      valid_label_def is_lowercase_def is_digit_def)

lemmas vocabulary_defs =
  components_def event_names_def operations_def modes_def storage_states_def stage_names_def outcomes_def reasons_def

lemma deliverable_record:
  assumes "deliverable e" "length (te_version T) \<le> 48"
    and "list_all (\<lambda>c. is_alphanumeric c \<or> c \<in> set ''.-_'') (te_version T)"
  shows "list_all valid_label (labels e)"
    "record_valid T (make_record T em e sequence time) \<longleftrightarrow> te_within_week T (te_as_secs_f64 T (tv_duration e))"
proof -
  have "vocabulary (make_record T em e sequence time)"
    using assms(1) by (simp add: vocabulary_def make_record_def deliverable_def)
  moreover show "list_all valid_label (labels e)"
    using assms(1) vocabulary_labels by (auto simp: labels_def deliverable_def list_all_iff)
  ultimately show "record_valid T (make_record T em e sequence time) \<longleftrightarrow> te_within_week T (te_as_secs_f64 T (tv_duration e))"
    using assms by (auto simp: record_valid_def make_record_def labels_def deliverable_def)
qed

lemma storage_name_known: "storage_name storage \<in> set storage_states"
  by (cases storage) (simp_all add: storage_states_def)

lemma engine_reason_known: "engine_reason f \<in> set reasons"
  by (cases f) (simp_all add: reasons_def)

lemma network_reason_known: "network_reason f \<in> set reasons"
  by (cases f) (simp_all add: reasons_def)

lemma classify_known: "fst (classify e) \<in> set reasons"
proof (induction e rule: classify.induct)
  case (4 e)
  then show ?case by (cases e) (simp_all add: luks_reason_def reasons_def)
qed (simp_all add: engine_reason_known, simp_all add: reasons_def)

lemma event_deliverable:
  assumes "wf_operation cx" "event \<in> set event_names" "stage \<in> set stage_names" "outcome \<in> set outcomes" "reason \<in> set reasons"
  shows "deliverable (cli_event cx event stage outcome reason)"
  using assms storage_name_known by (simp add: deliverable_def cli_event_def event_new_def wf_operation_def components_def)

lemma emit_wf:
  assumes "wf_operation cx" "event \<in> set event_names" "stage \<in> set stage_names" "outcome \<in> set outcomes" "reason \<in> set reasons"
  shows "wf_operation (cli_emit event stage outcome reason duration cx)"
proof -
  have "deliverable ((cli_event cx event stage outcome reason)\<lparr>tv_duration := duration\<rparr>)"
    using event_deliverable [OF assms] by (simp add: deliverable_def)
  then show ?thesis using assms(1) by (simp add: cli_emit_def hand_over_def wf_operation_def)
qed

lemma operation_new_wf: "operation \<in> set operations \<Longrightarrow> wf_operation (operation_new operation now)"
  unfolding operation_new_def by (rule emit_wf) (simp_all add: wf_operation_def vocabulary_defs)

lemma stage_wf: "wf_operation cx \<Longrightarrow> stage \<in> set stage_names \<Longrightarrow> wf_operation (cli_stage stage now now' cx)"
proof -
  assume cx: "wf_operation cx" and stage: "stage \<in> set stage_names"
  let ?cx = "cli_emit ''phase_completed'' (cx_stage cx) ''success'' ''none'' (now - cx_stage_started cx) cx"
  have "wf_operation ?cx"
    using cx by (intro emit_wf) (simp_all add: wf_operation_def event_names_def outcomes_def reasons_def)
  then have "wf_operation (?cx\<lparr>cx_stage := stage, cx_stage_started := now'\<rparr>)" using stage by (simp add: wf_operation_def)
  then show ?thesis
    unfolding cli_stage_def Let_def using stage by (intro emit_wf) (simp_all add: event_names_def outcomes_def reasons_def)
qed

lemma milestone_wf: "wf_operation cx \<Longrightarrow> stage \<in> set stage_names \<Longrightarrow> wf_operation (milestone stage now cx)"
  unfolding milestone_def by (intro emit_wf) (simp_all add: event_names_def outcomes_def reasons_def)

lemma set_storage_wf: "wf_operation cx \<Longrightarrow> wf_operation (set_storage storage cx)"
  by (simp add: set_storage_def wf_operation_def)

lemma committed_wf: "wf_operation cx \<Longrightarrow> wf_operation (committed now cx)"
  unfolding committed_def by (intro milestone_wf) (simp_all add: wf_operation_def stage_names_def)

lemma configure_providers_wf: "wf_operation cx \<Longrightarrow> wf_operation (configure_providers ids cx)"
  by (auto simp: configure_providers_def wf_operation_def)

lemma provider_labels_known: "fst (provider_labels outcome) \<in> set outcomes \<and> snd (provider_labels outcome) \<in> set reasons"
  by (cases outcome) (simp_all add: provider_labels_def network_reason_known, simp_all add: outcomes_def reasons_def)

lemma provider_event_deliverable:
  assumes "wf_operation cx" "phase \<in> set stage_names"
  shows "deliverable (provider_event cx phase p)"
proof -
  obtain outcome reason where labels: "provider_labels (po_outcome p) = (outcome, reason)" by fastforce
  have known: "deliverable (cli_event cx ''provider_completed'' phase outcome reason)"
    using provider_labels_known [of "po_outcome p"] labels assms
    by (intro event_deliverable) (simp_all add: event_names_def)
  have "1 \<le> (word_of_nat (index + 1) :: u8) \<and> (word_of_nat (index + 1) :: u8) \<le> 31"
    if "position (\<lambda>configured. configured = Some (po_provider_id p)) (cx_configured cx) = Some index" for index
  proof -
    have "index + 1 \<le> 31" using position_SomeD [OF that] assms(1) by (simp add: wf_operation_def)
    then have "unat (word_of_nat (index + 1) :: u8) = index + 1" by (intro unat_u8_of_nat) simp
    then show ?thesis using \<open>index + 1 \<le> 31\<close> by (simp add: word_le_nat_alt)
  qed
  then show ?thesis
    using known by (auto simp: provider_event_def labels deliverable_def split: option.splits)
qed

lemma hand_over_wf: "wf_operation cx \<Longrightarrow> deliverable e \<Longrightarrow> wf_operation (hand_over e cx)"
  by (simp add: hand_over_def wf_operation_def)

lemma stage_event_wf: "wf_operation cx \<Longrightarrow> wf_operation (stage_event so cx)"
proof -
  have "stage_name stage \<in> set stage_names" for stage by (cases stage) (simp_all add: stage_names_def)
  then show "wf_operation cx \<Longrightarrow> wf_operation (stage_event so cx)"
    unfolding stage_event_def
    by (intro emit_wf) (simp_all add: event_names_def outcomes_def engine_reason_known split: option.splits, simp add: reasons_def)
qed

lemma fold_wf: "wf_operation cx \<Longrightarrow> (\<And>x cx. wf_operation cx \<Longrightarrow> wf_operation (f x cx)) \<Longrightarrow> wf_operation (fold f xs cx)"
  by (induction xs arbitrary: cx) simp_all

lemma observe_engine_wf: "wf_operation cx \<Longrightarrow> wf_operation (observe_engine report cx)"
proof -
  assume "wf_operation cx"
  then have "wf_operation (cx\<lparr>cx_mode := (case report_mode report of Some NetworkBound \<Rightarrow> ''network_bound''
      | Some Attested \<Rightarrow> ''attested'' | None \<Rightarrow> ''unknown''), cx_degraded := cx_degraded cx \<or> degraded report\<rparr>)"
    by (simp add: wf_operation_def modes_def split: option.splits mode.splits)
  moreover have "(case report_phase report of Prepare \<Rightarrow> ''prepare'' | Recover \<Rightarrow> ''recover'') \<in> set stage_names"
    by (cases "report_phase report") (simp_all add: stage_names_def)
  ultimately show ?thesis
    unfolding observe_engine_def Let_def
    by (intro fold_wf stage_event_wf hand_over_wf provider_event_deliverable)
qed

lemma completion_event_labels:
  "tv_reason (completion_event r now cx) \<in> set reasons" "tv_outcome (completion_event r now cx) \<in> set outcomes"
  "wf_operation cx \<Longrightarrow> deliverable (completion_event r now cx)"
proof -
  obtain reason code where rc: "(case r of Ok _ \<Rightarrow> (''none'', None) | Err e \<Rightarrow> classify e) = (reason, code)"
    by fastforce
  have reason: "reason \<in> set reasons"
    using rc classify_known by (cases r) (auto simp: reasons_def, metis fst_conv)
  have outcome: "(if is_ok r then ''success'' else ''failure'') \<in> set outcomes" by (simp add: outcomes_def)
  show "tv_reason (completion_event r now cx) \<in> set reasons" "tv_outcome (completion_event r now cx) \<in> set outcomes"
    using reason outcome by (simp_all add: completion_event_def rc cli_event_def event_new_def)
  assume cx: "wf_operation cx"
  then have "deliverable (cli_event cx ''operation_completed'' (cx_stage cx) (if is_ok r then ''success'' else ''failure'') reason)"
    using reason outcome by (intro event_deliverable) (simp_all add: event_names_def wf_operation_def)
  then show "deliverable (completion_event r now cx)" by (simp add: completion_event_def rc deliverable_def)
qed

lemma finish_operation_wf: "wf_operation cx \<Longrightarrow> wf_operation (finish_operation r now now' cx)"
  unfolding finish_operation_def Let_def
  by (intro hand_over_wf emit_wf completion_event_labels) (simp_all add: event_names_def wf_operation_def)

end
