(* ===== verification/Luks.thy ===== *)
theory Luks
  imports Luks_Token
begin

text \<open>
  The LUKS2 device of crates/leelo-luks/src/linux.rs. A \<open>Luks2\<close> value and the world are one state; each
  method is an operation on it. libcryptsetup, the operating system calls, uuid and serde_json are fields of
  \<open>luks_lib\<close>: C functions that write return the world after them, getters only read it, and an output pointer
  that may be null is an option. Dropping a \<open>Luks2\<close> is \<open>crypt_free\<close>, dropping a \<open>WriteLock\<close> is the unlocking
  \<open>fcntl\<close>; closing of descriptors is not modelled.
\<close>

section \<open>State and libraries\<close>

definition SLOT_COUNT :: u8 where [simp]: "SLOT_COUNT = 32"
definition SLOT_INACTIVE :: int where [simp]: "SLOT_INACTIVE = 1"
definition BINARY_HEADER_SIZE :: nat where [simp]: "BINARY_HEADER_SIZE = 4096"
definition NEW_SLOT_JSON_RESERVE :: nat where [simp]: "NEW_SLOT_JSON_RESERVE = 4096"

type_synonym os_error = "int option"

record ('cd, 'file, 'v, 'w) luks_lib =
  crypt_init :: "string \<Rightarrow> 'w \<Rightarrow> (int \<times> 'cd option) \<times> 'w"
  crypt_free :: "'cd \<Rightarrow> 'w \<Rightarrow> 'w"
  crypt_load :: "'cd \<Rightarrow> string \<Rightarrow> 'w \<Rightarrow> int \<times> 'w"
  crypt_get_uuid :: "'cd \<Rightarrow> 'w \<Rightarrow> bytes option"
  crypt_get_metadata_size :: "'cd \<Rightarrow> 'w \<Rightarrow> int \<times> u64"
  crypt_dump_json :: "'cd \<Rightarrow> 'w \<Rightarrow> int \<times> bytes option"
  crypt_keyslot_status :: "'cd \<Rightarrow> int \<Rightarrow> 'w \<Rightarrow> int"
  crypt_keyslot_add_by_passphrase :: "'cd \<Rightarrow> int \<Rightarrow> bytes \<Rightarrow> bytes \<Rightarrow> 'w \<Rightarrow> int \<times> 'w"
  crypt_activate_by_passphrase :: "'cd \<Rightarrow> string option \<Rightarrow> int \<Rightarrow> bytes \<Rightarrow> 'w \<Rightarrow> int \<times> 'w"
  crypt_token_json_set :: "'cd \<Rightarrow> int \<Rightarrow> string \<Rightarrow> 'w \<Rightarrow> int \<times> 'w"
  crypt_token_json_get :: "'cd \<Rightarrow> int \<Rightarrow> 'w \<Rightarrow> int \<times> bytes option"
  open_file :: "string \<Rightarrow> bool \<Rightarrow> 'w \<Rightarrow> ('file, os_error) result \<times> 'w"
  raw_fd :: "'file \<Rightarrow> nat"
  try_clone :: "'file \<Rightarrow> 'w \<Rightarrow> ('file, os_error) result \<times> 'w"
  set_lock :: "'file \<Rightarrow> 'w \<Rightarrow> (unit, os_error) result \<times> 'w"
  clear_lock :: "'file \<Rightarrow> 'w \<Rightarrow> 'w"
  sync_all :: "'file \<Rightarrow> 'w \<Rightarrow> (unit, os_error) result \<times> 'w"
  parse_uuid :: "string \<Rightarrow> bytes option"
  value_from_slice :: "bytes \<Rightarrow> 'v option"
  value_get :: "'v \<Rightarrow> string \<Rightarrow> 'v option"
  value_as_object :: "'v \<Rightarrow> (string \<Rightarrow> 'v option) option"
  value_to_string :: "'v \<Rightarrow> string option"
  token_json :: token_lib

record ('cd, 'file) luks2 =
  dev_cd :: 'cd
  dev_file :: 'file
  dev_uuid :: bytes
  dev_writable :: bool

record 'v metadata =
  md_parsed :: 'v
  md_json_bytes :: nat
  md_available :: nat

record ('cd, 'file, 'w) luks_state =
  ls_dev :: "('cd, 'file) luks2"
  ls_world :: 'w

section \<open>Calls\<close>

definition checked :: "string \<Rightarrow> int \<Rightarrow> (int, luks_error) result" where
  "checked operation code = (if code < 0 then Err (Cryptsetup operation code) else Ok code)"

definition partial :: "u8 \<Rightarrow> string \<Rightarrow> luks_error \<Rightarrow> luks_error" where
  "partial slot stage source = PartialEnrollment slot stage source"

text \<open>An operation on the world, calls and reads that get the device, and the two kinds of destructors: one that
  runs when a function fails, one that runs on every way out.\<close>

definition on_world :: "('w, 'a, 'e) io \<Rightarrow> (('cd, 'file, 'w) luks_state, 'a, 'e) io" where
  "on_world m s = map_option (\<lambda>(r, w). (r, s\<lparr>ls_world := w\<rparr>)) (m (ls_world s))"

definition with_dev :: "(('cd, 'file) luks2 \<Rightarrow> (('cd, 'file, 'w) luks_state, 'a, 'e) io) \<Rightarrow> (('cd, 'file, 'w) luks_state, 'a, 'e) io" where
  "with_dev f s = f (ls_dev s) s"

definition call_dev :: "(('cd, 'file) luks2 \<Rightarrow> 'w \<Rightarrow> 'a \<times> 'w) \<Rightarrow> (('cd, 'file, 'w) luks_state, 'a, 'e) io" where
  "call_dev f = with_dev (\<lambda>dev. on_world (io_do (f dev)))"

definition call_try :: "(('cd, 'file) luks2 \<Rightarrow> 'w \<Rightarrow> ('a, 'e) result \<times> 'w) \<Rightarrow> (('cd, 'file, 'w) luks_state, 'a, 'e) io" where
  "call_try f = with_dev (\<lambda>dev. on_world (io_try (f dev)))"

definition read_dev :: "(('cd, 'file) luks2 \<Rightarrow> 'w \<Rightarrow> 'a) \<Rightarrow> (('cd, 'file, 'w) luks_state, 'a, 'e) io" where
  "read_dev f s = Some (Ok (f (ls_dev s) (ls_world s)), s)"

definition set_dev :: "('cd, 'file) luks2 \<Rightarrow> (('cd, 'file, 'w) luks_state, unit, 'e) io" where
  "set_dev dev s = Some (Ok (), s\<lparr>ls_dev := dev\<rparr>)"

definition on_error :: "('w \<Rightarrow> 'w) \<Rightarrow> ('w, 'a, 'e) io \<Rightarrow> ('w, 'a, 'e) io" where
  "on_error undo m w = (case m w of Some (Err e, w') \<Rightarrow> Some (Err e, undo w') | r \<Rightarrow> r)"

definition on_exit :: "('w \<Rightarrow> 'w) \<Rightarrow> (('cd, 'file, 'w) luks_state, 'a, 'e) io \<Rightarrow> (('cd, 'file, 'w) luks_state, 'a, 'e) io" where
  "on_exit undo m s = map_option (\<lambda>(r, s'). (r, s'\<lparr>ls_world := undo (ls_world s')\<rparr>)) (m s)"

definition fd_path :: "nat \<Rightarrow> string" where
  "fd_path fd = ''/proc/self/fd/'' @ decimal fd"

definition is_some_and :: "('a \<Rightarrow> bool) \<Rightarrow> 'a option \<Rightarrow> bool" where
  "is_some_and p x = (case x of None \<Rightarrow> False | Some y \<Rightarrow> p y)"

definition u8_try_from :: "int \<Rightarrow> u8 option" where
  "u8_try_from i = (if 0 \<le> i \<and> i < 256 then Some (word_of_int i) else None)"

section \<open>Opening\<close>

definition from_file :: "('cd, 'file, 'v, 'w) luks_lib \<Rightarrow> 'file \<Rightarrow> bool \<Rightarrow> ('w, ('cd, 'file) luks2, luks_error) io" where
  "from_file L file writable =
     io_then (io_of (ok_or InvalidInput (cstring_new (fd_path (raw_fd L file))))) (\<lambda>name.
     io_then (io_do (crypt_init L name)) (\<lambda>(code, raw).
     io_then (io_of (checked ''initialize'' code)) (\<lambda>_.
     io_then (io_of (ok_or InvalidInput raw)) (\<lambda>cd.
     on_error (crypt_free L cd) (
       io_then (io_do (crypt_load L cd ''LUKS2'')) (\<lambda>code.
       io_then (io_of (checked ''load header'' code)) (\<lambda>_.
       io_then (io_do (\<lambda>w. (crypt_get_uuid L cd w, w))) (\<lambda>uuid.
       io_then (io_of (ok_or WrongVolume uuid)) (\<lambda>bs.
       io_then (io_of (ok_or WrongVolume (to_str bs))) (\<lambda>text.
       io_then (io_of (ok_or WrongVolume (parse_uuid L text))) (\<lambda>uuid.
         io_of (Ok \<lparr>dev_cd = cd, dev_file = file, dev_uuid = uuid, dev_writable = writable\<rparr>))))))))))))"

definition open_device :: "('cd, 'file, 'v, 'w) luks_lib \<Rightarrow> string \<Rightarrow> bool \<Rightarrow> ('w, ('cd, 'file) luks2, luks_error) io" where
  "open_device L path writable =
     io_then (io_map_err Io (io_try (open_file L path writable))) (\<lambda>file. from_file L file writable)"

definition free_context :: "('cd, 'file, 'v, 'w) luks_lib \<Rightarrow> ('cd, 'file) luks2 \<Rightarrow> (('cd, 'file, 'w) luks_state, unit, luks_error) io" where
  "free_context L dev = on_world (io_do (\<lambda>w. ((), crypt_free L (dev_cd dev) w)))"

definition reload :: "('cd, 'file, 'v, 'w) luks_lib \<Rightarrow> (('cd, 'file, 'w) luks_state, unit, luks_error) io" where
  "reload L = with_dev (\<lambda>dev.
     io_then (on_world (io_map_err Io (io_try (try_clone L (dev_file dev))))) (\<lambda>file.
     io_then (on_world (from_file L file (dev_writable dev))) (\<lambda>fresh.
     if dev_uuid fresh \<noteq> dev_uuid dev
     then io_then (free_context L fresh) (\<lambda>_. io_of (Err WrongVolume))
     else io_then (set_dev fresh) (\<lambda>_. free_context L dev))))"

definition luks_uuid :: "('cd, 'file) luks2 \<Rightarrow> bytes" where
  "luks_uuid dev = dev_uuid dev"

section \<open>Slots and credentials\<close>

definition slot_status :: "('cd, 'file, 'v, 'w) luks_lib \<Rightarrow> u8 \<Rightarrow> (('cd, 'file, 'w) luks_state, int, luks_error) io" where
  "slot_status L slot =
     (if slot \<ge> SLOT_COUNT then io_of (Err InvalidInput)
      else read_dev (\<lambda>dev. crypt_keyslot_status L (dev_cd dev) (uint slot)))"

primrec free_slot :: "('cd, 'file, 'v, 'w) luks_lib \<Rightarrow> u8 list \<Rightarrow> (('cd, 'file, 'w) luks_state, u8, luks_error) io" where
  "free_slot L [] = io_of (Err OccupiedSlot)"
| "free_slot L (slot # slots) = io_then (slot_status L slot) (\<lambda>status.
     if status = SLOT_INACTIVE then io_of (Ok slot) else free_slot L slots)"

definition slots :: "u8 list" where
  "slots = map word_of_nat [0..<unat SLOT_COUNT]"

definition first_free_slot :: "('cd, 'file, 'v, 'w) luks_lib \<Rightarrow> (('cd, 'file, 'w) luks_state, u8, luks_error) io" where
  "first_free_slot L = io_then (reload L) (\<lambda>_. free_slot L slots)"

definition activate_inner :: "('cd, 'file, 'v, 'w) luks_lib \<Rightarrow> u8 option \<Rightarrow> bytes \<Rightarrow> string option
      \<Rightarrow> (('cd, 'file, 'w) luks_state, u8, luks_error) io" where
  "activate_inner L slot credential mapping =
     (if is_some_and (\<lambda>s. s \<ge> SLOT_COUNT) slot \<or> credential = [] \<or> length credential > 8192 then io_of (Err InvalidInput)
      else
        io_then (io_of (case mapping of None \<Rightarrow> Ok None | Some m \<Rightarrow> map_ok Some (ok_or InvalidInput (cstring_new m)))) (\<lambda>name.
        io_then (call_dev (\<lambda>dev. crypt_activate_by_passphrase L (dev_cd dev) name
            (case slot of None \<Rightarrow> -1 | Some s \<Rightarrow> uint s) credential)) (\<lambda>code.
        io_then (io_of (checked ''check or activate credential'' code)) (\<lambda>result.
        io_then (io_of (ok_or MetadataChanged (u8_try_from result))) (\<lambda>actual.
          io_of (if actual \<ge> SLOT_COUNT \<or> is_some_and (\<lambda>expected. expected \<noteq> actual) slot
                 then Err MetadataChanged else Ok actual))))))"

definition test_credential :: "('cd, 'file, 'v, 'w) luks_lib \<Rightarrow> u8 option \<Rightarrow> bytes
      \<Rightarrow> (('cd, 'file, 'w) luks_state, u8, luks_error) io" where
  "test_credential L slot credential = io_then (reload L) (\<lambda>_. activate_inner L slot credential None)"

definition activate :: "('cd, 'file, 'v, 'w) luks_lib \<Rightarrow> u8 \<Rightarrow> bytes \<Rightarrow> string
      \<Rightarrow> (('cd, 'file, 'w) luks_state, unit, luks_error) io" where
  "activate L slot credential mapping =
     (if mapping = [] \<or> length mapping > 127
         \<or> \<not> list_all (\<lambda>c. is_alphanumeric c \<or> c \<in> set ''_-.'') mapping then io_of (Err InvalidInput)
      else io_then (reload L) (\<lambda>_.
           io_then (activate_inner L (Some slot) credential (Some mapping)) (\<lambda>_. io_of (Ok ()))))"

section \<open>Tokens\<close>

definition read_metadata :: "('cd, 'file, 'v, 'w) luks_lib \<Rightarrow> (('cd, 'file, 'w) luks_state, 'v metadata, luks_error) io" where
  "read_metadata L =
     io_then (read_dev (\<lambda>dev. crypt_get_metadata_size L (dev_cd dev))) (\<lambda>(code, region).
     io_then (io_of (checked ''read metadata size'' code)) (\<lambda>_.
     io_then (io_of (if unat region < BINARY_HEADER_SIZE \<or> unat region - BINARY_HEADER_SIZE > 4 * 1024 * 1024
                     then Err WrongVolume else Ok (unat region - BINARY_HEADER_SIZE))) (\<lambda>available.
     io_then (read_dev (\<lambda>dev. crypt_dump_json L (dev_cd dev))) (\<lambda>(code, json).
     io_then (io_of (checked ''read metadata JSON'' code)) (\<lambda>_.
     io_then (io_of (ok_or WrongVolume json)) (\<lambda>bs.
     io_then (io_of (ok_or WrongVolume (value_from_slice L bs))) (\<lambda>parsed.
       io_of (Ok \<lparr>md_parsed = parsed, md_json_bytes = length bs, md_available = available\<rparr>))))))))"

definition token_table :: "('cd, 'file, 'v, 'w) luks_lib \<Rightarrow> 'v metadata \<Rightarrow> (string \<Rightarrow> 'v option, luks_error) result" where
  "token_table L md = ok_or WrongVolume (Option.bind (value_get L (md_parsed md) ''tokens'') (value_as_object L))"

definition token_plan :: "('cd, 'file, 'v, 'w) luks_lib \<Rightarrow> u8 \<Rightarrow> bytes \<Rightarrow> bool
      \<Rightarrow> (('cd, 'file, 'w) luks_state, u8 \<times> string, luks_error) io" where
  "token_plan L slot envelope adding_slot =
     io_then (io_of (encode_token (token_json L) slot envelope)) (\<lambda>json.
     io_then (read_metadata L) (\<lambda>md.
     io_then (io_of (token_table L md)) (\<lambda>tokens.
     io_then (io_of (ok_or NoTokenSpace (find (\<lambda>i. tokens (decimal (unat i)) = None) slots))) (\<lambda>i.
     let required = md_json_bytes md + length json + length (decimal (unat i)) + 5
           + (if adding_slot then NEW_SLOT_JSON_RESERVE else 0)
     in if required > md_available md then io_of (Err (MetadataSpace required (md_available md)))
        else io_of (map_ok (\<lambda>text. (i, text)) (ok_or InvalidToken (cstring_new json)))))))"

definition cached_token :: "('cd, 'file, 'v, 'w) luks_lib \<Rightarrow> u8 \<Rightarrow> (('cd, 'file, 'w) luks_state, token_envelope, luks_error) io" where
  "cached_token L i =
     (if i \<ge> SLOT_COUNT then io_of (Err InvalidInput)
      else io_then (read_dev (\<lambda>dev. crypt_token_json_get L (dev_cd dev) (uint i))) (\<lambda>(code, json).
           io_then (io_of (checked ''read token'' code)) (\<lambda>_.
           io_then (io_of (ok_or InvalidToken json)) (\<lambda>bs.
           io_then (io_of (ok_or InvalidToken (to_str bs))) (\<lambda>text.
             io_of (decode_token (token_json L) text))))))"

definition read_token :: "('cd, 'file, 'v, 'w) luks_lib \<Rightarrow> u8 \<Rightarrow> (('cd, 'file, 'w) luks_state, token_envelope, luks_error) io" where
  "read_token L i = io_then (reload L) (\<lambda>_. cached_token L i)"

definition verify_persisted :: "('cd, 'file, 'v, 'w) luks_lib \<Rightarrow> u8 \<Rightarrow> u8 \<Rightarrow> bytes \<Rightarrow> bytes
      \<Rightarrow> (('cd, 'file, 'w) luks_state, unit, luks_error) io" where
  "verify_persisted L i slot credential envelope =
     io_then (reload L) (\<lambda>_.
     io_then (cached_token L i) (\<lambda>token.
       if te_slot token \<noteq> slot \<or> te_bytes token \<noteq> envelope then io_of (Err MetadataChanged)
       else io_then (activate_inner L (Some slot) credential None) (\<lambda>_. io_of (Ok ()))))"

section \<open>Enrollment\<close>

definition acquire :: "('cd, 'file, 'v, 'w) luks_lib \<Rightarrow> 'file \<Rightarrow> ('w, 'file, luks_error) io" where
  "acquire L file =
     io_then (io_map_err Io (io_try (try_clone L file))) (\<lambda>guard.
     io_then (io_map_err (\<lambda>e. if e = Some 11 \<or> e = Some 13 then WriterBusy else Io e) (io_try (set_lock L guard))) (\<lambda>_.
       io_of (Ok guard)))"

text \<open>The guard is dropped on every way out of the function that holds it.\<close>

definition with_lock :: "('cd, 'file, 'v, 'w) luks_lib \<Rightarrow> (('cd, 'file, 'w) luks_state, 'a, luks_error) io
      \<Rightarrow> (('cd, 'file, 'w) luks_state, 'a, luks_error) io" where
  "with_lock L m = with_dev (\<lambda>dev.
     io_then (on_world (acquire L (dev_file dev))) (\<lambda>guard. on_exit (clear_lock L guard) m))"

text \<open>The search for a token of this slot and envelope; entries that do not decode are other people's.\<close>

primrec matching_token :: "('cd, 'file, 'v, 'w) luks_lib \<Rightarrow> (string \<Rightarrow> 'v option) \<Rightarrow> u8 \<Rightarrow> bytes \<Rightarrow> u8 list
      \<Rightarrow> (u8 option, luks_error) result" where
  "matching_token L tokens slot envelope [] = Ok None"
| "matching_token L tokens slot envelope (i # rest) =
     (case tokens (decimal (unat i)) of
        None \<Rightarrow> matching_token L tokens slot envelope rest
      | Some v \<Rightarrow> and_then (ok_or InvalidToken (value_to_string L v)) (\<lambda>json.
          case decode_token (token_json L) json of
            Ok token \<Rightarrow> if te_slot token = slot \<and> te_bytes token = envelope then Ok (Some i)
                        else matching_token L tokens slot envelope rest
          | Err _ \<Rightarrow> matching_token L tokens slot envelope rest))"

definition write_token :: "('cd, 'file, 'v, 'w) luks_lib \<Rightarrow> u8 \<Rightarrow> bytes \<Rightarrow> bytes
      \<Rightarrow> (('cd, 'file, 'w) luks_state, int, luks_error) io" where
  "write_token L slot credential envelope =
     io_then (token_plan L slot envelope False) (\<lambda>(i, json).
     io_then (call_dev (\<lambda>dev. crypt_token_json_set L (dev_cd dev) (-1) json)) (\<lambda>code.
     io_then (io_of (map_err (partial slot ''token write'') (checked ''write token'' code))) (\<lambda>result.
     if result \<noteq> uint i then io_of (Err (partial slot ''token identity'' MetadataChanged))
     else
       io_then (io_map_err (\<lambda>e. partial slot ''token sync'' (Io e)) (call_try (\<lambda>dev. sync_all L (dev_file dev)))) (\<lambda>_.
       io_then (io_map_err (partial slot ''token readback'') (verify_persisted L i slot credential envelope)) (\<lambda>_.
         io_of (Ok result))))))"

definition attach_locked :: "('cd, 'file, 'v, 'w) luks_lib \<Rightarrow> u8 \<Rightarrow> bytes \<Rightarrow> bytes
      \<Rightarrow> (('cd, 'file, 'w) luks_state, int, luks_error) io" where
  "attach_locked L slot credential envelope =
     io_then (reload L) (\<lambda>_.
     io_then (activate_inner L (Some slot) credential None) (\<lambda>_.
     io_then (read_metadata L) (\<lambda>md.
     io_then (io_of (token_table L md)) (\<lambda>tokens.
     io_then (io_of (matching_token L tokens slot envelope slots)) (\<lambda>found.
       case found of
         Some i \<Rightarrow> io_then (verify_persisted L i slot credential envelope) (\<lambda>_. io_of (Ok (uint i)))
       | None \<Rightarrow> write_token L slot credential envelope)))))"

definition attach_enrollment :: "('cd, 'file, 'v, 'w) luks_lib \<Rightarrow> u8 \<Rightarrow> bytes \<Rightarrow> bytes
      \<Rightarrow> (('cd, 'file, 'w) luks_state, int, luks_error) io" where
  "attach_enrollment L slot credential envelope = with_dev (\<lambda>dev.
     if \<not> dev_writable dev then io_of (Err ReadOnly)
     else with_lock L (attach_locked L slot credential envelope))"

text \<open>A failed slot write: the header is read again, and only an inactive slot makes the error final.\<close>

definition failed_slot :: "('cd, 'file, 'v, 'w) luks_lib \<Rightarrow> u8 \<Rightarrow> int \<Rightarrow> (('cd, 'file, 'w) luks_state, 'a, luks_error) io" where
  "failed_slot L slot code s =
     map_option (\<lambda>(r, s'). (Err (if r = Ok SLOT_INACTIVE then Cryptsetup ''add slot'' code
                                 else partial slot ''slot write'' (Cryptsetup ''add slot'' code)), s'))
       (io_then (reload L) (\<lambda>_. slot_status L slot) s)"

definition add_locked :: "('cd, 'file, 'v, 'w) luks_lib \<Rightarrow> u8 \<Rightarrow> bytes \<Rightarrow> bytes \<Rightarrow> bytes
      \<Rightarrow> (('cd, 'file, 'w) luks_state, int, luks_error) io" where
  "add_locked L slot old new envelope =
     io_then (reload L) (\<lambda>_.
     io_then (slot_status L slot) (\<lambda>status.
     if status \<noteq> SLOT_INACTIVE then io_of (Err OccupiedSlot)
     else
       io_then (activate_inner L None old None) (\<lambda>_.
       io_then (token_plan L slot envelope True) (\<lambda>_.
       io_then (call_dev (\<lambda>dev. crypt_keyslot_add_by_passphrase L (dev_cd dev) (uint slot) old new)) (\<lambda>result.
       if result < 0 then failed_slot L slot result
       else if result \<noteq> uint slot then io_of (Err (partial slot ''slot identity'' MetadataChanged))
       else
         io_then (io_map_err (\<lambda>e. partial slot ''slot sync'' (Io e)) (call_try (\<lambda>dev. sync_all L (dev_file dev)))) (\<lambda>_.
           io_map_err (partial slot ''token attachment'') (attach_locked L slot new envelope)))))))"

definition add_enrollment :: "('cd, 'file, 'v, 'w) luks_lib \<Rightarrow> u8 \<Rightarrow> bytes \<Rightarrow> bytes \<Rightarrow> bytes
      \<Rightarrow> (('cd, 'file, 'w) luks_state, int, luks_error) io" where
  "add_enrollment L slot old new envelope = with_dev (\<lambda>dev.
     if \<not> dev_writable dev then io_of (Err ReadOnly)
     else with_lock L (add_locked L slot old new envelope))"

end
