(* ===== verification/Luks_Enrollment.thy ===== *)
theory Luks_Enrollment
  imports Luks
begin

text \<open>
  What the two enrollment operations of \<open>Luks\<close> guarantee: an error that is not \<open>PartialEnrollment\<close> left the
  header as it was, or the slot write was refused and the slot is still inactive; success means that the
  token was read back from the reloaded header and the credential opened exactly the requested slot.
\<close>

section \<open>Calls that keep the header\<close>

text \<open>\<open>H\<close> observes the header in the world. Only the two writing calls may change it.\<close>

definition reads_keep_header :: "('cd, 'file, 'v, 'w) luks_lib \<Rightarrow> ('w \<Rightarrow> 'h) \<Rightarrow> bool" where
  "reads_keep_header L H \<longleftrightarrow>
     (\<forall>name w. H (snd (crypt_init L name w)) = H w)
     \<and> (\<forall>cd w. H (crypt_free L cd w) = H w)
     \<and> (\<forall>cd kind w. H (snd (crypt_load L cd kind w)) = H w)
     \<and> (\<forall>cd name slot credential w. H (snd (crypt_activate_by_passphrase L cd name slot credential w)) = H w)
     \<and> (\<forall>file w. H (snd (try_clone L file w)) = H w)
     \<and> (\<forall>file w. H (snd (set_lock L file w)) = H w)
     \<and> (\<forall>file w. H (clear_lock L file w) = H w)
     \<and> (\<forall>file w. H (snd (sync_all L file w)) = H w)"

lemma keeps_on_world [kept]: "keeps H m \<Longrightarrow> keeps (\<lambda>s. H (ls_world s)) (on_world m)"
  by (auto simp: keeps_def on_world_def)

lemma keeps_with_dev [kept]: "(\<And>dev. keeps H (f dev)) \<Longrightarrow> keeps H (with_dev f)"
  by (simp add: keeps_def with_dev_def)

lemma keeps_set_dev [kept]: "keeps (\<lambda>s. H (ls_world s)) (set_dev dev)"
  by (simp add: keeps_def set_dev_def)

lemma keeps_read_dev [kept]: "keeps H (read_dev f)"
  by (simp add: keeps_def read_dev_def)

lemma keeps_call [kept]:
  "(\<And>dev w. H (snd (f dev w)) = H w) \<Longrightarrow> keeps (\<lambda>s. H (ls_world s)) (call_dev f)"
  "(\<And>dev w. H (snd (g dev w)) = H w) \<Longrightarrow> keeps (\<lambda>s. H (ls_world s)) (call_try g)"
  unfolding call_dev_def call_try_def by (intro kept; simp)+

lemma keeps_on_error [kept]: "(\<And>w. H (undo w) = H w) \<Longrightarrow> keeps H m \<Longrightarrow> keeps H (on_error undo m)"
  by (fastforce simp: keeps_def on_error_def split: option.splits prod.splits result.splits)

lemma reload_keeps [kept]:
  assumes "reads_keep_header L H"
  shows "keeps (\<lambda>s. H (ls_world s)) (reload L)"
  unfolding reload_def from_file_def free_context_def
  by (intro kept) (use assms in \<open>simp_all add: reads_keep_header_def\<close>)

lemma reading_keeps [kept]:
  "keeps H (slot_status L slot)" "keeps H (read_metadata L)" "keeps H (cached_token L i)" "keeps H (token_plan L slot envelope adding)"
  unfolding slot_status_def read_metadata_def cached_token_def token_plan_def Let_def
  by (intro kept)+

lemma activate_keeps [kept]:
  assumes "reads_keep_header L H"
  shows "keeps (\<lambda>s. H (ls_world s)) (activate_inner L slot credential mapping)"
  unfolding activate_inner_def
  by (intro kept) (use assms in \<open>simp_all add: reads_keep_header_def\<close>)

lemma verify_keeps [kept]:
  assumes "reads_keep_header L H"
  shows "keeps (\<lambda>s. H (ls_world s)) (verify_persisted L i slot credential envelope)"
  unfolding verify_persisted_def by (intro kept assms)

section \<open>Errors\<close>

primrec is_partial :: "luks_error \<Rightarrow> bool" where
  "is_partial UnsupportedPlatform = False" | "is_partial (Io code) = False" | "is_partial InvalidInput = False"
| "is_partial (Cryptsetup operation code) = False" | "is_partial WrongVolume = False" | "is_partial OccupiedSlot = False"
| "is_partial InvalidToken = False" | "is_partial ReadOnly = False" | "is_partial WriterBusy = False"
| "is_partial NoTokenSpace = False" | "is_partial (MetadataSpace required available) = False"
| "is_partial MetadataChanged = False" | "is_partial (PartialEnrollment slot stage source) = True"

lemma is_partial_partial [simp]: "is_partial (partial slot stage e)"
  by (simp add: partial_def)

text \<open>\<open>final_error H Q m\<close>: an error of \<open>m\<close> that is not partial leaves \<open>H\<close> as it was, or \<open>Q\<close> holds.
  \<open>late_error Q m\<close> is the same after a write.\<close>

definition final_error :: "('s \<Rightarrow> 'h) \<Rightarrow> (luks_error \<Rightarrow> 's \<Rightarrow> bool) \<Rightarrow> ('s, 'a, luks_error) io \<Rightarrow> bool" where
  "final_error H Q m \<longleftrightarrow> (\<forall>s e s'. m s = Some (Err e, s') \<longrightarrow> \<not> is_partial e \<longrightarrow> H s' = H s \<or> Q e s')"

definition late_error :: "(luks_error \<Rightarrow> 's \<Rightarrow> bool) \<Rightarrow> ('s, 'a, luks_error) io \<Rightarrow> bool" where
  "late_error Q m \<longleftrightarrow> (\<forall>s e s'. m s = Some (Err e, s') \<longrightarrow> \<not> is_partial e \<longrightarrow> Q e s')"

lemma final_keeps: "keeps H m \<Longrightarrow> final_error H Q m"
  by (simp add: keeps_def final_error_def)

lemma final_then:
  assumes "keeps H m" "\<And>x. final_error H Q (f x)"
  shows "final_error H Q (io_then m f)"
  unfolding final_error_def
proof (intro allI impI)
  fix s e s' assume run: "io_then m f s = Some (Err e, s')" and e: "\<not> is_partial e"
  from run consider "m s = Some (Err e, s')" | x s1 where "m s = Some (Ok x, s1)" "f x s1 = Some (Err e, s')"
    by (auto simp: io_simps)
  then show "H s' = H s \<or> Q e s'"
  proof cases
    case 1
    then show ?thesis using assms(1) by (simp add: keeps_def)
  next
    case 2
    then have "H s1 = H s" using assms(1) unfolding keeps_def by blast
    then show ?thesis using 2 e assms(2) unfolding final_error_def by metis
  qed
qed

lemma final_if: "final_error H Q m \<Longrightarrow> final_error H Q n \<Longrightarrow> final_error H Q (if b then m else n)"
  by simp

lemma final_prod: "(\<And>x y. final_error H Q (f x y)) \<Longrightarrow> final_error H Q (case p of (x, y) \<Rightarrow> f x y)"
  by (cases p) simp

lemma final_call: "(\<And>x. late_error Q (f x)) \<Longrightarrow> final_error H Q (io_then (call_dev g) f)"
  by (auto simp: final_error_def late_error_def io_simps call_dev_def with_dev_def on_world_def io_do_def split: prod.splits)

lemma late_then: "late_error Q m \<Longrightarrow> (\<And>x. late_error Q (f x)) \<Longrightarrow> late_error Q (io_then m f)"
  by (auto simp: late_error_def io_simps)

lemma late_partial: "(\<And>e. is_partial (g e)) \<Longrightarrow> late_error Q (io_map_err g m)"
  by (auto simp: late_error_def io_simps)

lemma late_of: "is_partial e \<Longrightarrow> late_error Q (io_of (Err e))" "late_error Q (io_of (Ok x))"
    "(\<And>e. is_partial (g e)) \<Longrightarrow> late_error Q (io_of (map_err g r))"
  by (auto simp: late_error_def io_simps result_simps)

lemma late_if: "late_error Q m \<Longrightarrow> late_error Q n \<Longrightarrow> late_error Q (if b then m else n)"
  by simp

lemmas final_intros = final_then final_if final_prod final_call late_then late_partial late_of late_if

lemma write_token_final: "final_error H Q (write_token L slot credential envelope)"
  unfolding write_token_def by (intro final_intros kept) simp_all

lemma attach_locked_final:
  assumes "reads_keep_header L H"
  shows "final_error (\<lambda>s. H (ls_world s)) Q (attach_locked L slot credential envelope)"
proof -
  have "keeps (\<lambda>s. H (ls_world s)) (io_then (verify_persisted L i slot credential envelope) (\<lambda>_. io_of (Ok (uint i))))" for i
    by (intro kept assms)
  then show ?thesis
    unfolding attach_locked_def
    by (intro final_then kept assms) (auto intro: final_keeps write_token_final split: option.splits)
qed

text \<open>The slot write was refused and the reloaded header shows the slot inactive.\<close>

definition refused :: "('cd, 'file, 'v, 'w) luks_lib \<Rightarrow> u8 \<Rightarrow> luks_error \<Rightarrow> ('cd, 'file, 'w) luks_state \<Rightarrow> bool" where
  "refused L slot e s \<longleftrightarrow> (\<exists>code<0. e = Cryptsetup ''add slot'' code)
     \<and> crypt_keyslot_status L (dev_cd (ls_dev s)) (uint slot) (ls_world s) = SLOT_INACTIVE"

lemma failed_slot_late: "code < 0 \<Longrightarrow> late_error (refused L slot) (failed_slot L slot code)"
  by (auto simp: late_error_def failed_slot_def refused_def slot_status_def read_dev_def io_simps split: if_splits)

lemma add_locked_final:
  assumes "reads_keep_header L H"
  shows "final_error (\<lambda>s. H (ls_world s)) (refused L slot) (add_locked L slot old new envelope)"
proof -
  have "late_error (refused L slot) (if result < 0 then failed_slot L slot result
       else if result \<noteq> uint slot then io_of (Err (partial slot ''slot identity'' MetadataChanged))
       else io_then (io_map_err (\<lambda>e. partial slot ''slot sync'' (Io e)) (call_try (\<lambda>dev. sync_all L (dev_file dev)))) (\<lambda>_.
           io_map_err (partial slot ''token attachment'') (attach_locked L slot new envelope)))" for result
  proof (cases "result < 0")
    case True
    then show ?thesis using failed_slot_late by simp
  next
    case False
    then show ?thesis by (simp only: if_False) (intro final_intros; simp)
  qed
  then show ?thesis
    unfolding add_locked_def
    by (intro final_then final_if final_call final_keeps [OF keeps_of] kept assms)
qed

lemma with_lock_final:
  assumes "reads_keep_header L H" "final_error (\<lambda>s. H (ls_world s)) Q m"
    and "\<And>e s w. Q e s \<Longrightarrow> H w = H (ls_world s) \<Longrightarrow> Q' e (s\<lparr>ls_world := w\<rparr>)"
  shows "final_error (\<lambda>s. H (ls_world s)) Q' (with_lock L m)"
proof -
  have acquire: "keeps H (acquire L f)" for f
    unfolding acquire_def by (intro kept) (use assms(1) in \<open>simp_all add: reads_keep_header_def\<close>)
  have clear: "H (clear_lock L guard w) = H w" for guard w
    using assms(1) by (simp add: reads_keep_header_def)
  have "final_error (\<lambda>s. H (ls_world s)) Q' (on_exit (clear_lock L guard) m)" for guard
    using assms(2,3) clear by (fastforce simp: final_error_def on_exit_def)
  then have "final_error (\<lambda>s. H (ls_world s)) Q'
      (io_then (on_world (acquire L f)) (\<lambda>guard. on_exit (clear_lock L guard) m))" for f
    by (intro final_then keeps_on_world acquire)
  then show ?thesis by (simp add: final_error_def with_lock_def with_dev_def)
qed

lemma refused_unlock:
  "refused L slot e s \<Longrightarrow> H w = H (ls_world s) \<Longrightarrow>
     \<exists>w'. H w' = H (ls_world (s\<lparr>ls_world := w\<rparr>)) \<and> refused L slot e (s\<lparr>ls_world := w, ls_world := w'\<rparr>)"
  by (intro exI [of _ "ls_world s"]) simp

section \<open>Success\<close>

text \<open>The token reads back as slot and envelope, and the credential opens exactly the slot.\<close>

definition persisted :: "('cd, 'file, 'v, 'w) luks_lib \<Rightarrow> u8 \<Rightarrow> u8 \<Rightarrow> bytes \<Rightarrow> bytes \<Rightarrow> ('cd, 'file) luks2 \<Rightarrow> 'w \<Rightarrow> bool" where
  "persisted L i slot credential envelope dev w \<longleftrightarrow> i < SLOT_COUNT \<and> slot < SLOT_COUNT
     \<and> (\<exists>code json text. crypt_token_json_get L (dev_cd dev) (uint i) w = (code, Some json) \<and> 0 \<le> code
          \<and> to_str json = Some text
          \<and> decode_token (token_json L) text = Ok \<lparr>te_slot = slot, te_bytes = envelope\<rparr>)
     \<and> fst (crypt_activate_by_passphrase L (dev_cd dev) None (uint slot) credential w) = uint slot"

lemma u8_try_from_Some: "u8_try_from i = Some x \<Longrightarrow> i = uint x"
  by (auto simp: u8_try_from_def uint_word_of_int split: if_splits)

lemma activate_inner_Ok:
  assumes "activate_inner L (Some slot) credential None s = Some (Ok actual, s')"
  shows "actual = slot \<and> slot < SLOT_COUNT \<and> ls_dev s' = ls_dev s
    \<and> fst (crypt_activate_by_passphrase L (dev_cd (ls_dev s)) None (uint slot) credential (ls_world s)) = uint slot"
  using assms
  by (auto simp: activate_inner_def is_some_and_def checked_def io_simps result_simps call_dev_def with_dev_def on_world_def
      io_do_def dest!: u8_try_from_Some split: if_splits prod.splits)

lemma cached_token_Ok:
  assumes "cached_token L i s = Some (Ok token, s')"
  shows "s' = s \<and> i < SLOT_COUNT \<and> (\<exists>code json text. crypt_token_json_get L (dev_cd (ls_dev s)) (uint i) (ls_world s) = (code, Some json)
    \<and> 0 \<le> code \<and> to_str json = Some text \<and> decode_token (token_json L) text = Ok token)"
  using assms
  by (auto simp: cached_token_def read_dev_def checked_def io_simps result_simps split: if_splits prod.splits)

text \<open>The state \<open>s'\<close> was left by a readback: the header was reloaded, the reloaded context shows the enrollment, and
  it is the context and the header that \<open>s'\<close> has.\<close>

definition read_back :: "('cd, 'file, 'v, 'w) luks_lib \<Rightarrow> ('w \<Rightarrow> 'h) \<Rightarrow> u8 \<Rightarrow> u8 \<Rightarrow> bytes \<Rightarrow> bytes
      \<Rightarrow> ('cd, 'file, 'w) luks_state \<Rightarrow> bool" where
  "read_back L H i slot credential envelope s' \<longleftrightarrow> (\<exists>s0 s1. reload L s0 = Some (Ok (), s1)
     \<and> persisted L i slot credential envelope (ls_dev s1) (ls_world s1)
     \<and> ls_dev s1 = ls_dev s' \<and> H (ls_world s1) = H (ls_world s'))"

lemma verify_persisted_Ok:
  assumes "reads_keep_header L H" "verify_persisted L i slot credential envelope s = Some (Ok (), s')"
  shows "read_back L H i slot credential envelope s'"
proof -
  obtain s1 token actual where reload: "reload L s = Some (Ok (), s1)" and token: "cached_token L i s1 = Some (Ok token, s1)" "te_slot token = slot" "te_bytes token = envelope"
    and activate: "activate_inner L (Some slot) credential None s1 = Some (Ok actual, s')"
    using assms(2) by (auto simp: verify_persisted_def io_simps dest: cached_token_Ok split: if_splits)
  have "token = \<lparr>te_slot = slot, te_bytes = envelope\<rparr>" using token(2,3) by simp
  then have "persisted L i slot credential envelope (ls_dev s1) (ls_world s1)" "ls_dev s1 = ls_dev s'"
    using cached_token_Ok [OF token(1)] activate_inner_Ok [OF activate] by (auto simp: persisted_def)
  moreover have "H (ls_world s1) = H (ls_world s')"
    using activate_keeps [OF assms(1)] activate unfolding keeps_def by metis
  ultimately show ?thesis using reload unfolding read_back_def by blast
qed

lemma write_token_Ok:
  assumes "reads_keep_header L H" "write_token L slot credential envelope s = Some (Ok n, s')"
  shows "\<exists>i. n = uint i \<and> read_back L H i slot credential envelope s'"
proof -
  obtain i s1 where "n = uint i" "verify_persisted L i slot credential envelope s1 = Some (Ok (), s')"
    using assms(2) by (auto simp: write_token_def checked_def io_simps result_simps split: if_splits prod.splits)
  then show ?thesis using verify_persisted_Ok [OF assms(1)] by blast
qed

lemma attach_locked_Ok:
  assumes "reads_keep_header L H" "attach_locked L slot credential envelope s = Some (Ok n, s')"
  shows "\<exists>i. n = uint i \<and> read_back L H i slot credential envelope s'"
proof -
  obtain found s1 where found: "(case found of
         Some i \<Rightarrow> io_then (verify_persisted L i slot credential envelope) (\<lambda>_. io_of (Ok (uint i)))
       | None \<Rightarrow> write_token L slot credential envelope) s1 = Some (Ok n, s')"
    using assms(2) by (auto simp: attach_locked_def io_simps)
  show ?thesis
  proof (cases found)
    case None
    then show ?thesis using found write_token_Ok [OF assms(1)] by simp
  next
    case (Some i)
    then have "n = uint i \<and> verify_persisted L i slot credential envelope s1 = Some (Ok (), s')"
      using found by (auto simp: io_simps)
    then show ?thesis using verify_persisted_Ok [OF assms(1)] by blast
  qed
qed

lemma add_locked_Ok:
  assumes "reads_keep_header L H" "add_locked L slot old new envelope s = Some (Ok n, s')"
  shows "\<exists>i. n = uint i \<and> read_back L H i slot new envelope s'"
proof -
  obtain s1 where "attach_locked L slot new envelope s1 = Some (Ok n, s')"
    using assms(2) by (auto simp: add_locked_def failed_slot_def io_simps split: if_splits)
  then show ?thesis by (rule attach_locked_Ok [OF assms(1)])
qed

lemma with_lock_Ok:
  assumes "reads_keep_header L H" "with_lock L m s = Some (Ok x, s')"
  obtains s1 s2 where "m s1 = Some (Ok x, s2)" "ls_dev s2 = ls_dev s'" "H (ls_world s2) = H (ls_world s')"
  using assms by (auto simp: with_lock_def with_dev_def on_exit_def io_simps reads_keep_header_def)

section \<open>A volume in memory\<close>

text \<open>A header is its key slots and its tokens; the token identifiers are not reported in the JSON dump.\<close>

type_synonym volume = "(int \<times> bytes) list \<times> (int \<times> string) list"

definition example_luks :: "(unit, unit, unit, volume) luks_lib" where
  "example_luks =
     \<lparr>crypt_init = (\<lambda>name w. ((0, Some ()), w)), crypt_free = (\<lambda>_ w. w), crypt_load = (\<lambda>_ kind w. (0, w)),
      crypt_get_uuid = (\<lambda>_ w. Some [65]), crypt_get_metadata_size = (\<lambda>_ w. (0, 0x8000)),
      crypt_dump_json = (\<lambda>_ w. (0, Some [])),
      crypt_keyslot_status = (\<lambda>_ n (keys, tokens). if map_of keys n = None then 1 else 2),
      crypt_keyslot_add_by_passphrase = (\<lambda>_ n old new (keys, tokens). (n, ((n, new) # keys, tokens))),
      crypt_activate_by_passphrase = (\<lambda>_ name n credential (keys, tokens).
        (case find (\<lambda>(k, key). key = credential \<and> (n = -1 \<or> n = k)) keys of None \<Rightarrow> -1 | Some (k, _) \<Rightarrow> k, (keys, tokens))),
      crypt_token_json_set = (\<lambda>_ n json (keys, tokens). (0, (keys, (0, json) # tokens))),
      crypt_token_json_get = (\<lambda>_ n (keys, tokens). case map_of tokens n of None \<Rightarrow> (-2, None) | Some json \<Rightarrow> (0, Some (ascii json))),
      open_file = (\<lambda>path writable w. (Ok (), w)), raw_fd = (\<lambda>_. 3), try_clone = (\<lambda>_ w. (Ok (), w)),
      set_lock = (\<lambda>_ w. (Ok (), w)), clear_lock = (\<lambda>_ w. w), sync_all = (\<lambda>_ w. (Ok (), w)),
      parse_uuid = (\<lambda>text. Some (replicate 16 1)), value_from_slice = (\<lambda>_. Some ()), value_get = (\<lambda>_ _. Some ()),
      value_as_object = (\<lambda>_. Some (\<lambda>_. None)), value_to_string = (\<lambda>_. None), token_json = example_token_lib\<rparr>"

definition example_dev :: "(unit, unit) luks2" where
  "example_dev = \<lparr>dev_cd = (), dev_file = (), dev_uuid = replicate 16 1, dev_writable = True\<rparr>"

abbreviation example_at :: "volume \<Rightarrow> (unit, unit, volume) luks_state" where
  "example_at w \<equiv> \<lparr>ls_dev = example_dev, ls_world = w\<rparr>"

abbreviation example_device :: "(unit, unit, volume) luks_state" where
  "example_device \<equiv> example_at ([(0, [5])], [])"

lemma example_luks_simps [simp]:
  "crypt_init example_luks name w = ((0, Some ()), w)" "crypt_free example_luks cd w = w"
  "crypt_load example_luks cd kind w = (0, w)" "crypt_get_uuid example_luks cd w = Some [65]"
  "crypt_get_metadata_size example_luks cd w = (0, 0x8000)" "crypt_dump_json example_luks cd w = (0, Some [])"
  "crypt_keyslot_status example_luks cd n (keys, tokens) = (if map_of keys n = None then 1 else 2)"
  "crypt_keyslot_add_by_passphrase example_luks cd n old new (keys, tokens) = (n, ((n, new) # keys, tokens))"
  "crypt_activate_by_passphrase example_luks cd nm n credential (keys, tokens) =
     (case find (\<lambda>(k, key). key = credential \<and> (n = -1 \<or> n = k)) keys of None \<Rightarrow> -1 | Some (k, _) \<Rightarrow> k, (keys, tokens))"
  "crypt_token_json_set example_luks cd n json (keys, tokens) = (0, (keys, (0, json) # tokens))"
  "crypt_token_json_get example_luks cd n (keys, tokens) =
     (case map_of tokens n of None \<Rightarrow> (-2, None) | Some json \<Rightarrow> (0, Some (ascii json)))"
  "raw_fd example_luks f = 3" "try_clone example_luks f w = (Ok (), w)"
  "set_lock example_luks f w = (Ok (), w)" "clear_lock example_luks f w = w" "sync_all example_luks f w = (Ok (), w)"
  "parse_uuid example_luks t = Some (replicate 16 1)" "value_from_slice example_luks bs = Some ()"
  "value_get example_luks v key = Some ()" "value_as_object example_luks v = Some (\<lambda>_. None)"
  "token_json example_luks = example_token_lib"
  by (simp_all add: example_luks_def)

lemma example_dev_simps [simp]:
  "dev_cd example_dev = ()" "dev_file example_dev = ()" "dev_uuid example_dev = replicate 16 1" "dev_writable example_dev"
  by (simp_all add: example_dev_def)

lemmas luks_steps = io_then_def io_of_def io_do_def io_try_def io_map_err_def on_world_def with_dev_def call_dev_def
  call_try_def read_dev_def set_dev_def on_error_def on_exit_def checked_def

lemma example_luks_reads: "reads_keep_header example_luks id"
  by (auto simp: reads_keep_header_def example_luks_def)

lemma cstring_fd_path: "cstring_new (fd_path n) = Some (fd_path n)"
  using decimal_digits [of n] by (auto simp: cstring_new_def fd_path_def list_all_iff is_digit_def)

lemma example_reload [simp]: "reload example_luks (example_at w) = Some (Ok (), example_at w)"
  by (simp add: reload_def from_file_def free_context_def luks_steps cstring_fd_path to_str_def example_dev_def)

lemma example_status [simp]:
  "slot < 32 \<Longrightarrow> slot_status example_luks slot (example_at (keys, tokens))
     = Some (Ok (if map_of keys (uint slot) = None then 1 else 2), example_at (keys, tokens))"
  by (simp add: slot_status_def luks_steps not_le)

lemma example_activate:
  "activate_inner example_luks slot [9] None (example_at ([(0, [5])], tokens))
     = (if is_some_and (\<lambda>s. s \<ge> 32) slot then Some (Err InvalidInput, example_at ([(0, [5])], tokens))
        else Some (Err (Cryptsetup ''check or activate credential'' (-1)), example_at ([(0, [5])], tokens)))"
  by (simp add: activate_inner_def luks_steps)

lemma example_activate_old:
  "activate_inner example_luks None [5] None (example_at ([(0, [5])], tokens)) = Some (Ok 0, example_at ([(0, [5])], tokens))"
  by (simp add: activate_inner_def luks_steps is_some_and_def u8_try_from_def word_le_nat_alt)

lemma example_activate_new:
  "activate_inner example_luks (Some 1) (replicate 32 7) None (example_at ([(1, replicate 32 7), (0, [5])], tokens))
     = Some (Ok 1, example_at ([(1, replicate 32 7), (0, [5])], tokens))"
  by (simp add: activate_inner_def luks_steps is_some_and_def u8_try_from_def word_le_nat_alt)

lemma example_metadata [simp]:
  "read_metadata example_luks (example_at w)
     = Some (Ok \<lparr>md_parsed = (), md_json_bytes = 0, md_available = 28672\<rparr>, example_at w)"
  by (simp add: read_metadata_def luks_steps)

lemma slots_Cons: "slots = 0 # map word_of_nat [1..<32]"
  unfolding slots_def by (subst upt_conv_Cons) simp_all

definition example_json :: string where
  "example_json = token_text ''leelo'' (decimal (unat (1 :: u8))) (base64_encode example_token_lib [1, 2])"

lemma example_json_facts:
  "encode_token example_token_lib 1 [1, 2] = Ok example_json"
  "decode_token example_token_lib example_json = Ok \<lparr>te_slot = 1, te_bytes = [1, 2]\<rparr>"
  "length example_json \<le> 51" "to_str (ascii example_json) = Some example_json" "cstring_new example_json = Some example_json"
  using encode_token_text [OF example_token_lib_correct, of 1 "[1, 2]"] to_str_ascii
  by (simp_all add: example_json_def)

lemma example_plan [simp]:
  "token_plan example_luks 1 [1, 2] adding (example_at w) = Some (Ok (0, example_json), example_at w)"
proof -
  have "length (decimal 0) = 1" by (subst decimal.simps) simp
  then show ?thesis
    using example_json_facts(3)
    by (simp add: token_plan_def token_table_def luks_steps slots_Cons example_json_facts(1,5) Let_def)
qed

lemma example_added:
  "\<exists>s'. add_enrollment example_luks 1 [5] (replicate 32 7) [1, 2] example_device = Some (Ok 0, s')"
proof -
  define key :: bytes where "key = replicate 32 7"
  let ?s = "example_at ([(1, key), (0, [5])], [(0, example_json)])"
  have tokens: "matching_token example_luks (\<lambda>_. None) 1 [1, 2] ids = Ok None" for ids by (induction ids) simp_all
  have "cached_token example_luks 0 ?s = Some (Ok \<lparr>te_slot = 1, te_bytes = [1, 2]\<rparr>, ?s)"
    by (simp add: cached_token_def luks_steps example_json_facts)
  then have verify: "verify_persisted example_luks 0 1 key [1, 2] ?s = Some (Ok (), ?s)"
    using example_activate_new by (simp add: verify_persisted_def io_then_def io_of_def key_def)
  then have "write_token example_luks 1 key [1, 2] (example_at ([(1, key), (0, [5])], [])) = Some (Ok 0, ?s)"
    by (simp add: write_token_def luks_steps)
  then have attach: "attach_locked example_luks 1 key [1, 2] (example_at ([(1, key), (0, [5])], [])) = Some (Ok 0, ?s)"
    using example_activate_new tokens
    by (simp add: attach_locked_def io_then_def io_of_def token_table_def key_def)
  then have "add_locked example_luks 1 [5] key [1, 2] example_device = Some (Ok 0, ?s)"
    using example_activate_old by (simp add: add_locked_def luks_steps)
  then show ?thesis
    unfolding key_def [symmetric] by (simp add: add_enrollment_def with_lock_def acquire_def luks_steps)
qed

lemma example_refused:
  "\<exists>s'. add_enrollment example_luks 1 [9] (replicate 32 7) [1, 2] example_device
    = Some (Err (Cryptsetup ''check or activate credential'' (-1)), s')"
proof -
  have "activate_inner example_luks None [9] None example_device
      = Some (Err (Cryptsetup ''check or activate credential'' (-1)), example_device)"
    using example_activate [of None "[]"] by (simp add: is_some_and_def)
  then have "add_locked example_luks 1 [9] key [1, 2] example_device
      = Some (Err (Cryptsetup ''check or activate credential'' (-1)), example_device)" for key
    by (simp add: add_locked_def io_then_def)
  then show ?thesis
    by (simp add: add_enrollment_def with_lock_def acquire_def luks_steps)
qed

section \<open>Properties\<close>

text \<open>C16. An enrollment error that does not ask for reconciliation changed nothing: the header is as it was, or
  libcryptsetup refused the slot write and the reloaded header shows the slot inactive. Every other failure
  after the slot write is reported as a partial enrollment.\<close>

theorem enrollment_error_keeps_header:
  assumes "reads_keep_header L H" "add_enrollment L slot old new envelope s = Some (Err e, s')" "\<not> is_partial e"
  shows "H (ls_world s') = H (ls_world s) \<or> (\<exists>w. H w = H (ls_world s') \<and> refused L slot e (s'\<lparr>ls_world := w\<rparr>))"
proof -
  have "final_error (\<lambda>s. H (ls_world s)) (\<lambda>e s. \<exists>w. H w = H (ls_world s) \<and> refused L slot e (s\<lparr>ls_world := w\<rparr>))
      (with_lock L (add_locked L slot old new envelope))"
    by (rule with_lock_final [OF assms(1) add_locked_final [OF assms(1)]]) (rule refused_unlock)
  then show ?thesis
    using assms(2,3) by (auto simp: add_enrollment_def with_dev_def final_error_def io_simps split: if_splits)
qed

theorem enrollment_error_keeps_header_witness:
  "\<exists>s'. add_enrollment example_luks 1 [9] (replicate 32 7) [1, 2] example_device
      = Some (Err (Cryptsetup ''check or activate credential'' (-1)), s') \<and> ls_world s' = ls_world example_device"
proof -
  obtain s' where run: "add_enrollment example_luks 1 [9] (replicate 32 7) [1, 2] example_device
      = Some (Err (Cryptsetup ''check or activate credential'' (-1)), s')"
    using example_refused by blast
  then show ?thesis
    using enrollment_error_keeps_header [OF example_luks_reads run] by (auto simp: refused_def)
qed

text \<open>C17. A successful enrollment is on the disk: the returned token identifier is one of the 32, and after the last
  write the operation reloaded the header, where the token read back carries the slot and the envelope and the
  new credential opens exactly the requested slot. The reloaded context and its header are those the operation
  leaves behind.\<close>

theorem enrollment_success_is_persisted:
  assumes "reads_keep_header L H" "add_enrollment L slot old new envelope s = Some (Ok n, s')"
  shows "\<exists>i s0 s1. n = uint i \<and> reload L s0 = Some (Ok (), s1)
    \<and> persisted L i slot new envelope (ls_dev s1) (ls_world s1)
    \<and> ls_dev s1 = ls_dev s' \<and> H (ls_world s1) = H (ls_world s')"
proof -
  have "with_lock L (add_locked L slot old new envelope) s = Some (Ok n, s')"
    using assms(2) by (simp add: add_enrollment_def with_dev_def io_simps split: if_splits)
  then obtain s1 s2 where "add_locked L slot old new envelope s1 = Some (Ok n, s2)"
      "ls_dev s2 = ls_dev s'" "H (ls_world s2) = H (ls_world s')"
    by (rule with_lock_Ok [OF assms(1)])
  then show ?thesis using add_locked_Ok [OF assms(1)] unfolding read_back_def by metis
qed

theorem enrollment_success_is_persisted_witness:
  "\<exists>s' s0 s1. add_enrollment example_luks 1 [5] (replicate 32 7) [1, 2] example_device = Some (Ok 0, s')
    \<and> reload example_luks s0 = Some (Ok (), s1)
    \<and> persisted example_luks 0 1 (replicate 32 7) [1, 2] (ls_dev s') (ls_world s')"
proof -
  obtain s' where run: "add_enrollment example_luks 1 [5] (replicate 32 7) [1, 2] example_device = Some (Ok 0, s')"
    using example_added by blast
  then obtain i s0 s1 where "0 = uint i" "reload example_luks s0 = Some (Ok (), s1)"
      "persisted example_luks i 1 (replicate 32 7) [1, 2] (ls_dev s1) (ls_world s1)"
      "ls_dev s1 = ls_dev s'" "id (ls_world s1) = id (ls_world s')"
    using enrollment_success_is_persisted [OF example_luks_reads run] by blast
  moreover then have "i = 0" by (simp add: uint_0_iff)
  ultimately show ?thesis using run by auto
qed

end
