(* ===== verification/Reconcile.thy ===== *)
theory Reconcile
  imports Rust_Text
begin

text \<open>
  The reconciliation report of crates/leelo-collector/src/reconcile.rs: protected reading of the input files,
  validation of inventory and observations, the state of every expected boot, the enrollment journals and the
  tally of unresolved enrollments. The file system (\<open>reader\<close>) and the JSON parser of the two journal records
  are parameters. The report is the record of the numbers that the source prints; the text layout of the
  metrics, the parsing of the two input documents and the temporary file they are written to are left out.
\<close>

section \<open>Data\<close>

definition INPUT_LIMIT :: nat where [simp]: "INPUT_LIMIT = 1024 * 1024"
definition JOURNAL_LIMIT :: nat where [simp]: "JOURNAL_LIMIT = 64 * 1024"
definition TARGET_LIMIT :: nat where [simp]: "TARGET_LIMIT = 1024"

record expected_boot =
  xb_target :: string
  xb_boot_id :: string
  xb_requested_at_ms :: u64
  xb_deadline_ms :: u64

record enrollment =
  en_journal :: string
  en_created_at_ms :: u64
  en_production_boot_test_passed :: bool

record inventory =
  inv_schema_version :: u8
  inv_updated_at_ms :: u64
  inv_valid_for_seconds :: u32
  inv_boots :: "expected_boot list"
  inv_enrollments :: "enrollment list"

datatype boot_outcome = Boot_Success | Boot_Failure

record boot_observation =
  bo_target :: string
  bo_boot_id :: string
  bo_observed_at_ms :: u64
  bo_outcome :: boot_outcome

record observations =
  obs_schema_version :: u8
  obs_updated_at_ms :: u64
  obs_boots :: "boot_observation list"

record file_identity =
  fi_device :: u64
  fi_inode :: u64

record identity_record =
  ir_phase :: string
  ir_binding_id :: string
  ir_volume_uuid :: string
  ir_slot :: u8

record bundle_record =
  br_phase :: string
  br_path :: string
  br_sha384 :: string

text \<open>The errors by the message of the source.\<close>

datatype reconcile_error =
    Reader_Error | Untrusted_Input | Unsupported_Filesystem | Exceeds_Bound | Invalid_Schema
  | Invalid_Expected_Boot | Invalid_Boot_Observation | Invalid_Enrollment_Inventory | Duplicate_Journal_File

record file_meta =
  fm_is_file :: bool
  fm_len :: u64
  fm_uid :: u32
  fm_mode :: u32
  fm_device :: u64
  fm_inode :: u64

text \<open>\<open>reader_read file n\<close> is \<open>file.take(n).read_to_end(..)\<close>.\<close>

record 'f reader =
  reader_open :: "string \<Rightarrow> 'f option"
  reader_metadata :: "'f \<Rightarrow> file_meta option"
  reader_fs_type :: "'f \<Rightarrow> u32 option"
  reader_read :: "'f \<Rightarrow> nat \<Rightarrow> bytes option"
  reader_euid :: u32
  parse_identity :: "bytes \<Rightarrow> identity_record option"
  parse_bundle :: "bytes \<Rightarrow> bundle_record option"

section \<open>Protected reading\<close>

definition local_filesystem :: "u32 \<Rightarrow> bool" where
  "local_filesystem t \<longleftrightarrow> t \<in> set [0xef53, 0x9123683e, 0x58465342, 0x01021994, 0x858458f6, 0x794c7630, 0xf2f52010]"

definition trusted_file :: "'f reader \<Rightarrow> nat \<Rightarrow> file_meta \<Rightarrow> bool" where
  "trusted_file R limit m \<longleftrightarrow>
     \<not> (\<not> fm_is_file m \<or> fm_len m > word_of_nat limit \<or> (fm_uid m \<noteq> 0 \<and> fm_uid m \<noteq> reader_euid R) \<or> fm_mode m AND 0x12 \<noteq> 0)"

definition read_held :: "'f reader \<Rightarrow> string \<Rightarrow> nat \<Rightarrow> (bytes \<times> file_identity, reconcile_error) result" where
  "read_held R path limit =
     and_then (ok_or Reader_Error (reader_open R path)) (\<lambda>f.
     and_then (ok_or Reader_Error (reader_metadata R f)) (\<lambda>m.
     if \<not> trusted_file R limit m then Err Untrusted_Input
     else and_then (ok_or Reader_Error (reader_fs_type R f)) (\<lambda>t.
       if \<not> local_filesystem t then Err Unsupported_Filesystem
       else and_then (ok_or Reader_Error (reader_read R f (limit + 1))) (\<lambda>bs.
         if length bs > limit then Err Exceeds_Bound
         else Ok (bs, \<lparr>fi_device = fm_device m, fi_inode = fm_inode m\<rparr>)))))"

definition read_bounded :: "'f reader \<Rightarrow> string \<Rightarrow> (bytes, reconcile_error) result" where
  "read_bounded R path = map_ok fst (read_held R path INPUT_LIMIT)"

section \<open>Validation\<close>

definition fresh :: "u64 \<Rightarrow> u64 \<Rightarrow> u32 \<Rightarrow> bool" where
  "fresh timestamp now validity \<longleftrightarrow> timestamp \<le> now \<and> now - timestamp \<le> ucast validity * 1000"

definition reference :: "string \<Rightarrow> bool" where
  "reference s \<longleftrightarrow> s \<noteq> [] \<and> length s \<le> 64 \<and> list_all (\<lambda>c. is_alphanumeric c \<or> c \<in> set ''_-.:'') s"

definition limits_hold :: "inventory \<Rightarrow> observations \<Rightarrow> bool" where
  "limits_hold iv obs \<longleftrightarrow>
     \<not> (inv_schema_version iv \<noteq> 1 \<or> obs_schema_version obs \<noteq> 1
        \<or> \<not> (1 \<le> inv_valid_for_seconds iv \<and> inv_valid_for_seconds iv \<le> 86400)
        \<or> length (inv_boots iv) > TARGET_LIMIT \<or> length (inv_enrollments iv) > TARGET_LIMIT
        \<or> length (obs_boots obs) > TARGET_LIMIT * 4)"

primrec check_boots :: "u64 \<Rightarrow> expected_boot list \<Rightarrow> (string \<times> string) list \<Rightarrow> (unit, reconcile_error) result" where
  "check_boots updated [] names = Ok ()"
| "check_boots updated (b # bs) names =
     (if \<not> reference (xb_target b) \<or> \<not> reference (xb_boot_id b) \<or> xb_requested_at_ms b > xb_deadline_ms b
         \<or> xb_requested_at_ms b > updated \<or> (xb_target b, xb_boot_id b) \<in> set names
      then Err Invalid_Expected_Boot
      else check_boots updated bs ((xb_target b, xb_boot_id b) # names))"

definition observation_invalid :: "u64 \<Rightarrow> boot_observation \<Rightarrow> bool" where
  "observation_invalid updated o' \<longleftrightarrow>
     \<not> reference (bo_target o') \<or> \<not> reference (bo_boot_id o') \<or> bo_observed_at_ms o' > updated"

section \<open>Boots\<close>

text \<open>\<open>Iterator::max_by_key\<close> returns the last of several greatest elements.\<close>

primrec max_by_key :: "('a \<Rightarrow> 'k :: linorder) \<Rightarrow> 'a list \<Rightarrow> 'a option \<Rightarrow> 'a option" where
  "max_by_key key [] best = best"
| "max_by_key key (x # xs) best =
     max_by_key key xs (case best of None \<Rightarrow> Some x | Some y \<Rightarrow> Some (if key y > key x then y else x))"

definition same_boot :: "expected_boot \<Rightarrow> boot_observation \<Rightarrow> bool" where
  "same_boot x v \<longleftrightarrow> bo_target v = xb_target x \<and> bo_boot_id v = xb_boot_id x"

definition latest_observation :: "observations \<Rightarrow> expected_boot \<Rightarrow> boot_observation option" where
  "latest_observation obs x =
     max_by_key bo_observed_at_ms
       (filter (\<lambda>v. same_boot x v \<and> bo_observed_at_ms v \<ge> xb_requested_at_ms x) (obs_boots obs)) None"

definition contradicted :: "observations \<Rightarrow> expected_boot \<Rightarrow> boot_observation \<Rightarrow> bool" where
  "contradicted obs x latest \<longleftrightarrow>
     list_ex (\<lambda>v. same_boot x v \<and> bo_observed_at_ms v = bo_observed_at_ms latest \<and> bo_outcome v \<noteq> bo_outcome latest)
       (obs_boots obs)"

text \<open>The indices of \<open>states\<close>: success, failure, pending, missing, unknown, late success.\<close>

definition boot_state :: "bool \<Rightarrow> observations \<Rightarrow> u64 \<Rightarrow> expected_boot \<Rightarrow> nat" where
  "boot_state both_fresh obs now x =
     (if \<not> both_fresh then 4
      else case latest_observation obs x of
        Some latest \<Rightarrow>
          if contradicted obs x latest then 4
          else if bo_outcome latest = Boot_Success \<and> bo_observed_at_ms latest > xb_deadline_ms x then 5
          else if bo_outcome latest = Boot_Success then 0 else 1
      | None \<Rightarrow> if now \<le> xb_deadline_ms x then 2 else 3)"

primrec count_states :: "bool \<Rightarrow> observations \<Rightarrow> u64 \<Rightarrow> expected_boot list \<Rightarrow> nat list \<Rightarrow> nat list" where
  "count_states both_fresh obs now [] states = states"
| "count_states both_fresh obs now (x # xs) states =
     (let state = boot_state both_fresh obs now x
      in count_states both_fresh obs now xs (states[state := states ! state + 1]))"

section \<open>Journals\<close>

primrec split_on :: "'a \<Rightarrow> 'a list \<Rightarrow> 'a list list" where
  "split_on d [] = [[]]"
| "split_on d (x # xs) =
     (if x = d then [] # split_on d xs
      else case split_on d xs of [] \<Rightarrow> [[x]] | l # ls \<Rightarrow> (x # l) # ls)"

definition hex_value :: "char \<Rightarrow> nat" where
  "hex_value c = (if is_digit c then of_char c - 48 else of_char c - 87)"

fun hex_pairs :: "string \<Rightarrow> bytes" where
  "hex_pairs (a # b # rest) = word_of_nat (hex_value a * 16 + hex_value b) # hex_pairs rest"
| "hex_pairs _ = []"

definition lower_hex :: "nat \<Rightarrow> string \<Rightarrow> bytes option" where
  "lower_hex n s = (if length s \<noteq> n * 2 \<or> \<not> list_all is_lower_hex s then None else Some (hex_pairs s))"

definition journal_identity :: "identity_record \<Rightarrow> (bytes \<times> bytes \<times> u8) option" where
  "journal_identity r =
     Option.bind (lower_hex 32 (ir_binding_id r)) (\<lambda>binding.
     if length (ir_volume_uuid r) \<noteq> 36 \<or> list_ex (\<lambda>i. ir_volume_uuid r ! i \<noteq> CHR ''-'') [8, 13, 18, 23] then None
     else Option.bind (lower_hex 16 (filter (\<lambda>c. c \<noteq> CHR ''-'') (ir_volume_uuid r))) (\<lambda>volume.
       if binding = replicate 32 0 \<or> volume = replicate 16 0 \<or> ir_slot r \<ge> 32 then None
       else Some (binding, volume, ir_slot r)))"

definition phases :: "string list" where
  "phases = [''preflight'', ''pending-bundle-durable'', ''prepared-and-recovery-tested'', ''token-written-and-slot-tested'']"

definition bundle_valid :: "'f reader \<Rightarrow> string \<Rightarrow> bytes \<Rightarrow> bool" where
  "bundle_valid R phase line =
     (case parse_bundle R line of
        None \<Rightarrow> False
      | Some r \<Rightarrow> \<not> (br_phase r \<noteq> phase \<or> br_path r = [] \<or> lower_hex 48 (br_sha384 r) = None))"

definition line_identity :: "'f reader \<Rightarrow> string \<Rightarrow> bytes \<Rightarrow> (bytes \<times> bytes \<times> u8) option" where
  "line_identity R phase line =
     Option.bind (parse_identity R line) (\<lambda>r. if ir_phase r \<noteq> phase then None else journal_identity r)"

primrec journal_lines :: "'f reader \<Rightarrow> nat \<Rightarrow> bytes list \<Rightarrow> (bytes \<times> bytes \<times> u8) option \<Rightarrow> bool \<Rightarrow> bool option" where
  "journal_lines R count [] identity committed = Some committed"
| "journal_lines R count (line # lines) identity committed =
     (if length line > 8192 \<or> count \<ge> length phases then None
      else if count = 1 then
        (if bundle_valid R (phases ! count) line then journal_lines R (count + 1) lines identity (count = length phases - 1)
         else None)
      else case line_identity R (phases ! count) line of
        None \<Rightarrow> None
      | Some observed \<Rightarrow>
          if identity \<noteq> None \<and> identity \<noteq> Some observed then None
          else journal_lines R (count + 1) lines (Some observed) (count = length phases - 1))"

definition journal_committed :: "'f reader \<Rightarrow> bytes \<Rightarrow> bool option" where
  "journal_committed R bs =
     (if bs = [] \<or> last bs \<noteq> 10 \<or> length bs > JOURNAL_LIMIT then None
      else journal_lines R 0 (split_on 10 (butlast bs)) None False)"

section \<open>Enrollments\<close>

text \<open>Paths are compared by components, as \<open>Path\<close> does.\<close>

definition path_components :: "string \<Rightarrow> string list" where
  "path_components p =
     (let parts = split_on CHR ''/'' p
      in (if p \<noteq> [] \<and> hd p = CHR ''/'' then [''/''] else if hd parts = ''.'' then [''.''] else [])
         @ filter (\<lambda>c. c \<noteq> [] \<and> c \<noteq> ''.'') parts)"

record tally =
  tl_pending :: nat
  tl_unknown :: nat
  tl_awaiting :: nat
  tl_oldest :: "u64 option"
  tl_oldest_pending :: "u64 option"
  tl_oldest_awaiting :: "u64 option"
  tl_oldest_unknown :: "u64 option"

definition older :: "u64 option \<Rightarrow> u64 \<Rightarrow> u64 option" where
  "older current timestamp = Some (case current of None \<Rightarrow> timestamp | Some previous \<Rightarrow> min previous timestamp)"

definition add_unknown :: "u64 \<Rightarrow> tally \<Rightarrow> tally" where
  "add_unknown created t = t\<lparr>tl_unknown := tl_unknown t + 1, tl_oldest_unknown := older (tl_oldest_unknown t) created,
     tl_oldest := older (tl_oldest t) created\<rparr>"

definition add_state :: "enrollment \<Rightarrow> bool option \<Rightarrow> tally \<Rightarrow> tally" where
  "add_state e state t =
     (case state of
        Some True \<Rightarrow>
          if \<not> en_production_boot_test_passed e
          then t\<lparr>tl_awaiting := tl_awaiting t + 1, tl_oldest_awaiting := older (tl_oldest_awaiting t) (en_created_at_ms e),
                 tl_oldest := older (tl_oldest t) (en_created_at_ms e)\<rparr>
          else t
      | Some False \<Rightarrow>
          t\<lparr>tl_pending := tl_pending t + 1, tl_oldest_pending := older (tl_oldest_pending t) (en_created_at_ms e),
            tl_oldest := older (tl_oldest t) (en_created_at_ms e)\<rparr>
      | None \<Rightarrow> add_unknown (en_created_at_ms e) t)"

primrec count_enrollments :: "'f reader \<Rightarrow> bool \<Rightarrow> u64 \<Rightarrow> u64 \<Rightarrow> enrollment list \<Rightarrow> string list list \<Rightarrow> file_identity list
      \<Rightarrow> tally \<Rightarrow> (tally, reconcile_error) result" where
  "count_enrollments R inventory_fresh updated now [] journals files t = Ok t"
| "count_enrollments R inventory_fresh updated now (e # es) journals files t =
     (let journal = path_components (en_journal e)
      in if journal \<in> set journals \<or> en_created_at_ms e > now \<or> en_created_at_ms e > updated
         then Err Invalid_Enrollment_Inventory
         else if \<not> inventory_fresh
         then count_enrollments R inventory_fresh updated now es (journal # journals) files (add_unknown (en_created_at_ms e) t)
         else case read_held R (en_journal e) JOURNAL_LIMIT of
           Ok (bs, identity) \<Rightarrow>
             if identity \<in> set files then Err Duplicate_Journal_File
             else count_enrollments R inventory_fresh updated now es (journal # journals) (identity # files)
                    (add_state e (journal_committed R bs) t)
         | Err _ \<Rightarrow> count_enrollments R inventory_fresh updated now es (journal # journals) files (add_state e None t))"

section \<open>The report\<close>

record reconciliation =
  rp_states :: "nat list"
  rp_inventory_fresh :: bool
  rp_observations_fresh :: bool
  rp_now :: u64
  rp_tally :: tally

definition empty_tally :: tally where
  "empty_tally = \<lparr>tl_pending = 0, tl_unknown = 0, tl_awaiting = 0, tl_oldest = None, tl_oldest_pending = None,
     tl_oldest_awaiting = None, tl_oldest_unknown = None\<rparr>"

definition render :: "'f reader \<Rightarrow> inventory \<Rightarrow> observations \<Rightarrow> u64 \<Rightarrow> (reconciliation, reconcile_error) result" where
  "render R iv obs now =
     (if \<not> limits_hold iv obs then Err Invalid_Schema
      else and_then (check_boots (inv_updated_at_ms iv) (inv_boots iv) []) (\<lambda>_.
        if list_ex (observation_invalid (obs_updated_at_ms obs)) (obs_boots obs) then Err Invalid_Boot_Observation
        else
          let inventory_fresh = fresh (inv_updated_at_ms iv) now (inv_valid_for_seconds iv);
              observations_fresh = fresh (obs_updated_at_ms obs) now (inv_valid_for_seconds iv);
              states = count_states (inventory_fresh \<and> observations_fresh) obs now (inv_boots iv) (replicate 6 0)
          in and_then (count_enrollments R inventory_fresh (inv_updated_at_ms iv) now (inv_enrollments iv) [] [] empty_tally)
               (\<lambda>t. Ok \<lparr>rp_states = states, rp_inventory_fresh = inventory_fresh,
                      rp_observations_fresh = observations_fresh, rp_now = now, rp_tally = t\<rparr>)))"

section \<open>Lemmas\<close>

lemma fresh_no_wrap:
  "fresh timestamp now validity \<longleftrightarrow> unat timestamp \<le> unat now \<and> unat now - unat timestamp \<le> unat validity * 1000"
proof -
  have "unat validity < 2 ^ 32" using unsigned_less [of validity, where 'a = nat] by simp
  then have "unat (ucast validity * 1000 :: u64) = unat validity * 1000"
    by (simp add: unat_word_ariths unsigned_ucast_eq take_bit_nat_eq_self)
  moreover have "unat (now - timestamp) = unat now - unat timestamp" if "timestamp \<le> now"
    using that by (rule unat_sub)
  ultimately show ?thesis by (auto simp: fresh_def word_le_nat_alt)
qed











lemma render_Ok:
  assumes "render R iv obs now = Ok r"
  shows "rp_states r = count_states (rp_inventory_fresh r \<and> rp_observations_fresh r) obs now (inv_boots iv) (replicate 6 0)"
    "rp_inventory_fresh r = fresh (inv_updated_at_ms iv) now (inv_valid_for_seconds iv)"
    "rp_observations_fresh r = fresh (obs_updated_at_ms obs) now (inv_valid_for_seconds iv)"
    "count_enrollments R (rp_inventory_fresh r) (inv_updated_at_ms iv) now (inv_enrollments iv) [] [] empty_tally = Ok (rp_tally r)"
  using assms by (auto simp: render_def result_simps Let_def split: if_splits)

text \<open>An enrollment is resolved when its journal was read, records the whole sequence and the boot test passed.\<close>

definition unresolved :: "'f reader \<Rightarrow> bool \<Rightarrow> enrollment \<Rightarrow> bool" where
  "unresolved R inventory_fresh e \<longleftrightarrow>
     \<not> (inventory_fresh \<and> en_production_boot_test_passed e
        \<and> (\<exists>bs identity. read_held R (en_journal e) JOURNAL_LIMIT = Ok (bs, identity) \<and> journal_committed R bs = Some True))"

abbreviation unresolved_count :: "tally \<Rightarrow> nat" where
  "unresolved_count t \<equiv> tl_pending t + tl_unknown t + tl_awaiting t"

lemma add_unknown_tally:
  "unresolved_count (add_unknown created t) = unresolved_count t + 1" "tl_oldest (add_unknown created t) = older (tl_oldest t) created"
  by (simp_all add: add_unknown_def)

lemma add_state_tally:
  "unresolved_count (add_state e state t) =
     unresolved_count t + (if en_production_boot_test_passed e \<and> state = Some True then 0 else 1)"
  "tl_oldest (add_state e state t) =
     (if en_production_boot_test_passed e \<and> state = Some True then tl_oldest t else older (tl_oldest t) (en_created_at_ms e))"
  by (auto simp: add_state_def add_unknown_tally split: option.splits bool.splits)

lemma count_enrollments_Ok:
  assumes "count_enrollments R inventory_fresh updated now es journals files t = Ok t'"
  shows "unresolved_count t' = unresolved_count t + length (filter (unresolved R inventory_fresh) es)
    \<and> tl_oldest t' = foldl older (tl_oldest t) (map en_created_at_ms (filter (unresolved R inventory_fresh) es))"
  using assms
proof (induction es arbitrary: journals files t)
  case (Cons e es)
  show ?case
  proof (cases "inventory_fresh")
    case False
    then show ?thesis
      using Cons by (auto simp: Let_def unresolved_def add_unknown_tally split: if_splits)
  next
    case True
    then show ?thesis
      using Cons by (auto simp: Let_def unresolved_def add_state_tally split: if_splits result.splits prod.splits)
  qed
qed simp

lemma foldl_older_Some: "foldl older (Some a) xs = Some (Min (insert a (set xs)))"
proof (induction xs arbitrary: a)
  case (Cons x xs)
  have "insert a (insert x (set xs)) = insert a (insert x (set xs))" by simp
  moreover have "Min (insert (min a x) (set xs)) = Min (insert a (insert x (set xs)))"
  proof (cases "set xs = {}")
    case False
    then show ?thesis by (simp add: Min_insert2 min.assoc)
  qed simp
  ultimately show ?case using Cons [of "min a x"] by (simp add: older_def)
qed simp

lemma foldl_older_None: "xs \<noteq> [] \<Longrightarrow> foldl older None xs = Some (Min (set xs))"
  by (cases xs) (simp_all add: older_def foldl_older_Some)

text \<open>The journal lines as a specification: phase by phase, with one identity throughout.\<close>

definition line_valid :: "'f reader \<Rightarrow> bytes \<times> bytes \<times> u8 \<Rightarrow> nat \<Rightarrow> bytes \<Rightarrow> bool" where
  "line_valid R identity k line \<longleftrightarrow>
     (if k = 1 then bundle_valid R (phases ! k) line else line_identity R (phases ! k) line = Some identity)"

lemma phases_length: "length phases = 4"
  by (simp add: phases_def)

definition lines_valid :: "'f reader \<Rightarrow> bytes \<times> bytes \<times> u8 \<Rightarrow> nat \<Rightarrow> bytes list \<Rightarrow> bool" where
  "lines_valid R i count lines \<longleftrightarrow> (\<forall>k<length lines. line_valid R i (count + k) (lines ! k))"

lemma lines_valid_Cons:
  "lines_valid R i count (line # lines) \<longleftrightarrow> line_valid R i count line \<and> lines_valid R i (count + 1) lines"
  by (auto simp: lines_valid_def less_Suc_eq_0_disj)

lemma journal_lines_iff:
  "journal_lines R count lines identity committed = Some b \<longleftrightarrow>
     (lines = [] \<or> count + length lines \<le> 4) \<and> list_all (\<lambda>line. length line \<le> 8192) lines
     \<and> (\<exists>i. (identity = None \<or> identity = Some i) \<and> lines_valid R i count lines)
     \<and> b = (if lines = [] then committed else count + length lines = 4)"
proof (induction lines arbitrary: count identity committed)
  case Nil
  then show ?case by (cases identity) (auto simp: lines_valid_def)
next
  case (Cons line lines)
  consider "length line > 8192 \<or> count \<ge> 4" | "length line \<le> 8192" "count = 1"
    | "length line \<le> 8192" "count < 4" "count \<noteq> 1" by linarith
  then show ?case
  proof cases
    case 1
    then show ?thesis by (auto simp: phases_length)
  next
    case 2
    then show ?thesis
      by (simp add: phases_length Cons.IH lines_valid_Cons line_valid_def)
  next
    case 3
    show ?thesis
    proof (cases "line_identity R (phases ! count) line")
      case None
      then show ?thesis using 3 by (simp add: phases_length lines_valid_Cons line_valid_def)
    next
      case (Some observed)
      then show ?thesis
        using 3 by (cases identity) (auto simp: phases_length Cons.IH lines_valid_Cons line_valid_def)
    qed
  qed
qed

section \<open>A concrete reader\<close>

definition example_identity :: identity_record where
  "example_identity = \<lparr>ir_phase = ''preflight'', ir_binding_id = ''1111111111111111111111111111111111111111111111111111111111111111'',
     ir_volume_uuid = ''11111111-1111-1111-1111-111111111111'', ir_slot = 3\<rparr>"

definition example_reader :: "unit reader" where
  "example_reader =
     \<lparr>reader_open = (\<lambda>path. Some ()),
      reader_metadata = (\<lambda>_. Some \<lparr>fm_is_file = True, fm_len = 2, fm_uid = 0, fm_mode = 0x180, fm_device = 1, fm_inode = 2\<rparr>),
      reader_fs_type = (\<lambda>_. Some 0xef53), reader_read = (\<lambda>_ n. Some [1, 10]), reader_euid = 0,
      parse_identity = (\<lambda>line. Some example_identity), parse_bundle = (\<lambda>line. None)\<rparr>"

definition example_inventory :: inventory where
  "example_inventory =
     \<lparr>inv_schema_version = 1, inv_updated_at_ms = 10000, inv_valid_for_seconds = 30,
      inv_boots = [\<lparr>xb_target = ''db'', xb_boot_id = ''b1'', xb_requested_at_ms = 1000, xb_deadline_ms = 9000\<rparr>],
      inv_enrollments = [\<lparr>en_journal = ''/j'', en_created_at_ms = 500, en_production_boot_test_passed = False\<rparr>]\<rparr>"

definition example_observations :: observations where
  "example_observations =
     \<lparr>obs_schema_version = 1, obs_updated_at_ms = 10000,
      obs_boots = [\<lparr>bo_target = ''db'', bo_boot_id = ''b1'', bo_observed_at_ms = 5000, bo_outcome = Boot_Success\<rparr>]\<rparr>"

lemma example_render: "\<exists>r. render example_reader example_inventory example_observations 12000 = Ok r"
proof -
  have "read_held example_reader path JOURNAL_LIMIT = Ok ([1, 10], \<lparr>fi_device = 1, fi_inode = 2\<rparr>)" for path
    by (simp add: read_held_def example_reader_def trusted_file_def local_filesystem_def)
  moreover have "reference ''db''" "reference ''b1''"
    by (simp_all add: reference_def is_alphanumeric_def is_digit_def)
  ultimately show ?thesis
    by (simp add: render_def limits_hold_def example_inventory_def example_observations_def observation_invalid_def Let_def)
qed

lemma journal_committed_iff:
  "journal_committed R bs = Some committed \<longleftrightarrow>
     bs \<noteq> [] \<and> last bs = 10 \<and> length bs \<le> JOURNAL_LIMIT
     \<and> (let lines = split_on 10 (butlast bs)
        in length lines \<le> 4 \<and> list_all (\<lambda>line. length line \<le> 8192) lines
           \<and> (\<exists>identity. lines_valid R identity 0 lines)
           \<and> committed = (length lines = 4))"
proof -
  have "split_on 10 (butlast bs) \<noteq> []" by (cases "butlast bs") (simp_all split: list.splits)
  then show ?thesis by (auto simp: journal_committed_def journal_lines_iff Let_def not_less)
qed

section \<open>Properties\<close>



text \<open>C35. No unresolved enrollment is missed: the three counters together count exactly the enrollments whose
  committed journal could not be read from a fresh inventory or whose boot test has not passed, and the oldest
  timestamp is the earliest creation time among them.\<close>

theorem unresolved_enrollments_reported:
  assumes "render R iv obs now = Ok r"
  defines "open_enrollments \<equiv> filter (unresolved R (rp_inventory_fresh r)) (inv_enrollments iv)"
  shows "tl_pending (rp_tally r) + tl_unknown (rp_tally r) + tl_awaiting (rp_tally r) = length open_enrollments
    \<and> tl_oldest (rp_tally r) =
        (if open_enrollments = [] then None else Some (Min (en_created_at_ms ` set open_enrollments)))"
proof -
  have "unresolved_count (rp_tally r) = unresolved_count empty_tally + length open_enrollments
      \<and> tl_oldest (rp_tally r) = foldl older (tl_oldest empty_tally) (map en_created_at_ms open_enrollments)"
    unfolding open_enrollments_def by (rule count_enrollments_Ok [OF render_Ok(4) [OF assms(1)]])
  then show ?thesis
    using foldl_older_None [of "map en_created_at_ms open_enrollments"] by (simp add: empty_tally_def)
qed

theorem unresolved_enrollments_reported_witness:
  "\<exists>r. render example_reader example_inventory example_observations 12000 = Ok r
    \<and> tl_pending (rp_tally r) + tl_unknown (rp_tally r) + tl_awaiting (rp_tally r) = 1"
proof -
  obtain r where r: "render example_reader example_inventory example_observations 12000 = Ok r"
    using example_render by blast
  then show ?thesis
    using unresolved_enrollments_reported [OF r] by (simp add: example_inventory_def unresolved_def)
qed

end
