(* ===== verification/Cli_Journal.thy ===== *)
theory Cli_Journal
  imports Cli_Observation Luks_Enrollment Reconcile "HOL-Library.Sublist"
begin

text \<open>
  The durable enrollment sequence of crates/leelo-cli/src/enrollment.rs: the journal file, the pending bundle and the
  commit around the storage adapter. The file operations are the trait \<open>Persistence\<close>, a parameter record here; the JSON
  printer, \<open>hex\<close> and \<open>uuid\<close> are the record \<open>printer\<close>. The reader of the collector (\<open>journal_committed\<close>) is composed with
  this writer: what the collector concludes from a journal is what happened, after every failure and every partial write.
\<close>

section \<open>State and parameters\<close>

text \<open>The state of a command: the world, the opened volume and the observed operation.\<close>

record ('l, 'w) cli =
  cl_world :: 'w
  cl_luks :: 'l
  cl_op :: cli_operation

record ('f, 'w) persistence =
  ps_create :: "string \<Rightarrow> 'w \<Rightarrow> ('f, unit) result \<times> 'w"
  ps_write :: "'f \<Rightarrow> bytes \<Rightarrow> 'w \<Rightarrow> (unit, unit) result \<times> 'w"
  ps_sync_file :: "'f \<Rightarrow> 'w \<Rightarrow> (unit, unit) result \<times> 'w"
  ps_sync_directory :: "string \<Rightarrow> 'w \<Rightarrow> (unit, unit) result \<times> 'w"

text \<open>\<open>print_identity\<close> and \<open>print_bundle\<close> are \<open>serde_json::to_vec\<close> on the two kinds of records; \<open>path_serializes\<close> says
  which paths the \<open>json!\<close> macro accepts as a value, those that are UTF-8 text.\<close>

record printer =
  print_identity :: "identity_record \<Rightarrow> bytes option"
  print_bundle :: "bundle_record \<Rightarrow> bytes option"
  path_serializes :: "string \<Rightarrow> bool"
  hex_encode :: "bytes \<Rightarrow> string"
  uuid_to_string :: "bytes \<Rightarrow> string"

definition persist :: "('w \<Rightarrow> ('a, unit) result \<times> 'w) \<Rightarrow> (('l, 'w) cli, 'a, cli_error) io" where
  "persist f s = (case f (cl_world s) of (r, w) \<Rightarrow> Some (map_err (\<lambda>_. Cli_Io) r, s\<lparr>cl_world := w\<rparr>))"

definition observing :: "(cli_operation \<Rightarrow> cli_operation) \<Rightarrow> (('l, 'w) cli, unit, 'e) io" where
  "observing f s = Some (Ok (), s\<lparr>cl_op := f (cl_op s)\<rparr>)"

definition observe_at :: "'w clock \<Rightarrow> (nat \<Rightarrow> cli_operation \<Rightarrow> cli_operation) \<Rightarrow> (('l, 'w) cli, unit, 'e) io" where
  "observe_at clk f s = (case clk (cl_world s) of (now, w) \<Rightarrow> Some (Ok (), s\<lparr>cl_world := w, cl_op := f now (cl_op s)\<rparr>))"

definition observe_stage :: "'w clock \<Rightarrow> string \<Rightarrow> (('l, 'w) cli, unit, 'e) io" where
  "observe_stage clk stage s =
     (case clk (cl_world s) of (now, w) \<Rightarrow> case clk w of (now', w') \<Rightarrow>
        Some (Ok (), s\<lparr>cl_world := w', cl_op := cli_stage stage now now' (cl_op s)\<rparr>))"

section \<open>The journal\<close>

record 'f enrollment_journal =
  jn_log :: 'f
  jn_pending_path :: string

definition journal_record :: "('f, 'w) persistence \<Rightarrow> 'f enrollment_journal \<Rightarrow> bytes option \<Rightarrow> (('l, 'w) cli, unit, cli_error) io" where
  "journal_record P jn entry =
     io_then (io_of (ok_or (Cli_Other ''json'' None) entry)) (\<lambda>bs. persist (ps_write P (jn_log jn) (bs @ [10])))"

definition identity_of :: "printer \<Rightarrow> string \<Rightarrow> descriptor \<Rightarrow> identity_record" where
  "identity_of J phase d =
     \<lparr>ir_phase = phase, ir_binding_id = hex_encode J (d_binding_id d), ir_volume_uuid = uuid_to_string J (d_volume_uuid d),
      ir_slot = d_slot d\<rparr>"

definition journal_phase :: "('f, 'w) persistence \<Rightarrow> printer \<Rightarrow> 'f enrollment_journal \<Rightarrow> string \<Rightarrow> descriptor
      \<Rightarrow> (('l, 'w) cli, unit, cli_error) io" where
  "journal_phase P J jn phase d =
     io_then (journal_record P jn (print_identity J (identity_of J phase d))) (\<lambda>_. persist (ps_sync_file P (jn_log jn)))"

definition journal_begin :: "('f, 'w) persistence \<Rightarrow> printer \<Rightarrow> 'w clock \<Rightarrow> string \<Rightarrow> descriptor
      \<Rightarrow> (('l, 'w) cli, 'f enrollment_journal, cli_error) io" where
  "journal_begin P J clk path d =
     io_then (persist (ps_create P path)) (\<lambda>log.
     let jn = \<lparr>jn_log = log, jn_pending_path = with_extension path ''pending.leelo''\<rparr> in
     io_then (journal_phase P J jn ''preflight'' d) (\<lambda>_.
     io_then (persist (ps_sync_directory P path)) (\<lambda>_.
     io_then (observe_at clk (milestone ''preflight_durable'')) (\<lambda>_.
     io_of (Ok jn)))))"

definition retain_message :: "string \<Rightarrow> string" where
  "retain_message path = ''retain pending bundle '' @ path @ '' and the existing recovery credential''"

text \<open>\<open>add().map_err(...)\<close>: every error but a partial enrollment says that storage was not changed.\<close>

definition storage_add :: "'f enrollment_journal \<Rightarrow> (('l, 'w) cli, int, luks_error) io \<Rightarrow> (('l, 'w) cli, int, cli_error) io" where
  "storage_add jn add s =
     (case add s of
        None \<Rightarrow> None
      | Some (Ok token, s') \<Rightarrow> Some (Ok token, s')
      | Some (Err e, s') \<Rightarrow>
          Some (Err (Cli_Other (retain_message (jn_pending_path jn)) (Some (Cli_Luks e))),
            if is_partial e then s' else s'\<lparr>cl_op := set_storage NotMutated (cl_op s')\<rparr>))"

definition final_message :: "descriptor \<Rightarrow> int \<Rightarrow> string \<Rightarrow> string" where
  "final_message d token path =
     ''enrollment committed to slot '' @ decimal (unat (d_slot d)) @ '' and token '' @ decimal (nat token)
     @ '', but journal update failed; retain '' @ path"

definition pending_bundle :: "('f, 'w) persistence \<Rightarrow> 'w clock \<Rightarrow> 'f enrollment_journal \<Rightarrow> bytes \<Rightarrow> (('l, 'w) cli, unit, cli_error) io" where
  "pending_bundle P clk jn envelope =
     io_then (observe_stage clk ''pending_bundle'') (\<lambda>_.
     io_then (persist (ps_create P (jn_pending_path jn))) (\<lambda>pending.
     io_then (persist (ps_write P pending envelope)) (\<lambda>_.
     io_then (persist (ps_sync_file P pending)) (\<lambda>_.
     io_then (persist (ps_sync_directory P (jn_pending_path jn))) (\<lambda>_.
     observe_at clk (milestone ''pending_bundle_durable''))))))"

text \<open>The commit in three parts: what is durable before the storage adapter runs, the adapter, and the last record.\<close>

text \<open>The \<open>json!\<close> macro unwraps the conversion of the path, so it panics on a path that is not UTF-8.\<close>

definition path_value :: "printer \<Rightarrow> string \<Rightarrow> (('l, 'w) cli, unit, cli_error) io" where
  "path_value J path = (if path_serializes J path then io_of (Ok ()) else (\<lambda>_. None))"

definition journal_prepare :: "primitives \<Rightarrow> ('f, 'w) persistence \<Rightarrow> printer \<Rightarrow> 'w clock \<Rightarrow> 'f enrollment_journal \<Rightarrow> descriptor \<Rightarrow> bytes
      \<Rightarrow> (('l, 'w) cli, unit, cli_error) io" where
  "journal_prepare C P J clk jn d envelope =
     io_then (pending_bundle P clk jn envelope) (\<lambda>_.
     io_then (path_value J (jn_pending_path jn)) (\<lambda>_.
     io_then (journal_record P jn (print_bundle J \<lparr>br_phase = ''pending-bundle-durable'', br_path = jn_pending_path jn,
       br_sha384 = hex_encode J (hash_context C envelope)\<rparr>)) (\<lambda>_.
     io_then (journal_phase P J jn ''prepared-and-recovery-tested'' d) (\<lambda>_.
     io_then (observe_at clk (milestone ''prepared_and_recovery_tested'')) (\<lambda>_.
     observe_stage clk ''storage_commit'')))))"

definition journal_confirm :: "('f, 'w) persistence \<Rightarrow> printer \<Rightarrow> 'w clock \<Rightarrow> 'f enrollment_journal \<Rightarrow> descriptor \<Rightarrow> int
      \<Rightarrow> (('l, 'w) cli, int, cli_error) io" where
  "journal_confirm P J clk jn d token =
     io_then (observe_at clk committed) (\<lambda>_.
     io_then (observe_stage clk ''final_journal'') (\<lambda>_.
     io_then (io_map_err (\<lambda>e. Cli_Other (final_message d token (jn_pending_path jn)) (Some e))
       (journal_phase P J jn ''token-written-and-slot-tested'' d)) (\<lambda>_.
     io_then (observe_at clk (milestone ''final_journal_durable'')) (\<lambda>_.
     io_of (Ok token)))))"

definition journal_commit :: "primitives \<Rightarrow> ('f, 'w) persistence \<Rightarrow> printer \<Rightarrow> 'w clock \<Rightarrow> 'f enrollment_journal \<Rightarrow> descriptor \<Rightarrow> bytes
      \<Rightarrow> (('l, 'w) cli, int, luks_error) io \<Rightarrow> (('l, 'w) cli, int, cli_error) io" where
  "journal_commit C P J clk jn d envelope add =
     io_then (journal_prepare C P J clk jn d envelope) (\<lambda>_.
     io_then (observing (set_storage PendingReconciliation)) (\<lambda>_.
     io_then (storage_add jn add) (journal_confirm P J clk jn d)))"

section \<open>What the file operations do\<close>

text \<open>\<open>present w f\<close>: the file exists; \<open>contents w f\<close>: its bytes. Creating a file gives a new empty one, a write appends its bytes,
  or some of the first of them when it fails, and nothing else changes a file.\<close>

definition persistence_correct :: "('f, 'w) persistence \<Rightarrow> ('w \<Rightarrow> 'f \<Rightarrow> bool) \<Rightarrow> ('w \<Rightarrow> 'f \<Rightarrow> bytes) \<Rightarrow> bool" where
  "persistence_correct P present contents \<longleftrightarrow>
     (\<forall>path w f w'. ps_create P path w = (Ok f, w') \<longrightarrow> \<not> present w f \<and> present w' f \<and> contents w' f = [])
     \<and> (\<forall>path w r w' g. ps_create P path w = (r, w') \<longrightarrow> present w g \<longrightarrow> present w' g \<and> contents w' g = contents w g)
     \<and> (\<forall>f bs w r w' g. ps_write P f bs w = (r, w') \<longrightarrow> present w g \<longrightarrow> present w' g \<and>
          (if g = f then \<exists>pre. prefix pre bs \<and> contents w' f = contents w f @ pre \<and> (is_ok r \<longrightarrow> pre = bs)
           else contents w' g = contents w g))
     \<and> (\<forall>f w r w' g. ps_sync_file P f w = (r, w') \<longrightarrow> present w g \<longrightarrow> present w' g \<and> contents w' g = contents w g)
     \<and> (\<forall>path w r w' g. ps_sync_directory P path w = (r, w') \<longrightarrow> present w g \<longrightarrow> present w' g \<and> contents w' g = contents w g)"

text \<open>\<open>appends f m bs\<close>: the operation appends \<open>bs\<close> to the file, or a prefix of it when it fails.\<close>

definition appends :: "('w \<Rightarrow> 'f \<Rightarrow> bool) \<Rightarrow> ('w \<Rightarrow> 'f \<Rightarrow> bytes) \<Rightarrow> 'f \<Rightarrow> (('l, 'w) cli, 'a, 'e) io \<Rightarrow> bytes \<Rightarrow> bool" where
  "appends present contents f m bs \<longleftrightarrow> (\<forall>s r s'. m s = Some (r, s') \<longrightarrow> present (cl_world s) f \<longrightarrow> present (cl_world s') f
     \<and> (\<exists>pre. prefix pre bs \<and> contents (cl_world s') f = contents (cl_world s) f @ pre \<and> (is_ok r \<longrightarrow> pre = bs)))"

lemma appendsD:
  assumes "appends present contents f m bs" "m s = Some (r, s')" "present (cl_world s) f"
  obtains pre where "present (cl_world s') f" "prefix pre bs" "contents (cl_world s') f = contents (cl_world s) f @ pre"
    "is_ok r \<Longrightarrow> pre = bs"
  using assms unfolding appends_def by blast

lemma appends_then:
  assumes "appends present contents f m bs" "\<And>x. appends present contents f (k x) bs'"
  shows "appends present contents f (io_then m k) (bs @ bs')"
  unfolding appends_def
proof (intro allI impI)
  fix s r s' assume run: "io_then m k s = Some (r, s')" and here: "present (cl_world s) f"
  show "present (cl_world s') f \<and> (\<exists>pre. prefix pre (bs @ bs') \<and> contents (cl_world s') f = contents (cl_world s) f @ pre
      \<and> (is_ok r \<longrightarrow> pre = bs @ bs'))"
  proof (cases "\<exists>x s1. m s = Some (Ok x, s1)")
    case True
    then obtain x s1 where ok: "m s = Some (Ok x, s1)" by blast
    then have rest: "k x s1 = Some (r, s')" using run by (simp add: io_then_def)
    obtain pre where pre: "present (cl_world s1) f" "contents (cl_world s1) f = contents (cl_world s) f @ pre" "pre = bs"
      by (rule appendsD [OF assms(1) ok here]) simp
    show ?thesis
      by (rule appendsD [OF assms(2) rest pre(1)]) (use pre in auto)
  next
    case False
    then obtain e where err: "m s = Some (Err e, s')" "r = Err e"
      using run by (auto simp: io_then_def split: option.splits prod.splits result.splits)
    show ?thesis
      by (rule appendsD [OF assms(1) err(1) here]) (use err(2) in \<open>auto intro: prefix_prefix\<close>)
  qed
qed

lemma appends_quiet: "appends present contents f m [] \<Longrightarrow> (\<And>x. appends present contents f (k x) bs)
    \<Longrightarrow> appends present contents f (io_then m k) bs"
  using appends_then [of present contents f m "[]" k bs] by simp

lemma appends_of: "appends present contents f (io_of r) []"
  by (simp add: appends_def io_of_def)

lemma appends_map_err: "appends present contents f m bs \<Longrightarrow> appends present contents f (io_map_err g m) bs"
proof -
  assume m: "appends present contents f m bs"
  show ?thesis
    unfolding appends_def
  proof (intro allI impI)
    fix s r s' assume run: "io_map_err g m s = Some (r, s')" and here: "present (cl_world s) f"
    then obtain r0 where r0: "m s = Some (r0, s')" "r = map_err g r0" by (auto simp: io_map_err_def)
    have "is_ok r = is_ok r0" using r0(2) by (cases r0) simp_all
    then show "present (cl_world s') f \<and> (\<exists>pre. prefix pre bs \<and> contents (cl_world s') f = contents (cl_world s) f @ pre
        \<and> (is_ok r \<longrightarrow> pre = bs))"
      using m r0(1) here unfolding appends_def by metis
  qed
qed

lemma persist_run: "persist g s = Some (r, s') \<Longrightarrow> \<exists>r0 w. g (cl_world s) = (r0, w) \<and> is_ok r = is_ok r0 \<and> s' = s\<lparr>cl_world := w\<rparr>"
  by (cases "fst (g (cl_world s))") (auto simp: persist_def split: prod.splits)

lemma appends_write:
  assumes "persistence_correct P present contents"
  shows "appends present contents f (persist (ps_write P f bs)) bs"
  unfolding appends_def
proof (intro allI impI)
  fix s r s' assume "persist (ps_write P f bs) s = Some (r, s')" and here: "present (cl_world s) f"
  then obtain r0 w where run: "ps_write P f bs (cl_world s) = (r0, w)" "is_ok r = is_ok r0" "s' = s\<lparr>cl_world := w\<rparr>"
    using persist_run by blast
  have "present w f \<and> (if f = f then \<exists>pre. prefix pre bs \<and> contents w f = contents (cl_world s) f @ pre \<and> (is_ok r0 \<longrightarrow> pre = bs)
      else contents w f = contents (cl_world s) f)"
    by (rule assms [unfolded persistence_correct_def, THEN conjunct2, THEN conjunct2, THEN conjunct1, rule_format, OF run(1) here])
  then show "present (cl_world s') f \<and> (\<exists>pre. prefix pre bs \<and> contents (cl_world s') f = contents (cl_world s) f @ pre
      \<and> (is_ok r \<longrightarrow> pre = bs))"
    using run(2,3) by simp
qed

lemma appends_other_file:
  assumes "persistence_correct P present contents" "g \<noteq> f"
  shows "appends present contents f (persist (ps_write P g bs)) []"
  unfolding appends_def
proof (intro allI impI)
  fix s r s' assume "persist (ps_write P g bs) s = Some (r, s')" and here: "present (cl_world s) f"
  then obtain r0 w where run: "ps_write P g bs (cl_world s) = (r0, w)" "s' = s\<lparr>cl_world := w\<rparr>"
    using persist_run by blast
  have "present w f \<and> contents w f = contents (cl_world s) f"
    using assms(1) [unfolded persistence_correct_def, THEN conjunct2, THEN conjunct2, THEN conjunct1, rule_format, OF run(1) here]
      assms(2) by simp
  then show "present (cl_world s') f \<and> (\<exists>pre. prefix pre [] \<and> contents (cl_world s') f = contents (cl_world s) f @ pre
      \<and> (is_ok r \<longrightarrow> pre = []))"
    using run(2) by simp
qed

lemma appends_sync:
  assumes "persistence_correct P present contents"
  shows "appends present contents f (persist (ps_sync_file P g)) []" "appends present contents f (persist (ps_sync_directory P path)) []"
  using assms unfolding appends_def persistence_correct_def by (auto dest!: persist_run)

lemma appends_create:
  assumes "persistence_correct P present contents" "\<And>g. g \<noteq> f \<Longrightarrow> appends present contents f (k g) bs"
  shows "appends present contents f (io_then (persist (ps_create P path)) k) bs"
  unfolding appends_def
proof (intro allI impI)
  fix s r s' assume run: "io_then (persist (ps_create P path)) k s = Some (r, s')" and here: "present (cl_world s) f"
  obtain r0 w where created: "ps_create P path (cl_world s) = (r0, w)" by fastforce
  have kept: "present w f" "contents w f = contents (cl_world s) f"
    using assms(1) [unfolded persistence_correct_def, THEN conjunct2, THEN conjunct1, rule_format, OF created here] by simp_all
  show "present (cl_world s') f \<and> (\<exists>pre. prefix pre bs \<and> contents (cl_world s') f = contents (cl_world s) f @ pre
      \<and> (is_ok r \<longrightarrow> pre = bs))"
  proof (cases r0)
    case (Ok g)
    then have "\<not> present (cl_world s) g"
      using assms(1) [unfolded persistence_correct_def, THEN conjunct1, rule_format] created by blast
    then have "g \<noteq> f" using here by blast
    moreover have rest: "k g (s\<lparr>cl_world := w\<rparr>) = Some (r, s')" using run created Ok by (simp add: io_then_def persist_def)
    ultimately have tail: "appends present contents f (k g) bs" by (intro assms(2))
    show ?thesis by (rule appendsD [OF tail rest]) (use kept in auto)
  next
    case (Err e)
    then show ?thesis using run created kept by (auto simp: io_then_def persist_def)
  qed
qed

text \<open>The clock and the storage adapter leave the journal alone.\<close>

definition clock_leaves :: "('w \<Rightarrow> 'f \<Rightarrow> bool) \<Rightarrow> ('w \<Rightarrow> 'f \<Rightarrow> bytes) \<Rightarrow> 'w clock \<Rightarrow> bool" where
  "clock_leaves present contents clk \<longleftrightarrow>
     (\<forall>w f. present w f \<longrightarrow> present (snd (clk w)) f \<and> contents (snd (clk w)) f = contents w f)"

lemma appends_observe:
  "appends present contents f (observing g) []"
  "clock_leaves present contents clk \<Longrightarrow> appends present contents f (observe_at clk h) []"
  "clock_leaves present contents clk \<Longrightarrow> appends present contents f (observe_stage clk stage) []"
  by (auto simp: appends_def observing_def observe_at_def observe_stage_def clock_leaves_def split: prod.splits)
    (metis snd_conv)+

text \<open>The line of a record, and the four lines of an enrollment.\<close>

definition record_line :: "bytes option \<Rightarrow> bytes" where
  "record_line entry = (case entry of None \<Rightarrow> [] | Some bs \<Rightarrow> bs @ [10])"

definition bundle_of :: "primitives \<Rightarrow> printer \<Rightarrow> 'f enrollment_journal \<Rightarrow> bytes \<Rightarrow> bundle_record" where
  "bundle_of C J jn envelope =
     \<lparr>br_phase = ''pending-bundle-durable'', br_path = jn_pending_path jn, br_sha384 = hex_encode J (hash_context C envelope)\<rparr>"

abbreviation identity_line :: "printer \<Rightarrow> string \<Rightarrow> descriptor \<Rightarrow> bytes" where
  "identity_line J phase d \<equiv> record_line (print_identity J (identity_of J phase d))"

abbreviation bundle_line :: "primitives \<Rightarrow> printer \<Rightarrow> 'f enrollment_journal \<Rightarrow> bytes \<Rightarrow> bytes" where
  "bundle_line C J jn envelope \<equiv> record_line (print_bundle J (bundle_of C J jn envelope))"

lemma appends_record:
  assumes "persistence_correct P present contents"
  shows "appends present contents (jn_log jn) (journal_record P jn entry) (record_line entry)"
  by (cases entry) (simp_all add: journal_record_def record_line_def appends_write [OF assms], simp add: appends_def io_of_def)

lemma appends_phase:
  assumes "persistence_correct P present contents"
  shows "appends present contents (jn_log jn) (journal_phase P J jn phase d) (identity_line J phase d)"
  unfolding journal_phase_def
  using appends_then [OF appends_record [OF assms] appends_sync(1) [OF assms]] by simp

lemma appends_pending:
  assumes "persistence_correct P present contents" "clock_leaves present contents clk"
  shows "appends present contents f (pending_bundle P clk jn envelope) []"
  unfolding pending_bundle_def
  by (intro appends_quiet appends_create appends_observe appends_sync appends_other_file assms)

lemma appends_path: "appends present contents f (path_value J path) []"
  by (simp add: appends_def path_value_def io_of_def)

lemma appends_prepare:
  assumes "persistence_correct P present contents" "clock_leaves present contents clk"
  shows "appends present contents (jn_log jn) (journal_prepare C P J clk jn d envelope)
    (bundle_line C J jn envelope @ identity_line J ''prepared-and-recovery-tested'' d)"
proof -
  have quiet: "appends present contents (jn_log jn) (io_then (observe_at clk h) (\<lambda>_. observe_stage clk stage)) []" for h stage
    by (intro appends_quiet appends_observe assms)
  have "appends present contents (jn_log jn) (io_then (journal_phase P J jn ''prepared-and-recovery-tested'' d) (\<lambda>_.
      io_then (observe_at clk (milestone ''prepared_and_recovery_tested'')) (\<lambda>_. observe_stage clk ''storage_commit'')))
      (identity_line J ''prepared-and-recovery-tested'' d)"
    using appends_then [OF appends_phase [OF assms(1)] quiet] by simp
  then show ?thesis
    unfolding journal_prepare_def bundle_of_def
    by (rule appends_quiet [OF appends_pending [OF assms] appends_quiet [OF appends_path appends_then [OF appends_record [OF assms(1)]]]])
qed

lemma appends_confirm:
  assumes "persistence_correct P present contents" "clock_leaves present contents clk"
  shows "appends present contents (jn_log jn) (journal_confirm P J clk jn d token) (identity_line J ''token-written-and-slot-tested'' d)"
proof -
  have quiet: "appends present contents (jn_log jn) (io_then (observe_at clk h) (\<lambda>_. io_of (Ok token))) []" for h
    by (intro appends_quiet appends_observe appends_of assms)
  have "appends present contents (jn_log jn) (io_then (io_map_err (\<lambda>e. Cli_Other (final_message d token (jn_pending_path jn)) (Some e))
       (journal_phase P J jn ''token-written-and-slot-tested'' d)) (\<lambda>_.
     io_then (observe_at clk (milestone ''final_journal_durable'')) (\<lambda>_. io_of (Ok token)))) (identity_line J ''token-written-and-slot-tested'' d)"
    using appends_then [OF appends_map_err [OF appends_phase [OF assms(1)]] quiet] by simp
  then show ?thesis
    unfolding journal_confirm_def
    by (rule appends_quiet [OF appends_observe(2) [OF assms(2)] appends_quiet [OF appends_observe(3) [OF assms(2)]]])
qed

section \<open>What the reported storage state means\<close>

abbreviation storage_of :: "('l, 'w) cli \<Rightarrow> storage_state" where
  "storage_of s \<equiv> cx_storage (cl_op s)"

lemma emit_keeps_storage [simp]:
  "cx_storage (cli_emit event stage outcome reason duration cx) = cx_storage cx"
  "cx_storage (cli_stage stage' now now' cx) = cx_storage cx" "cx_storage (milestone stage' now cx) = cx_storage cx"
  "cx_storage (committed now cx) = Committed" "cx_storage (set_storage storage cx) = storage"
  by (simp_all add: cli_emit_def hand_over_def cli_stage_def milestone_def committed_def set_storage_def Let_def)

lemma keeps_storage [kept]:
  "keeps storage_of (persist f)" "keeps storage_of (observe_stage clk stage)" "keeps storage_of (observe_at clk (milestone stage))"
  "keeps storage_of (path_value J path)"
  by (auto simp: keeps_def persist_def observe_stage_def observe_at_def path_value_def io_of_def split: prod.splits)

lemma keeps_storage_journal [kept]:
  "keeps storage_of (journal_record P jn entry)" "keeps storage_of (journal_phase P J jn phase d)"
  unfolding journal_phase_def journal_record_def by (intro kept)+

lemma keeps_storage_prepare: "keeps storage_of (journal_prepare C P J clk jn d envelope)"
  unfolding journal_prepare_def pending_bundle_def by (intro kept)

lemma confirm_committed:
  assumes "journal_confirm P J clk jn d token s = Some (r, s')"
  shows "storage_of s' = Committed"
proof -
  let ?rest = "io_then (observe_stage clk ''final_journal'') (\<lambda>_.
     io_then (io_map_err (\<lambda>e. Cli_Other (final_message d token (jn_pending_path jn)) (Some e))
       (journal_phase P J jn ''token-written-and-slot-tested'' d)) (\<lambda>_.
     io_then (observe_at clk (milestone ''final_journal_durable'')) (\<lambda>_. io_of (Ok token))))"
  obtain now w where now: "clk (cl_world s) = (now, w)" by fastforce
  have "keeps storage_of ?rest" by (intro kept)
  moreover have "?rest (s\<lparr>cl_world := w, cl_op := committed now (cl_op s)\<rparr>) = Some (r, s')"
    using assms now by (simp add: journal_confirm_def io_then_def observe_at_def)
  ultimately have "storage_of s' = storage_of (s\<lparr>cl_world := w, cl_op := committed now (cl_op s)\<rparr>)"
    unfolding keeps_def by blast
  then show ?thesis by simp
qed

section \<open>What the collector reads\<close>

text \<open>Printing gives one line that the collector's parser reads back, and the two text forms are the ones it expects.\<close>

definition printer_correct :: "'g reader \<Rightarrow> printer \<Rightarrow> bool" where
  "printer_correct R J \<longleftrightarrow>
     (\<forall>r bs. print_identity J r = Some bs \<longrightarrow> 10 \<notin> set bs \<and> parse_identity R bs = Some r)
     \<and> (\<forall>r bs. print_bundle J r = Some bs \<longrightarrow> 10 \<notin> set bs \<and> parse_bundle R bs = Some r)
     \<and> (\<forall>bs. lower_hex (length bs) (hex_encode J bs) = Some bs)
     \<and> (\<forall>bs. length bs = 16 \<longrightarrow> length (uuid_to_string J bs) = 36 \<and> (\<forall>i\<in>{8, 13, 18, 23}. uuid_to_string J bs ! i = CHR ''-'')
          \<and> lower_hex 16 (filter (\<lambda>c. c \<noteq> CHR ''-'') (uuid_to_string J bs)) = Some bs)"

lemma split_on_length: "length (split_on d xs) = count_list xs d + 1"
proof (induction xs)
  case (Cons x xs)
  then show ?case by (cases "split_on d xs") auto
qed simp

lemma split_on_free: "d \<notin> set xs \<Longrightarrow> split_on d xs = [xs]"
  by (induction xs) auto

lemma split_on_line: "d \<notin> set xs \<Longrightarrow> split_on d (xs @ d # ys) = xs # split_on d ys"
  by (induction xs) auto

lemma committed_newlines:
  assumes "journal_committed R bs = Some True"
  shows "count_list bs 10 = 4"
proof -
  have "bs \<noteq> []" "last bs = 10" "length (split_on 10 (butlast bs)) = 4"
    using assms by (simp_all add: journal_committed_iff Let_def)
  moreover from this(1,2) have "bs = butlast bs @ [10]" by (metis append_butlast_last_id)
  then have "count_list bs 10 = count_list (butlast bs) 10 + 1" by (metis count_list.simps count_list_append add_0)
  ultimately show ?thesis by (simp add: split_on_length)
qed

lemma record_line_newlines:
  assumes "printer_correct R J"
  shows "count_list (record_line (print_identity J r)) 10 \<le> 1" "count_list (record_line (print_bundle J b)) 10 \<le> 1"
  using assms unfolding printer_correct_def
  by (auto simp: record_line_def count_list_0_iff split: option.splits)

lemma count_prefix: "prefix xs ys \<Longrightarrow> count_list xs x \<le> count_list ys x"
  by (auto simp: prefix_def)

lemma identity_reads:
  assumes "printer_correct R J" "validate_descriptor P V d = Ok ()" "wf_descriptor d"
  shows "journal_identity (identity_of J phase d) = Some (d_binding_id d, d_volume_uuid d, d_slot d)"
proof -
  have wf: "length (d_binding_id d) = 32" "length (d_volume_uuid d) = 16" using assms(3) by (simp_all add: wf_descriptor_def)
  have valid: "d_binding_id d \<noteq> replicate 32 0" "d_volume_uuid d \<noteq> replicate 16 0" "d_slot d < 32"
    using assms(2) by (auto simp: validate_descriptor_def split: if_splits)
  have "lower_hex 32 (hex_encode J (d_binding_id d)) = Some (d_binding_id d)"
    using assms(1) wf(1) unfolding printer_correct_def by metis
  moreover have "length (uuid_to_string J (d_volume_uuid d)) = 36" "\<forall>i\<in>{8, 13, 18, 23}. uuid_to_string J (d_volume_uuid d) ! i = CHR ''-''"
    "lower_hex 16 (filter (\<lambda>c. c \<noteq> CHR ''-'') (uuid_to_string J (d_volume_uuid d))) = Some (d_volume_uuid d)"
    using assms(1) wf(2) unfolding printer_correct_def by simp_all
  ultimately show ?thesis using valid by (simp add: journal_identity_def identity_of_def)
qed

section \<open>Runs of the commit\<close>

lemma commit_run:
  assumes "journal_commit C P J clk jn d envelope add s = Some (r, s')"
  obtains (prepare) e where "journal_prepare C P J clk jn d envelope s = Some (Err e, s')" "r = Err e"
  | (refused) s1 e s2 where "journal_prepare C P J clk jn d envelope s = Some (Ok (), s1)"
      "add (s1\<lparr>cl_op := set_storage PendingReconciliation (cl_op s1)\<rparr>) = Some (Err e, s2)" "\<not> is_ok r"
      "s' = (if is_partial e then s2 else s2\<lparr>cl_op := set_storage NotMutated (cl_op s2)\<rparr>)"
  | (added) s1 token s2 where "journal_prepare C P J clk jn d envelope s = Some (Ok (), s1)"
      "add (s1\<lparr>cl_op := set_storage PendingReconciliation (cl_op s1)\<rparr>) = Some (Ok token, s2)"
      "journal_confirm P J clk jn d token s2 = Some (r, s')"
proof -
  obtain p s1 where p: "journal_prepare C P J clk jn d envelope s = Some (p, s1)"
    using assms by (cases "journal_prepare C P J clk jn d envelope s") (auto simp: journal_commit_def io_then_def)
  let ?s1 = "s1\<lparr>cl_op := set_storage PendingReconciliation (cl_op s1)\<rparr>"
  show thesis
  proof (cases p)
    case (Err e)
    then show ?thesis using prepare p assms by (auto simp: journal_commit_def io_then_def)
  next
    case (Ok u)
    then have rest: "io_then (storage_add jn add) (journal_confirm P J clk jn d) ?s1 = Some (r, s')"
      using p assms by (simp add: journal_commit_def io_then_def observing_def)
    then obtain q s2 where q: "add ?s1 = Some (q, s2)" by (cases "add ?s1") (auto simp: io_then_def storage_add_def)
    show ?thesis
    proof (cases q)
      case (Ok token)
      then show ?thesis using added [of s1 token s2] p \<open>p = Ok u\<close> q rest by (simp add: io_then_def storage_add_def)
    next
      case (Err e)
      then show ?thesis using refused [of s1 e s2] p \<open>p = Ok u\<close> q rest by (auto simp: io_then_def storage_add_def)
    qed
  qed
qed

lemma commit_storage:
  assumes "journal_commit C P J clk jn d envelope add s = Some (r, s')" "keeps cl_op add" "storage_of s = NotMutated"
  shows "case storage_of s' of
      Committed \<Rightarrow> \<exists>t token t'. add t = Some (Ok token, t')
    | NotMutated \<Rightarrow> (\<exists>e. journal_prepare C P J clk jn d envelope s = Some (Err e, s'))
        \<or> (\<exists>t e t'. add t = Some (Err e, t') \<and> \<not> is_partial e \<and> cl_world s' = cl_world t')
    | PendingReconciliation \<Rightarrow> \<exists>t e t'. add t = Some (Err e, t') \<and> is_partial e
    | _ \<Rightarrow> False"
  using assms(1)
proof (cases rule: commit_run)
  case (prepare e)
  then have "storage_of s' = NotMutated" using keeps_storage_prepare assms(3) unfolding keeps_def by metis
  then show ?thesis using prepare by simp
next
  case (refused s1 e s2)
  then have "cl_op s2 = set_storage PendingReconciliation (cl_op s1)" using assms(2) unfolding keeps_def by fastforce
  then have "storage_of s' = (if is_partial e then PendingReconciliation else NotMutated)"
    "\<not> is_partial e \<Longrightarrow> cl_world s' = cl_world s2" using refused(4) by simp_all
  then show ?thesis using refused(2) by auto
next
  case (added s1 token s2)
  then show ?thesis using confirm_committed [OF added(3)] by auto
qed

definition complete_journal :: "primitives \<Rightarrow> printer \<Rightarrow> 'f enrollment_journal \<Rightarrow> descriptor \<Rightarrow> bytes \<Rightarrow> bytes" where
  "complete_journal C J jn d envelope =
     identity_line J ''preflight'' d @ bundle_line C J jn envelope @ identity_line J ''prepared-and-recovery-tested'' d
     @ identity_line J ''token-written-and-slot-tested'' d"

lemma commit_log:
  assumes files: "persistence_correct P present contents" "clock_leaves present contents clk"
    and add: "appends present contents (jn_log jn) add []"
    and start: "present (cl_world s) (jn_log jn)" "contents (cl_world s) (jn_log jn) = identity_line J ''preflight'' d"
    and run: "journal_commit C P J clk jn d envelope add s = Some (r, s')"
  shows "storage_of s' = Committed
      \<or> prefix (contents (cl_world s') (jn_log jn)) (identity_line J ''preflight'' d @ bundle_line C J jn envelope
          @ identity_line J ''prepared-and-recovery-tested'' d)"
    and "is_ok r \<Longrightarrow> contents (cl_world s') (jn_log jn) = complete_journal C J jn d envelope"
proof -
  let ?l23 = "bundle_line C J jn envelope @ identity_line J ''prepared-and-recovery-tested'' d"
  have "(storage_of s' = Committed \<or> prefix (contents (cl_world s') (jn_log jn)) (identity_line J ''preflight'' d @ ?l23))
    \<and> (is_ok r \<longrightarrow> contents (cl_world s') (jn_log jn) = complete_journal C J jn d envelope)"
    using run
  proof (cases rule: commit_run)
    case (prepare e)
    obtain pre where "prefix pre ?l23" "contents (cl_world s') (jn_log jn) = contents (cl_world s) (jn_log jn) @ pre"
      by (rule appendsD [OF appends_prepare [OF files] prepare(1) start(1)])
    then show ?thesis using start(2) prepare(2) by simp
  next
    case (refused s1 e s2)
    obtain pre where one: "present (cl_world s1) (jn_log jn)" "contents (cl_world s1) (jn_log jn) = identity_line J ''preflight'' d @ ?l23"
      by (rule appendsD [OF appends_prepare [OF files] refused(1) start(1)]) (simp add: start(2))
    obtain pre where "contents (cl_world s2) (jn_log jn) = contents (cl_world s1) (jn_log jn)"
      by (rule appendsD [OF add refused(2)]) (use one in simp_all)
    then show ?thesis using one refused(3,4) by simp
  next
    case (added s1 token s2)
    obtain pre where one: "present (cl_world s1) (jn_log jn)" "contents (cl_world s1) (jn_log jn) = identity_line J ''preflight'' d @ ?l23"
      by (rule appendsD [OF appends_prepare [OF files] added(1) start(1)]) (simp add: start(2))
    obtain pre where two: "present (cl_world s2) (jn_log jn)" "contents (cl_world s2) (jn_log jn) = contents (cl_world s1) (jn_log jn)"
      by (rule appendsD [OF add added(2)]) (use one in simp_all)
    have "is_ok r \<longrightarrow> contents (cl_world s') (jn_log jn) = contents (cl_world s2) (jn_log jn) @ identity_line J ''token-written-and-slot-tested'' d"
      by (rule appendsD [OF appends_confirm [OF files] added(3) two(1)]) simp
    then show ?thesis using one two confirm_committed [OF added(3)] by (simp add: complete_journal_def)
  qed
  then show "storage_of s' = Committed
      \<or> prefix (contents (cl_world s') (jn_log jn)) (identity_line J ''preflight'' d @ bundle_line C J jn envelope
          @ identity_line J ''prepared-and-recovery-tested'' d)"
    and "is_ok r \<Longrightarrow> contents (cl_world s') (jn_log jn) = complete_journal C J jn d envelope" by blast+
qed

text \<open>Every record can be printed within the line limit of the collector, a limit that the writer does not check.\<close>

definition journal_prints :: "primitives \<Rightarrow> printer \<Rightarrow> 'f enrollment_journal \<Rightarrow> descriptor \<Rightarrow> bytes \<Rightarrow> bool" where
  "journal_prints C J jn d envelope \<longleftrightarrow>
     (\<forall>phase\<in>{''preflight'', ''prepared-and-recovery-tested'', ''token-written-and-slot-tested''}.
        \<exists>bs. print_identity J (identity_of J phase d) = Some bs \<and> length bs \<le> 8192)
     \<and> (\<exists>bs. print_bundle J (bundle_of C J jn envelope) = Some bs \<and> length bs \<le> 8192)
     \<and> jn_pending_path jn \<noteq> [] \<and> length (hash_context C envelope) = 48"

lemma complete_journal_reads:
  assumes "printer_correct R J" "validate_descriptor P V d = Ok ()" "wf_descriptor d" "journal_prints C J jn d envelope"
  shows "journal_committed R (complete_journal C J jn d envelope) = Some True"
proof -
  obtain b1 b2 b3 b4 where printed:
    "print_identity J (identity_of J ''preflight'' d) = Some b1" "print_bundle J (bundle_of C J jn envelope) = Some b2"
    "print_identity J (identity_of J ''prepared-and-recovery-tested'' d) = Some b3"
    "print_identity J (identity_of J ''token-written-and-slot-tested'' d) = Some b4"
    and short: "length b1 \<le> 8192" "length b2 \<le> 8192" "length b3 \<le> 8192" "length b4 \<le> 8192"
    using assms(4) unfolding journal_prints_def by blast
  have free: "10 \<notin> set b1" "10 \<notin> set b2" "10 \<notin> set b3" "10 \<notin> set b4"
    and parsed: "parse_identity R b1 = Some (identity_of J ''preflight'' d)" "parse_bundle R b2 = Some (bundle_of C J jn envelope)"
      "parse_identity R b3 = Some (identity_of J ''prepared-and-recovery-tested'' d)"
      "parse_identity R b4 = Some (identity_of J ''token-written-and-slot-tested'' d)"
    using assms(1) printed unfolding printer_correct_def by blast+
  have journal: "complete_journal C J jn d envelope = b1 @ 10 # b2 @ 10 # b3 @ 10 # b4 @ [10]"
    by (simp add: complete_journal_def printed record_line_def)
  have lines: "split_on 10 (butlast (b1 @ 10 # b2 @ 10 # b3 @ 10 # b4 @ [10])) = [b1, b2, b3, b4]"
    using free by (simp add: butlast_append split_on_line split_on_free)
  let ?i = "(d_binding_id d, d_volume_uuid d, d_slot d)"
  note identity = identity_reads [OF assms(1-3)]
  have "line_identity R ''preflight'' b1 = Some ?i" "line_identity R ''prepared-and-recovery-tested'' b3 = Some ?i"
    "line_identity R ''token-written-and-slot-tested'' b4 = Some ?i"
    using identity by (simp_all add: line_identity_def parsed) (simp_all add: identity_of_def)
  moreover have "lower_hex 48 (hex_encode J (hash_context C envelope)) = Some (hash_context C envelope)"
    using assms(1,4) unfolding printer_correct_def journal_prints_def by metis
  then have "bundle_valid R ''pending-bundle-durable'' b2"
    using assms(4) by (simp add: bundle_valid_def parsed bundle_of_def journal_prints_def)
  ultimately have "lines_valid R ?i 0 [b1, b2, b3, b4]"
    by (simp add: lines_valid_Cons line_valid_def phases_def) (simp add: lines_valid_def)
  then show ?thesis
    unfolding journal journal_committed_iff Let_def lines using short by auto
qed

section \<open>A concrete journal\<close>

definition hex_char :: "nat \<Rightarrow> char" where
  "hex_char n = ''0123456789abcdef'' ! n"

definition example_hex :: "bytes \<Rightarrow> string" where
  "example_hex bs = concat (map (\<lambda>b. [hex_char (unat b div 16), hex_char (unat b mod 16)]) bs)"

lemma hex_char_nibble:
  assumes "n < 16"
  shows "is_lower_hex (hex_char n) \<and> hex_value (hex_char n) = n \<and> hex_char n \<noteq> CHR ''-''"
proof -
  have "n \<in> {0, 1, 2, 3, 4, 5, 6, 7, 8, 9, 10, 11, 12, 13, 14, 15}"
    using assms by (simp only: insert_iff empty_iff) presburger
  then show ?thesis
    by (auto simp: hex_char_def is_lower_hex_def is_digit_def hex_value_def)
qed

lemma high_nibble: "unat (b :: u8) div 16 < 16"
proof -
  have "unat b < 256" by (rule order_less_le_trans [OF unsigned_less]) simp
  then show ?thesis by simp
qed

lemma example_hex_chars: "list_all (\<lambda>c. is_lower_hex c \<and> c \<noteq> CHR ''-'') (example_hex bs)" "length (example_hex bs) = length bs * 2"
  by (induction bs) (simp_all add: example_hex_def hex_char_nibble high_nibble)

lemma example_hex_reads: "lower_hex (length bs) (example_hex bs) = Some bs"
proof -
  have "word_of_nat (hex_value (hex_char (unat b div 16)) * 16 + hex_value (hex_char (unat b mod 16))) = b" for b :: u8
  proof -
    have "word_of_nat (unat b div 16 * 16 + unat b mod 16) = b" by simp
    then show ?thesis by (simp only: hex_char_nibble [OF high_nibble] hex_char_nibble [OF mod_less_divisor [OF zero_less_numeral]])
  qed
  then have "hex_pairs (example_hex bs) = bs" by (induction bs) (simp_all add: example_hex_def)
  then show ?thesis using example_hex_chars by (auto simp: lower_hex_def list_all_iff)
qed

definition example_uuid :: "bytes \<Rightarrow> string" where
  "example_uuid bs =
     (let h = example_hex bs in take 8 h @ CHR ''-'' # take 4 (drop 8 h) @ CHR ''-'' # take 4 (drop 12 h)
        @ CHR ''-'' # take 4 (drop 16 h) @ CHR ''-'' # drop 20 h)"

lemma example_uuid_reads:
  assumes "length bs = 16"
  shows "length (example_uuid bs) = 36" "\<forall>i\<in>{8, 13, 18, 23}. example_uuid bs ! i = CHR ''-''"
    "lower_hex 16 (filter (\<lambda>c. c \<noteq> CHR ''-'') (example_uuid bs)) = Some bs"
proof -
  have len: "length (example_hex bs) = 32" using example_hex_chars(2) [of bs] assms by simp
  show "length (example_uuid bs) = 36" "\<forall>i\<in>{8, 13, 18, 23}. example_uuid bs ! i = CHR ''-''"
    using len by (simp_all add: example_uuid_def Let_def nth_append)
  have next4: "take 4 (drop k h) @ drop (k + 4) h = drop k h" for k and h :: string
    by (metis append_take_drop_id drop_drop add.commute)
  have "filter (\<lambda>c. c \<noteq> CHR ''-'') h = h" if "set h \<subseteq> set (example_hex bs)" for h
    using that example_hex_chars(1) [of bs] by (auto simp: list_all_iff filter_id_conv)
  then have "filter (\<lambda>c. c \<noteq> CHR ''-'') (example_uuid bs) = take 8 (example_hex bs) @ take 4 (drop 8 (example_hex bs))
      @ take 4 (drop 12 (example_hex bs)) @ take 4 (drop 16 (example_hex bs)) @ drop 20 (example_hex bs)"
    by (simp add: example_uuid_def Let_def set_take_subset set_drop_subset order_trans [OF set_take_subset set_drop_subset])
  also have "\<dots> = example_hex bs"
    using next4 [of 8 "example_hex bs"] next4 [of 12 "example_hex bs"] next4 [of 16 "example_hex bs"] by simp
  finally show "lower_hex 16 (filter (\<lambda>c. c \<noteq> CHR ''-'') (example_uuid bs)) = Some bs"
    using example_hex_reads [of bs] assms by simp
qed

definition example_identity :: "string \<Rightarrow> identity_record" where
  "example_identity phase =
     \<lparr>ir_phase = phase, ir_binding_id = example_hex (d_binding_id example_descriptor),
      ir_volume_uuid = example_uuid (d_volume_uuid example_descriptor), ir_slot = d_slot example_descriptor\<rparr>"

definition example_bundle :: bundle_record where
  "example_bundle =
     \<lparr>br_phase = ''pending-bundle-durable'', br_path = ''enroll.pending.leelo'', br_sha384 = example_hex (hash_context plain_primitives [1, 2])\<rparr>"

text \<open>One byte stands for each of the four printed records.\<close>

definition example_printer :: printer where
  "example_printer =
     \<lparr>print_identity = (\<lambda>r. if r = example_identity ''preflight'' then Some [1]
        else if r = example_identity ''prepared-and-recovery-tested'' then Some [3]
        else if r = example_identity ''token-written-and-slot-tested'' then Some [4] else None),
      print_bundle = (\<lambda>r. if r = example_bundle then Some [2] else None), path_serializes = (\<lambda>_. True), hex_encode = example_hex, uuid_to_string = example_uuid\<rparr>"

definition example_reader :: "unit reader" where
  "example_reader =
     \<lparr>reader_open = (\<lambda>_. None), reader_metadata = (\<lambda>_. None), reader_fs_type = (\<lambda>_. None), reader_read = (\<lambda>_ _. None), reader_euid = 0,
      parse_identity = (\<lambda>bs. if bs = [1] then Some (example_identity ''preflight'')
        else if bs = [3] then Some (example_identity ''prepared-and-recovery-tested'')
        else if bs = [4] then Some (example_identity ''token-written-and-slot-tested'') else None),
      parse_bundle = (\<lambda>bs. if bs = [2] then Some example_bundle else None)\<rparr>"

definition example_files :: "(nat, bytes list) persistence" where
  "example_files =
     \<lparr>ps_create = (\<lambda>path w. (Ok (length w), w @ [[]])), ps_write = (\<lambda>f bs w. (Ok (), w[f := w ! f @ bs])),
      ps_sync_file = (\<lambda>_ w. (Ok (), w)), ps_sync_directory = (\<lambda>_ w. (Ok (), w))\<rparr>"

abbreviation example_present :: "bytes list \<Rightarrow> nat \<Rightarrow> bool" where "example_present w f \<equiv> f < length w"

lemma example_files_correct: "persistence_correct example_files example_present (!)"
  by (auto simp: persistence_correct_def example_files_def nth_append)

lemma example_printer_correct: "printer_correct example_reader example_printer"
  using example_hex_reads example_uuid_reads
  by (auto simp: printer_correct_def example_printer_def example_reader_def example_identity_def split: if_splits)

lemma example_journal_prints:
  "journal_prints plain_primitives example_printer \<lparr>jn_log = 0, jn_pending_path = ''enroll.pending.leelo''\<rparr> example_descriptor [1, 2]"
  by (simp add: journal_prints_def example_printer_def identity_of_def example_identity_def bundle_of_def example_bundle_def
      hash_context_def plain_primitives_def)

abbreviation example_clock :: "bytes list clock" where "example_clock \<equiv> (\<lambda>w. (0, w))"

definition example_enrollment :: "(unit, bytes list) cli" where
  "example_enrollment = \<lparr>cl_world = [[1, 10]], cl_luks = (), cl_op = operation_new ''enroll'' 0\<rparr>"

abbreviation example_add :: "((unit, bytes list) cli, int, luks_error) io" where "example_add \<equiv> io_of (Ok 0)"

lemma example_commits:
  "\<exists>s'. journal_commit plain_primitives example_files example_printer example_clock
     \<lparr>jn_log = 0, jn_pending_path = ''enroll.pending.leelo''\<rparr> example_descriptor [1, 2] example_add example_enrollment = Some (Ok 0, s')"
proof -
  have printed: "print_identity example_printer (identity_of example_printer ''prepared-and-recovery-tested'' example_descriptor) = Some [3]"
    "print_identity example_printer (identity_of example_printer ''token-written-and-slot-tested'' example_descriptor) = Some [4]"
    "print_bundle example_printer \<lparr>br_phase = ''pending-bundle-durable'', br_path = ''enroll.pending.leelo'',
       br_sha384 = hex_encode example_printer (hash_context plain_primitives [1, 2])\<rparr> = Some [2]"
    "path_serializes example_printer ''enroll.pending.leelo''"
    by (simp_all add: example_printer_def identity_of_def example_identity_def example_bundle_def)
  have files: "ps_create example_files path w = (Ok (length w), w @ [[]])" "ps_write example_files f bs w = (Ok (), w[f := w ! f @ bs])"
    "ps_sync_file example_files f w = (Ok (), w)" "ps_sync_directory example_files path w = (Ok (), w)" for path w f bs
    by (simp_all add: example_files_def)
  show ?thesis
    by (simp add: journal_commit_def journal_prepare_def path_value_def pending_bundle_def journal_phase_def journal_record_def storage_add_def
        journal_confirm_def io_then_def io_of_def io_map_err_def persist_def observing_def observe_at_def observe_stage_def printed files)
qed

section \<open>Properties\<close>

text \<open>C8. The journal tells what happened to the volume, at whatever point the commit stops and however much of a record was
  written: if the collector reads the journal as committed, then the operation reports the storage as committed; it
  reports this only after the storage adapter has added the enrollment; a commit that succeeds leaves a journal
  that the collector reads as committed; and the operation reports unchanged storage only when the adapter was not
  called or refused with an error that is not a partial enrollment. The records are taken to fit in the lines that the
  collector reads, which the writer does not check.\<close>

theorem journal_tells_commitment:
  assumes "persistence_correct P present contents" "clock_leaves present contents clk" "printer_correct R J"
    and "appends present contents (jn_log jn) add []" "keeps cl_op add"
    and "validate_descriptor C V d = Ok ()" "wf_descriptor d" "journal_prints C J jn d envelope"
    and "present (cl_world s) (jn_log jn)" "contents (cl_world s) (jn_log jn) = identity_line J ''preflight'' d" "storage_of s = NotMutated"
    and "journal_commit C P J clk jn d envelope add s = Some (r, s')"
  shows "(journal_committed R (contents (cl_world s') (jn_log jn)) = Some True \<longrightarrow> storage_of s' = Committed)
    \<and> (storage_of s' = Committed \<longrightarrow> (\<exists>t token t'. add t = Some (Ok token, t')))
    \<and> (is_ok r \<longrightarrow> journal_committed R (contents (cl_world s') (jn_log jn)) = Some True)
    \<and> (storage_of s' = NotMutated \<longrightarrow> (\<exists>e. journal_prepare C P J clk jn d envelope s = Some (Err e, s'))
        \<or> (\<exists>t e t'. add t = Some (Err e, t') \<and> \<not> is_partial e \<and> cl_world s' = cl_world t'))"
proof (intro conjI impI)
  note log = commit_log [OF assms(1,2,4,9,10,12)]
  assume committed: "journal_committed R (contents (cl_world s') (jn_log jn)) = Some True"
  show "storage_of s' = Committed"
  proof (rule ccontr)
    assume "storage_of s' \<noteq> Committed"
    then have "count_list (contents (cl_world s') (jn_log jn)) 10 \<le> count_list (identity_line J ''preflight'' d
        @ bundle_line C J jn envelope @ identity_line J ''prepared-and-recovery-tested'' d) 10"
      using log(1) by (intro count_prefix) blast
    also have "\<dots> \<le> 1 + (1 + 1)"
      unfolding count_list_append by (intro add_mono record_line_newlines [OF assms(3)])
    finally show False using committed_newlines [OF committed] by simp
  qed
next
  assume "is_ok r"
  then show "journal_committed R (contents (cl_world s') (jn_log jn)) = Some True"
    using commit_log(2) [OF assms(1,2,4,9,10,12)] complete_journal_reads [OF assms(3,6,7,8)] by simp
qed (use commit_storage [OF assms(12,5,11)] in \<open>auto split: storage_state.splits\<close>)

theorem journal_tells_commitment_witness:
  "\<exists>s'. journal_commit plain_primitives example_files example_printer example_clock
      \<lparr>jn_log = 0, jn_pending_path = ''enroll.pending.leelo''\<rparr> example_descriptor [1, 2] example_add example_enrollment = Some (Ok 0, s')
    \<and> journal_committed example_reader (cl_world s' ! 0) = Some True \<and> storage_of s' = Committed"
proof -
  obtain s' where run: "journal_commit plain_primitives example_files example_printer example_clock
      \<lparr>jn_log = 0, jn_pending_path = ''enroll.pending.leelo''\<rparr> example_descriptor [1, 2] example_add example_enrollment = Some (Ok 0, s')"
    using example_commits by blast
  have start: "clock_leaves example_present (!) example_clock" "keeps cl_op example_add"
    "appends example_present (!) (jn_log \<lparr>jn_log = 0, jn_pending_path = ''enroll.pending.leelo''\<rparr>) example_add []"
    by (simp_all add: clock_leaves_def keeps_of appends_of)
  have log: "example_present (cl_world example_enrollment) (jn_log \<lparr>jn_log = 0, jn_pending_path = ''enroll.pending.leelo''\<rparr>)"
    "cl_world example_enrollment ! jn_log \<lparr>jn_log = 0, jn_pending_path = ''enroll.pending.leelo''\<rparr> = identity_line example_printer ''preflight'' example_descriptor"
    "storage_of example_enrollment = NotMutated"
    by (simp_all add: example_enrollment_def record_line_def example_printer_def identity_of_def example_identity_def operation_new_def)
  from journal_tells_commitment [OF example_files_correct start(1) example_printer_correct start(3,2) example_validates
      example_descriptor_wf example_journal_prints log run] run
  show ?thesis by auto
qed

end
