(* ===== verification/Release_Gate.thy ===== *)
theory Release_Gate
  imports Release_Machine
begin

text \<open>
  The release gate of crates/leelo-engine/src/release.rs (\<open>ReleaseState\<close>): four phases that advance in
  order, each only for the context the gate was made with. The lemmas give the contracts the source
  states for each method, interpret \<open>release_machine\<close> on the gate and show that a release is preceded
  by the three earlier phases in order under the same context.
\<close>

record gate_state =
  gate_context :: bytes
  gate_phase :: u8
  gate_require_live :: bool

definition gate_new :: "bytes \<Rightarrow> bool \<Rightarrow> gate_state" where
  "gate_new context require_live =
     \<lparr>gate_context = context, gate_phase = 0, gate_require_live = require_live\<rparr>"

text \<open>The comparison loop: \<open>todo\<close> is what remains of \<open>while i < 48\<close>.\<close>

fun gate_matches_from :: "nat \<Rightarrow> bytes \<Rightarrow> bytes \<Rightarrow> nat \<Rightarrow> bool" where
  "gate_matches_from 0 own context i = True"
| "gate_matches_from (Suc todo) own context i =
     (if own ! i \<noteq> context ! i then False else gate_matches_from todo own context (i + 1))"

definition gate_matches :: "gate_state \<Rightarrow> bytes \<Rightarrow> bool" where
  "gate_matches g context = gate_matches_from 48 (gate_context g) context 0"

definition gate_advance :: "bytes \<Rightarrow> u8 \<Rightarrow> bool \<Rightarrow> gate_state \<Rightarrow> bool \<times> gate_state" where
  "gate_advance context expected live g =
     (if \<not> gate_matches g context \<or> gate_phase g \<noteq> expected
         \<or> (expected = 1 \<and> gate_require_live g \<and> \<not> live)
      then (False, g)
      else (True, g\<lparr>gate_phase := expected + 1\<rparr>))"

definition gate_network :: "bytes \<Rightarrow> gate_state \<Rightarrow> bool \<times> gate_state" where
  "gate_network context g = gate_advance context 0 False g"

definition gate_tpm :: "bytes \<Rightarrow> bool \<Rightarrow> gate_state \<Rightarrow> bool \<times> gate_state" where
  "gate_tpm context live g = gate_advance context 1 live g"

definition gate_payload :: "bytes \<Rightarrow> gate_state \<Rightarrow> bool \<times> gate_state" where
  "gate_payload context g = gate_advance context 2 False g"

definition gate_release :: "bytes \<Rightarrow> bool \<Rightarrow> gate_state \<Rightarrow> bool \<times> gate_state" where
  "gate_release context within_deadline g =
     (if \<not> within_deadline then (False, g) else gate_advance context 3 False g)"

section \<open>Contracts\<close>

lemma gate_matches_from_iff:
  "gate_matches_from todo own context i \<longleftrightarrow> (\<forall>j. i \<le> j \<and> j < i + todo \<longrightarrow> own ! j = context ! j)"
proof (induction todo arbitrary: i)
  case (Suc todo)
  have "i \<le> j \<and> j < i + Suc todo \<longleftrightarrow> j = i \<or> i + 1 \<le> j \<and> j < i + 1 + todo" for j by auto
  then show ?case using Suc by auto
qed auto

lemma gate_matches_iff:
  "length (gate_context g) = 48 \<Longrightarrow> length context = 48 \<Longrightarrow>
     gate_matches g context \<longleftrightarrow> gate_context g = context"
  by (auto simp: gate_matches_def gate_matches_from_iff intro: nth_equalityI)

lemma gate_matches_self [simp]: "gate_context g = context \<Longrightarrow> gate_matches g context"
  by (simp add: gate_matches_def gate_matches_from_iff)

lemmas gate_defs = gate_network_def gate_tpm_def gate_payload_def gate_release_def gate_advance_def

section \<open>Runs of the gate\<close>

datatype gate_call =
    Gate_Network bytes | Gate_Tpm bytes bool | Gate_Payload bytes | Gate_Release bytes bool

fun gate_step :: "gate_state \<Rightarrow> gate_call \<Rightarrow> bool \<times> gate_state" where
  "gate_step g (Gate_Network context) = gate_network context g"
| "gate_step g (Gate_Tpm context live) = gate_tpm context live g"
| "gate_step g (Gate_Payload context) = gate_payload context g"
| "gate_step g (Gate_Release context within) = gate_release context within g"

definition gate_grants :: "gate_call \<Rightarrow> bool \<Rightarrow> bool" where
  "gate_grants call accepted \<longleftrightarrow> (\<exists>context within. call = Gate_Release context within) \<and> accepted"

interpretation gate: release_machine gate_step gate_grants "\<lambda>g. gate_phase g = 4"
proof
  show "gate_phase g \<noteq> 4 \<and> gate_phase g' = 4"
    if "gate_step g call = (out, g')" "gate_grants call out" for g call out g'
    using that by (cases call) (auto simp: gate_grants_def gate_defs split: if_splits)
  show "gate_phase g' = 4" if "gate_phase g = 4" "gate_step g call = (out, g')" for g call out g'
    using that by (cases call) (auto simp: gate_defs split: if_splits)
qed

text \<open>\<open>accepted_calls log\<close>: the accepted calls, oldest first. The phase of a gate counts them, and they are
  the phases in order.\<close>

definition accepted_calls :: "(gate_call \<times> bool) list \<Rightarrow> gate_call list" where
  "accepted_calls log = map fst (filter snd log)"

fun phase_of_call :: "gate_call \<Rightarrow> nat" where
  "phase_of_call (Gate_Network context) = 0"
| "phase_of_call (Gate_Tpm context live) = 1"
| "phase_of_call (Gate_Payload context) = 2"
| "phase_of_call (Gate_Release context within) = 3"

fun context_of_call :: "gate_call \<Rightarrow> bytes" where
  "context_of_call (Gate_Network context) = context"
| "context_of_call (Gate_Tpm context live) = context"
| "context_of_call (Gate_Payload context) = context"
| "context_of_call (Gate_Release context within) = context"

fun call_allowed :: "bool \<Rightarrow> gate_call \<Rightarrow> bool" where
  "call_allowed require_live (Gate_Tpm context live) = (require_live \<longrightarrow> live)"
| "call_allowed require_live (Gate_Release context within) = within"
| "call_allowed require_live _ = True"

definition gate_seen :: "bytes \<Rightarrow> bool \<Rightarrow> (gate_call \<times> bool) list \<Rightarrow> gate_state \<Rightarrow> bool" where
  "gate_seen context require_live log g \<longleftrightarrow>
     gate_context g = context \<and> gate_require_live g = require_live
     \<and> unat (gate_phase g) = length (accepted_calls log)
     \<and> map phase_of_call (accepted_calls log) = [0..<length (accepted_calls log)]
     \<and> length (accepted_calls log) \<le> 4
     \<and> (\<forall>call\<in>set (accepted_calls log). gate_matches_from 48 context (context_of_call call) 0
          \<and> call_allowed require_live call)"

lemma gate_step_accepted:
  assumes "gate_step g call = (True, g')"
  shows "unat (gate_phase g) = phase_of_call call" "g' = g\<lparr>gate_phase := gate_phase g + 1\<rparr>"
    "gate_matches g (context_of_call call)" "call_allowed (gate_require_live g) call"
  using assms by (cases call; auto simp: gate_defs split: if_splits)+

lemma gate_step_refused: "gate_step g call = (False, g') \<Longrightarrow> g' = g"
  by (cases call) (auto simp: gate_defs split: if_splits)

lemma phase_of_call_less: "phase_of_call call < 4"
  by (cases call) simp_all

lemma gate_seen_step:
  assumes "gate_seen context require_live log g" "gate_step g call = (out, g')"
  shows "gate_seen context require_live (log @ [(call, out)]) g'"
proof (cases out)
  case True
  with assms(2) have "gate_step g call = (True, g')" by simp
  note step = gate_step_accepted [OF this]
  have "unat (gate_phase g) < 4" using step(1) phase_of_call_less by simp
  then have "unat (gate_phase g + 1) = unat (gate_phase g) + 1"
    by (simp add: unat_word_ariths)
  with step assms(1) phase_of_call_less [of call] True show ?thesis
    by (auto simp: gate_seen_def accepted_calls_def gate_matches_def)
next
  case False
  then show ?thesis
    using gate_step_refused assms by (auto simp: gate_seen_def accepted_calls_def)
qed

lemma gate_seen_run:
  assumes "run_steps gate_step (gate_new context require_live) calls = (log, g)"
  shows "gate_seen context require_live log g"
proof (rule run_steps_invariant [where I = "gate_seen context require_live", OF assms])
  show "gate_seen context require_live [] (gate_new context require_live)"
    by (simp add: gate_seen_def gate_new_def accepted_calls_def)
qed (rule gate_seen_step)

section \<open>Properties\<close>

text \<open>C28. In any sequence of calls on a new gate, the accepted calls are the phases network, TPM, payload
  and release in this order, each at most once, all for the gate's own 48-byte context, the TPM phase
  with live authorization where the gate requires it and the release within the deadline.\<close>

theorem gate_accepts_phases_in_order:
  assumes "length context = 48"
    and "run_steps gate_step (gate_new context require_live) calls = (log, g)"
    and "\<forall>call\<in>set calls. length (context_of_call call) = 48"
  shows "map phase_of_call (accepted_calls log) = [0..<unat (gate_phase g)] \<and> gate_phase g \<le> 4
    \<and> (\<forall>call\<in>set (accepted_calls log). context_of_call call = context \<and> call_allowed require_live call)"
proof -
  note seen = gate_seen_run [OF assms(2), unfolded gate_seen_def]
  have "map fst log = calls" using run_steps_calls [OF assms(2)] .
  then have "set (accepted_calls log) \<subseteq> set calls" by (force simp: accepted_calls_def)
  then have "context_of_call call = context" if "call \<in> set (accepted_calls log)" for call
    using seen that assms(1,3) by (auto simp: gate_matches_from_iff intro!: nth_equalityI)
  then show ?thesis using seen by (auto simp: word_le_nat_alt)
qed

theorem gate_accepts_phases_in_order_witness:
  "\<exists>log g. run_steps gate_step (gate_new (replicate 48 7) True)
     [Gate_Network (replicate 48 7), Gate_Tpm (replicate 48 7) False, Gate_Tpm (replicate 48 7) True,
      Gate_Payload (replicate 48 7), Gate_Release (replicate 48 7) True] = (log, g)
   \<and> map phase_of_call (accepted_calls log) = [0, 1, 2, 3]"
proof -
  let ?calls = "[Gate_Network (replicate 48 7), Gate_Tpm (replicate 48 7) False, Gate_Tpm (replicate 48 7) True,
      Gate_Payload (replicate 48 7), Gate_Release (replicate 48 7) True]"
  obtain log g where run: "run_steps gate_step (gate_new (replicate 48 7) True) ?calls = (log, g)"
    and "gate_phase g = 4"
    by (simp add: gate_new_def gate_defs)
  then show ?thesis
    using gate_accepts_phases_in_order [OF _ run] by (auto simp: upt_rec)
qed

text \<open>The release gate grants at most once in any sequence of calls from any state.\<close>

theorem gate_releases_at_most_once:
  "length (filter (\<lambda>(call, accepted). (\<exists>context within. call = Gate_Release context within) \<and> accepted)
     (fst (run_steps gate_step g calls))) \<le> 1"
  using gate.at_most_one_grant [of g calls]
  by (cases "run_steps gate_step g calls") (simp add: gate_grants_def)

end
