(* ===== verification/Engine.thy ===== *)
theory Engine
  imports Observation Policy_Session Release_Gate
begin

text \<open>
  Enrollment and network recovery of crates/leelo-engine/src/lib.rs. The operations run on an explicit
  state: the world \<open>op_world\<close> (clock, entropy, remote parties) and the report the caller passed in.
  Everything outside the repository is a field of \<open>platform\<close> or an argument: the cryptographic
  libraries, \<open>OsRng\<close>, \<open>Instant::now\<close>, the tokio runtime and its timer, and the two provider traits.

  The concurrent part is \<open>recover_network_observed\<close>. Each started leaf is a future that is first
  unpolled, then waiting for its provider. A schedule is a list of events: a first poll of a pending
  future, the answer of a provider, or the deadline timer. The loop consumes the schedule in order, so a
  statement over all schedules is a statement over all interleavings; an event that names no matching
  future is a spurious wake-up. When the schedule ends while futures are pending the operation has not
  returned (\<open>None\<close>).
\<close>

section \<open>Platform and state\<close>

definition OPERATION_BUDGET :: nat where [simp]: "OPERATION_BUDGET = 30 * 10 ^ 9"
definition MAX_NETWORK_OPERATIONS :: nat where [simp]: "MAX_NETWORK_OPERATIONS = 4"

record ('p, 'f, 'srv, 'cli, 'st, 'k, 'w) platform =
  prims :: primitives
  voprf :: "('p, 'f, 'srv, 'cli, 'st) voprf_lib"
  chacha :: "'st chacha20"
  cbor_lib :: minicbor
  eddsa :: "'k ed25519"
  os_rng :: "'w rng"
  clock :: "'w clock"
  inside_runtime :: "'w \<Rightarrow> bool"
  build_runtime :: "'w \<Rightarrow> bool \<times> 'w"
  timer_fires :: "nat \<Rightarrow> 'w \<Rightarrow> bool \<times> 'w"

datatype tpm_authorization = LocalMeasuredBoot | FreshSessionAuthorization

record unsealed_seed =
  us_seed :: bytes
  us_authorization :: tpm_authorization

type_synonym 'w network_provider =
  "network_binding \<Rightarrow> bytes \<Rightarrow> nat \<Rightarrow> 'w \<Rightarrow> (evaluation, network_failure) result \<times> 'w"

record 'w tpm_provider =
  supports_mode :: "mode \<Rightarrow> bool"
  tpm_seal :: "descriptor \<Rightarrow> bytes \<Rightarrow> 'w \<Rightarrow> (tpm_blob, engine_error) result \<times> 'w"
  tpm_unseal :: "authenticated_envelope \<Rightarrow> 'w \<Rightarrow> (unsealed_seed, engine_error) result \<times> 'w"

record prepared_enrollment =
  pe_envelope :: bytes
  pe_credential :: bytes

record unlock_result =
  ur_credential :: bytes
  ur_diagnostics :: "provider_failure list"

record 'w op =
  op_world :: 'w
  op_report :: operation_report

definition io_world :: "('w \<Rightarrow> 'a \<times> 'w) \<Rightarrow> ('w op, 'a, 'e) io" where
  "io_world f s = (case f (op_world s) of (x, w) \<Rightarrow> Some (Ok x, s\<lparr>op_world := w\<rparr>))"

definition io_attempt :: "('w \<Rightarrow> ('a, 'e) result \<times> 'w) \<Rightarrow> ('w op, 'a, 'e) io" where
  "io_attempt f s = (case f (op_world s) of (r, w) \<Rightarrow> Some (r, s\<lparr>op_world := w\<rparr>))"

definition io_report :: "(operation_report \<Rightarrow> operation_report) \<Rightarrow> ('w op, unit, 'e) io" where
  "io_report f s = Some (Ok (), s\<lparr>op_report := f (op_report s)\<rparr>)"

definition io_stage :: "'w clock \<Rightarrow> stage \<Rightarrow> ('w op, unit, 'e) io" where
  "io_stage clk stage s =
     (case enter_stage clk stage (op_report s) (op_world s) of (r, w) \<Rightarrow>
        Some (Ok (), s\<lparr>op_world := w, op_report := r\<rparr>))"

text \<open>\<open>report.provider(index, outcome, started.elapsed())\<close>.\<close>

definition io_provider :: "'w clock \<Rightarrow> nat \<Rightarrow> provider_outcome \<Rightarrow> nat \<Rightarrow> ('w op, unit, 'e) io" where
  "io_provider clk index outcome started =
     io_then (io_world clk) (\<lambda>now. io_report (report_provider index outcome (now - started)))"

section \<open>Helpers\<close>

definition runtime :: "('p, 'f, 'srv, 'cli, 'st, 'k, 'w) platform \<Rightarrow> ('w op, unit, engine_error) io" where
  "runtime M s =
     (if inside_runtime M (op_world s) then Some (Err Runtime, s)
      else io_then (io_world (build_runtime M)) (\<lambda>built. io_of (if built then Ok () else Err Runtime)) s)"

definition check_deadline :: "('p, 'f, 'srv, 'cli, 'st, 'k, 'w) platform \<Rightarrow> nat
      \<Rightarrow> ('w op, unit, engine_error) io" where
  "check_deadline M deadline =
     io_then (io_world (clock M)) (\<lambda>now. io_of (if now \<ge> deadline then Err (DeadlineExceeded []) else Ok ()))"

definition fresh_secret :: "('p, 'f, 'srv, 'cli, 'st, 'k, 'w) platform \<Rightarrow> ('w op, bytes, engine_error) io" where
  "fresh_secret M = io_map_err (\<lambda>_. Crypto) (io_attempt (random_bytes (os_rng M) 32))"

definition derive :: "('p, 'f, 'srv, 'cli, 'st, 'k, 'w) platform \<Rightarrow> bytes \<Rightarrow> bytes \<Rightarrow> bytes
      \<Rightarrow> (bytes, engine_error) result" where
  "derive M ikm context purpose = map_err (\<lambda>_. Crypto) (derive_secret_key (prims M) ikm context purpose)"

text \<open>\<open>network_key\<close> up to its await point, and from the answer on.\<close>

definition network_key_started :: "('p, 'f, 'srv, 'cli, 'st, 'k, 'w) platform \<Rightarrow> descriptor \<Rightarrow> network_binding
      \<Rightarrow> 'w \<Rightarrow> ('cli blind_state \<times> bytes, network_failure) result \<times> 'w" where
  "network_key_started M d b w =
     (case blind_with_entropy (voprf M) (chacha M) (os_rng M) (network_input d b) w of
        (r, w') \<Rightarrow> (map_err (\<lambda>_. Cryptography) r, w'))"

definition network_key_answered :: "('p, 'f, 'srv, 'cli, 'st, 'k, 'w) platform \<Rightarrow> network_binding \<Rightarrow> bytes
      \<Rightarrow> 'cli blind_state \<Rightarrow> (evaluation, network_failure) result \<Rightarrow> (bytes, network_failure) result" where
  "network_key_answered M b context state answer =
     and_then answer (\<lambda>evaluation.
     and_then (map_err (\<lambda>_. Configuration) (server_public_key_from_bytes (voprf M) (nb_public_key b))) (\<lambda>pk.
     and_then (map_err (\<lambda>_. InvalidProof) (blind_finalize (voprf M) state evaluation pk)) (\<lambda>output.
       map_err (\<lambda>_. Cryptography) (derive_wrap_key (prims M) output (leaf_context context (nb_node_id b))))))"

text \<open>\<open>network_key\<close> run alone under \<open>timeout_at\<close>: \<open>None\<close> when the timer fires first.\<close>

definition timed_network_key :: "('p, 'f, 'srv, 'cli, 'st, 'k, 'w) platform \<Rightarrow> 'w network_provider \<Rightarrow> descriptor
      \<Rightarrow> network_binding \<Rightarrow> bytes \<Rightarrow> nat \<Rightarrow> 'w \<Rightarrow> (bytes, network_failure) result option \<times> 'w" where
  "timed_network_key M net d b context deadline w =
     (case network_key_started M d b w of
        (Err e, w1) \<Rightarrow> (Some (Err e), w1)
      | (Ok (state, blinded), w1) \<Rightarrow>
          (case timer_fires M deadline w1 of
             (True, w2) \<Rightarrow> (None, w2)
           | (False, w2) \<Rightarrow>
               (case net b blinded deadline w2 of
                  (answer, w3) \<Rightarrow> (Some (network_key_answered M b context state answer), w3))))"

fun engine_policy_error :: "policy_error \<Rightarrow> engine_error" where
  "engine_policy_error FactorsNotSatisfied = InsufficientFactors []"
| "engine_policy_error (Sharing_error sss_error.InconsistentShares) = InconsistentShares"
| "engine_policy_error _ = Policy"

section \<open>Enrollment\<close>

text \<open>Leaving the loop body with an error after recording the outcome of the provider.\<close>

definition give_up :: "'w clock \<Rightarrow> nat \<Rightarrow> nat \<Rightarrow> provider_outcome \<Rightarrow> engine_error \<Rightarrow> ('w op, 'a, engine_error) io" where
  "give_up clk index started outcome err =
     io_then (io_provider clk index outcome started) (\<lambda>_. io_of (Err err))"

text \<open>Sealing a leaf share and opening it again as a check.\<close>

definition check_sealed :: "('p, 'f, 'srv, 'cli, 'st, 'k, 'w) platform \<Rightarrow> nat \<Rightarrow> nat \<Rightarrow> bytes \<Rightarrow> network_share
      \<Rightarrow> bytes \<Rightarrow> (wrapped_key, crypto_error) result \<Rightarrow> ('w op, wrapped_leaf, engine_error) io" where
  "check_sealed M index started context share key sealed =
     (case sealed of
        Err _ \<Rightarrow> give_up (clock M) index started (Failed Cryptography) Crypto
      | Ok v \<Rightarrow>
          (case open_key (prims M) key v (leaf_context context (fst share)) of
             Err _ \<Rightarrow> give_up (clock M) index started (Failed Authentication) Crypto
           | Ok checked \<Rightarrow>
               if checked \<noteq> snd share then give_up (clock M) index started (Failed Authentication) InconsistentShares
               else io_then (io_provider (clock M) index Authenticated started) (\<lambda>_.
                      io_of (Ok \<lparr>wl_node_id = fst share, wl_value = v\<rparr>))))"

definition seal_leaf :: "('p, 'f, 'srv, 'cli, 'st, 'k, 'w) platform \<Rightarrow> nat \<Rightarrow> nat \<Rightarrow> bytes \<Rightarrow> network_share
      \<Rightarrow> network_binding \<Rightarrow> (bytes, network_failure) result option \<Rightarrow> ('w op, wrapped_leaf, engine_error) io" where
  "seal_leaf M index started context share binding key_result =
     (case key_result of
        None \<Rightarrow> give_up (clock M) index started CanceledDeadline
          (DeadlineExceeded [\<lparr>pf_provider_id = nb_provider_id binding, pf_kind = Timeout\<rparr>])
      | Some (Err kind) \<Rightarrow> give_up (clock M) index started (Failed kind)
          (InsufficientFactors [\<lparr>pf_provider_id = nb_provider_id binding, pf_kind = kind\<rparr>])
      | Some (Ok key) \<Rightarrow>
          io_then (io_world (seal_key (prims M) (os_rng M) key (snd share) (leaf_context context (fst share))))
            (check_sealed M index started context share key))"

definition prepare_leaf :: "('p, 'f, 'srv, 'cli, 'st, 'k, 'w) platform \<Rightarrow> 'w network_provider \<Rightarrow> descriptor
      \<Rightarrow> bytes \<Rightarrow> nat \<Rightarrow> nat \<Rightarrow> network_share \<Rightarrow> network_binding \<Rightarrow> ('w op, wrapped_leaf, engine_error) io" where
  "prepare_leaf M net d context deadline index share binding =
     (if fst share \<noteq> nb_node_id binding then io_of (Err Policy)
      else io_then (io_world (clock M)) (\<lambda>started.
           io_then (io_world (timed_network_key M net d binding context deadline))
             (seal_leaf M index started context share binding)))"

fun prepare_leaves :: "('p, 'f, 'srv, 'cli, 'st, 'k, 'w) platform \<Rightarrow> 'w network_provider \<Rightarrow> descriptor
      \<Rightarrow> bytes \<Rightarrow> nat \<Rightarrow> nat \<Rightarrow> (network_share \<times> network_binding) list \<Rightarrow> wrapped_leaf list
      \<Rightarrow> ('w op, wrapped_leaf list, engine_error) io" where
  "prepare_leaves M net d context deadline index [] leaves = io_of (Ok leaves)"
| "prepare_leaves M net d context deadline index ((share, binding) # rest) leaves =
     io_then (prepare_leaf M net d context deadline index share binding) (\<lambda>leaf.
       prepare_leaves M net d context deadline (index + 1) rest (leaves @ [leaf]))"

definition prepare_inner :: "('p, 'f, 'srv, 'cli, 'st, 'k, 'w) platform \<Rightarrow> 'w network_provider
      \<Rightarrow> 'w tpm_provider \<Rightarrow> descriptor \<Rightarrow> 'k \<Rightarrow> ('w op, prepared_enrollment, engine_error) io" where
  "prepare_inner M net tpm d signer =
     io_then (io_world (clock M)) (\<lambda>now. let deadline = now + OPERATION_BUDGET in
     io_then (io_of (map_err Envelope (context_hash (prims M) (voprf M) (cbor_lib M) d))) (\<lambda>context.
     io_then (io_report (configure (policy_mode (d_policy d)) (d_networks d))) (\<lambda>_.
     if \<not> supports_mode tpm (policy_mode (d_policy d)) then io_of (Err UnsupportedMode) else
     io_then (runtime M) (\<lambda>_.
     io_then (fresh_secret M) (\<lambda>credential.
     io_then (fresh_secret M) (\<lambda>root.
     io_then (io_map_err (\<lambda>_. Sharing) (io_attempt (split (os_rng M) root 2 2))) (\<lambda>root_shares.
     io_then (fresh_secret M) (\<lambda>tpm_seed.
     io_then (io_stage (clock M) TpmSeal) (\<lambda>_.
     io_then (io_attempt (tpm_seal tpm d tpm_seed)) (\<lambda>blob.
     io_then (check_deadline M deadline) (\<lambda>_.
     io_then (io_stage (clock M) ShareGeneration) (\<lambda>_.
     let tpm_context = leaf_context context (policy_tpm_node_id (d_policy d)) in
     io_then (io_of (derive M tpm_seed tpm_context (ascii ''leelo/v1/tpm-wrap''))) (\<lambda>tpm_key.
     if length root_shares < 2 then (\<lambda>_. None) else
     io_then (io_map_err (\<lambda>_. Crypto) (io_attempt
        (seal_key (prims M) (os_rng M) tpm_key (share_value (root_shares ! 0)) tpm_context))) (\<lambda>tpm_leaf.
     io_then (io_map_err engine_policy_error (\<lambda>s.
        map_option (\<lambda>(r, w). (r, s\<lparr>op_world := w\<rparr>))
          (split_network (os_rng M) (d_policy d) (share_value (root_shares ! 1)) (op_world s)))) (\<lambda>network_shares.
     io_then (io_map_err engine_policy_error (io_run (recover_network (d_policy d) network_shares))) (\<lambda>reconstructed.
     if reconstructed \<noteq> share_value (root_shares ! 1) then io_of (Err InconsistentShares) else
     io_then (io_stage (clock M) Network) (\<lambda>_.
     io_then (prepare_leaves M net d context deadline 0 (zip network_shares (d_networks d))
        [\<lparr>wl_node_id = policy_tpm_node_id (d_policy d), wl_value = tpm_leaf\<rparr>]) (\<lambda>leaves.
     io_then (io_stage (clock M) PreparePayload) (\<lambda>_.
     io_then (io_of (derive M root context (ascii ''leelo/v1/luks-slot''))) (\<lambda>payload_key.
     io_then (io_map_err (\<lambda>_. Crypto) (io_attempt
        (seal_key (prims M) (os_rng M) payload_key credential context))) (\<lambda>payload.
     let body = \<lparr>eb_descriptor = d, eb_tpm = blob, eb_leaves = leaves, eb_payload = payload\<rparr> in
     io_then (io_of (map_err Envelope
        (sign (prims M) (voprf M) (cbor_lib M) (eddsa M) body signer))) (\<lambda>envelope.
     io_then (check_deadline M deadline) (\<lambda>_.
       io_of (Ok \<lparr>pe_envelope = envelope, pe_credential = credential\<rparr>))))))))))))))))))))))))"

text \<open>The frame both observed operations share: begin the report, run, and close it with the failure.\<close>

definition io_begin :: "'w clock \<Rightarrow> phase \<Rightarrow> ('w op, unit, 'e) io" where
  "io_begin clk p s =
     (case report_begin clk p (op_report s) (op_world s) of (r, w) \<Rightarrow>
        Some (Ok (), s\<lparr>op_world := w, op_report := r\<rparr>))"

definition io_finish :: "'w clock \<Rightarrow> nat \<Rightarrow> ('w op, 'a, engine_error) io \<Rightarrow> ('w op, 'a, engine_error) io" where
  "io_finish clk started m s =
     (case m s of
        None \<Rightarrow> None
      | Some (r, s') \<Rightarrow>
          (case finish clk started (case r of Ok _ \<Rightarrow> None | Err e \<Rightarrow> Some (from_error e)) (op_report s') (op_world s') of
             (report, w) \<Rightarrow> Some (r, s'\<lparr>op_world := w, op_report := report\<rparr>)))"

definition prepare_observed :: "('p, 'f, 'srv, 'cli, 'st, 'k, 'w) platform \<Rightarrow> 'w network_provider
      \<Rightarrow> 'w tpm_provider \<Rightarrow> descriptor \<Rightarrow> 'k \<Rightarrow> ('w op, prepared_enrollment, engine_error) io" where
  "prepare_observed M net tpm d signer =
     io_then (io_world (clock M)) (\<lambda>started.
     io_then (io_begin (clock M) Prepare) (\<lambda>_.
       io_finish (clock M) started (prepare_inner M net tpm d signer)))"

section \<open>Network recovery\<close>

datatype 'cli leaf_phase = Unpolled | Waiting "'cli blind_state" bytes

record 'cli leaf_future =
  lf_index :: nat
  lf_binding :: network_binding
  lf_phase :: "'cli leaf_phase"

record 'cli recovery =
  rec_remaining :: "(nat \<times> network_binding) list"
  rec_starts :: "nat option list"
  rec_pending :: "'cli leaf_future list"
  rec_recovered :: "network_share list"
  rec_available :: "u8 list"
  rec_failures :: "provider_failure list"

datatype schedule_event = Poll nat | Answer nat | Deadline_Fires

text \<open>\<open>recover_leaf\<close> after the provider answered.\<close>

definition recover_leaf_answered :: "('p, 'f, 'srv, 'cli, 'st, 'k, 'w) platform \<Rightarrow> authenticated_envelope
      \<Rightarrow> network_binding \<Rightarrow> 'cli blind_state \<Rightarrow> (evaluation, network_failure) result
      \<Rightarrow> (bytes, network_failure) result" where
  "recover_leaf_answered M env b state answer =
     and_then (network_key_answered M b (ae_context env) state answer) (\<lambda>key.
     and_then (ok_or Configuration
        (find (\<lambda>leaf. wl_node_id leaf = nb_node_id b) (eb_leaves (ae_body env)))) (\<lambda>wrapped.
       map_err (\<lambda>_. Authentication)
         (open_key (prims M) key (wl_value wrapped) (leaf_context (ae_context env) (nb_node_id b)))))"

text \<open>Pushing a leaf future takes \<open>&starts[index]\<close>, which panics out of range.\<close>

definition push_leaf :: "nat \<times> network_binding \<Rightarrow> 'cli recovery \<Rightarrow> 'cli recovery option" where
  "push_leaf = (\<lambda>(index, binding) st.
     if index \<ge> length (rec_starts st) then None
     else Some (st\<lparr>rec_pending := rec_pending st
            @ [\<lparr>lf_index = index, lf_binding = binding, lf_phase = Unpolled\<rparr>]\<rparr>))"

fun push_leaves :: "(nat \<times> network_binding) list \<Rightarrow> 'cli recovery \<Rightarrow> 'cli recovery option" where
  "push_leaves [] st = Some st"
| "push_leaves (leaf # rest) st = Option.bind (push_leaf leaf st) (push_leaves rest)"

definition cancel_observation :: "'w clock \<Rightarrow> provider_outcome \<Rightarrow> nat \<Rightarrow> nat option \<Rightarrow> ('w op, unit, 'e) io" where
  "cancel_observation clk outcome index start s =
     (if report_pending (op_report s) index
      then (case start of None \<Rightarrow> Some (Ok (), s) | Some t \<Rightarrow> io_provider clk index outcome t s)
      else Some (Ok (), s))"

fun cancel_observations_from :: "'w clock \<Rightarrow> provider_outcome \<Rightarrow> nat \<Rightarrow> nat option list
      \<Rightarrow> ('w op, unit, 'e) io" where
  "cancel_observations_from clk outcome index [] = io_of (Ok ())"
| "cancel_observations_from clk outcome index (start # starts) =
     io_then (cancel_observation clk outcome index start)
       (\<lambda>_. cancel_observations_from clk outcome (index + 1) starts)"

definition cancel_observations :: "'w clock \<Rightarrow> nat option list \<Rightarrow> provider_outcome \<Rightarrow> ('w op, unit, 'e) io" where
  "cancel_observations clk starts outcome = cancel_observations_from clk outcome 0 starts"

fun add_timeouts :: "u8 list \<Rightarrow> network_binding list \<Rightarrow> provider_failure list \<Rightarrow> provider_failure list" where
  "add_timeouts available [] failures = failures"
| "add_timeouts available (binding # rest) failures =
     add_timeouts available rest
       (if nb_node_id binding \<notin> set available
           \<and> \<not> list_ex (\<lambda>f. pf_provider_id f = nb_provider_id binding) failures
        then failures @ [\<lparr>pf_provider_id = nb_provider_id binding, pf_kind = Timeout\<rparr>]
        else failures)"

text \<open>The timer branch of the loop.\<close>

definition recovery_deadline :: "('p, 'f, 'srv, 'cli, 'st, 'k, 'w) platform \<Rightarrow> network_binding list
      \<Rightarrow> 'cli recovery \<Rightarrow> ('w op, 'a, engine_error) io" where
  "recovery_deadline M networks st =
     (let queued = length networks - length (rec_remaining st);
          failures = add_timeouts (rec_available st) (take queued networks) (rec_failures st)
      in io_then (cancel_observations (clock M) (rec_starts st) CanceledDeadline) (\<lambda>_.
           io_of (Err (DeadlineExceeded failures))))"

type_synonym network_recovery = "bytes \<times> provider_failure list \<times> u8 list"

text \<open>What the loop does with a finished leaf: record it, test the policy, and either return, fail or start
  the next leaf. \<open>Inl\<close> is the value the function returns, \<open>Inr\<close> the state the loop continues with.\<close>

definition observe_leaf :: "'w clock \<Rightarrow> network_binding list \<Rightarrow> nat option list \<Rightarrow> u8
      \<Rightarrow> (bytes, network_failure) result \<Rightarrow> ('w op, unit, 'e) io" where
  "observe_leaf clk networks starts i result =
     (let outcome = (case result of Ok _ \<Rightarrow> Authenticated | Err kind \<Rightarrow> Failed kind)
      in case position (\<lambda>b. nb_node_id b = i) networks of
           None \<Rightarrow> io_of (Ok ())
         | Some index \<Rightarrow>
             if index \<ge> length starts then (\<lambda>_. None)
             else case starts ! index of
                    None \<Rightarrow> io_report (report_provider index outcome 0)
                  | Some start \<Rightarrow> io_provider clk index outcome start)"

definition record_leaf :: "network_binding \<Rightarrow> (bytes, network_failure) result \<Rightarrow> 'cli recovery \<Rightarrow> 'cli recovery" where
  "record_leaf b result st =
     (case result of
        Ok share \<Rightarrow> st\<lparr>rec_recovered := rec_recovered st @ [(nb_node_id b, share)],
                       rec_available := rec_available st @ [nb_node_id b]\<rparr>
      | Err kind \<Rightarrow> st\<lparr>rec_failures := rec_failures st
                       @ [\<lparr>pf_provider_id = nb_provider_id b, pf_kind = kind\<rparr>]\<rparr>)"

definition start_next :: "'cli recovery \<Rightarrow> 'cli recovery option" where
  "start_next st =
     (case rec_remaining st of
        [] \<Rightarrow> Some st
      | leaf # rest \<Rightarrow> push_leaf leaf (st\<lparr>rec_remaining := rest\<rparr>))"

definition settle_leaf :: "('p, 'f, 'srv, 'cli, 'st, 'k, 'w) platform \<Rightarrow> descriptor \<Rightarrow> network_binding
      \<Rightarrow> (bytes, network_failure) result \<Rightarrow> 'cli recovery
      \<Rightarrow> ('w op, network_recovery + 'cli recovery, engine_error) io" where
  "settle_leaf M d b result st =
     io_then (observe_leaf (clock M) (d_networks d) (rec_starts st) (nb_node_id b) result) (\<lambda>_.
       let st = record_leaf b result st
       in case map_err engine_policy_error (network_satisfied (d_policy d) (rec_available st)) of
            Err e \<Rightarrow> io_then (cancel_observations (clock M) (rec_starts st) CanceledOperation) (\<lambda>_. io_of (Err e))
          | Ok True \<Rightarrow>
              io_then (cancel_observations (clock M) (rec_starts st) CanceledQuorum) (\<lambda>_.
              io_then (io_map_err engine_policy_error (io_run (recover_network (d_policy d) (rec_recovered st)))) (\<lambda>share.
                io_of (Ok (Inl (share, rec_failures st, rec_available st)))))
          | Ok False \<Rightarrow> io_run (map_option (\<lambda>st'. Ok (Inr st')) (start_next st)))"

definition drop_leaf :: "nat \<Rightarrow> 'cli recovery \<Rightarrow> 'cli recovery" where
  "drop_leaf index st = st\<lparr>rec_pending := filter (\<lambda>f. lf_index f \<noteq> index) (rec_pending st)\<rparr>"

text \<open>One event of the schedule. A first poll runs the leaf up to its await point; an answer completes it.\<close>

definition poll_leaf :: "('p, 'f, 'srv, 'cli, 'st, 'k, 'w) platform \<Rightarrow> descriptor \<Rightarrow> nat \<Rightarrow> network_binding
      \<Rightarrow> 'cli recovery \<Rightarrow> ('w op, network_recovery + 'cli recovery, engine_error) io" where
  "poll_leaf M d index b st =
     io_then (io_world (clock M)) (\<lambda>now. let st = st\<lparr>rec_starts := (rec_starts st)[index := Some now]\<rparr> in
     io_then (io_world (network_key_started M d b)) (\<lambda>started.
       case started of
         Err kind \<Rightarrow> settle_leaf M d b (Err kind) (drop_leaf index st)
       | Ok (state, blinded) \<Rightarrow>
           io_of (Ok (Inr (st\<lparr>rec_pending := map (\<lambda>f. if lf_index f = index
             then f\<lparr>lf_phase := Waiting state blinded\<rparr> else f) (rec_pending st)\<rparr>)))))"

definition answer_leaf :: "('p, 'f, 'srv, 'cli, 'st, 'k, 'w) platform \<Rightarrow> 'w network_provider
      \<Rightarrow> authenticated_envelope \<Rightarrow> nat \<Rightarrow> nat \<Rightarrow> network_binding \<Rightarrow> 'cli blind_state \<Rightarrow> bytes \<Rightarrow> 'cli recovery
      \<Rightarrow> ('w op, network_recovery + 'cli recovery, engine_error) io" where
  "answer_leaf M net env deadline index b state blinded st =
     io_then (io_world (net b blinded deadline)) (\<lambda>answer.
       settle_leaf M (eb_descriptor (ae_body env)) b (recover_leaf_answered M env b state answer) (drop_leaf index st))"

definition recovery_step :: "('p, 'f, 'srv, 'cli, 'st, 'k, 'w) platform \<Rightarrow> 'w network_provider
      \<Rightarrow> authenticated_envelope \<Rightarrow> nat \<Rightarrow> schedule_event \<Rightarrow> 'cli recovery
      \<Rightarrow> ('w op, network_recovery + 'cli recovery, engine_error) io" where
  "recovery_step M net env deadline event st =
     (case event of
        Deadline_Fires \<Rightarrow> recovery_deadline M (d_networks (eb_descriptor (ae_body env))) st
      | Poll index \<Rightarrow>
          (case find (\<lambda>f. lf_index f = index) (rec_pending st) of
             None \<Rightarrow> io_of (Ok (Inr st))
           | Some f \<Rightarrow>
               (case lf_phase f of
                  Unpolled \<Rightarrow> poll_leaf M (eb_descriptor (ae_body env)) index (lf_binding f) st
                | Waiting state blinded \<Rightarrow> io_of (Ok (Inr st))))
      | Answer index \<Rightarrow>
          (case find (\<lambda>f. lf_index f = index) (rec_pending st) of
             None \<Rightarrow> io_of (Ok (Inr st))
           | Some f \<Rightarrow>
               (case lf_phase f of
                  Unpolled \<Rightarrow> io_of (Ok (Inr st))
                | Waiting state blinded \<Rightarrow>
                    answer_leaf M net env deadline index (lf_binding f) state blinded st)))"

fun recovery_loop :: "('p, 'f, 'srv, 'cli, 'st, 'k, 'w) platform \<Rightarrow> 'w network_provider
      \<Rightarrow> authenticated_envelope \<Rightarrow> nat \<Rightarrow> schedule_event list \<Rightarrow> 'cli recovery
      \<Rightarrow> ('w op, network_recovery, engine_error) io" where
  "recovery_loop M net env deadline [] st =
     (if rec_pending st = [] then io_of (Err (InsufficientFactors (rec_failures st))) else (\<lambda>_. None))"
| "recovery_loop M net env deadline (event # schedule) st =
     (if rec_pending st = [] then io_of (Err (InsufficientFactors (rec_failures st)))
      else io_then (recovery_step M net env deadline event st) (\<lambda>next.
             case next of Inl out \<Rightarrow> io_of (Ok out)
             | Inr st' \<Rightarrow> recovery_loop M net env deadline schedule st'))"

definition recovery_start :: "network_binding list \<Rightarrow> 'cli recovery option" where
  "recovery_start networks =
     (let all = enumerate 0 networks
      in push_leaves (take MAX_NETWORK_OPERATIONS all)
           \<lparr>rec_remaining = drop MAX_NETWORK_OPERATIONS all,
            rec_starts = replicate MAX_PROVIDER_OBSERVATIONS None, rec_pending = [],
            rec_recovered = [], rec_available = [], rec_failures = []\<rparr>)"

definition recover_network_observed :: "('p, 'f, 'srv, 'cli, 'st, 'k, 'w) platform \<Rightarrow> 'w network_provider
      \<Rightarrow> authenticated_envelope \<Rightarrow> nat \<Rightarrow> schedule_event list \<Rightarrow> ('w op, network_recovery, engine_error) io" where
  "recover_network_observed M net env deadline schedule =
     (case recovery_start (d_networks (eb_descriptor (ae_body env))) of
        None \<Rightarrow> (\<lambda>_. None)
      | Some st \<Rightarrow> recovery_loop M net env deadline schedule st)"

end
