(* ===== verification/Leelo_Net.thy ===== *)
theory Leelo_Net
  imports Engine
begin

text \<open>
  The HTTPS client of crates/leelo-net/src/lib.rs: the configuration of endpoints and the evaluation of one
  binding, which is the network provider of the engine. reqwest and its URL, certificate and client types are
  fields of \<open>http_lib\<close>. A request runs under the timer for its deadline; \<open>None\<close> stands for the timer. The body of a
  response is the list of its chunks.
\<close>

section \<open>Errors and library\<close>

definition MAX_PROVIDERS :: nat where [simp]: "MAX_PROVIDERS = 32"
definition MAX_CA_BYTES :: nat where [simp]: "MAX_CA_BYTES = 64 * 1024"

datatype net_error =
    Net_Configuration | Net_DuplicateProvider | Net_UnknownProvider | Net_InvalidKeyId | Net_Transport | Net_Timeout
  | Net_Runtime | Net_RemoteFailure | Net_Protocol

text \<open>A reqwest error is whether it is a timeout.\<close>

record http_reply =
  hp_status :: u16
  hp_content_types :: "string option list"
  hp_encoded :: bool
  hp_content_length :: "u64 option"
  hp_chunks :: "(bytes, bool) result option list"

record ('u, 'cert, 'c, 'w) http_lib =
  url_parse :: "string \<Rightarrow> 'u option"
  url_scheme :: "'u \<Rightarrow> string"
  url_host_str :: "'u \<Rightarrow> string option"
  url_username :: "'u \<Rightarrow> string"
  url_password :: "'u \<Rightarrow> string option"
  url_query :: "'u \<Rightarrow> string option"
  url_fragment :: "'u \<Rightarrow> string option"
  url_path :: "'u \<Rightarrow> string"
  url_set_path :: "string \<Rightarrow> 'u \<Rightarrow> 'u"
  from_pem_bundle :: "bytes \<Rightarrow> 'cert list option"
  build_client :: "'cert list \<Rightarrow> 'c option"
  post :: "'c \<Rightarrow> 'u \<Rightarrow> string \<Rightarrow> bytes \<Rightarrow> nat \<Rightarrow> 'w \<Rightarrow> (http_reply, bool) result option \<times> 'w"

record endpoint =
  ep_provider_id :: bytes
  ep_url :: string
  ep_ca_pem :: bytes

record ('u, 'c) configured_endpoint =
  ce_url :: 'u
  ce_client :: 'c

section \<open>Configuration\<close>

definition endpoint_invalid :: "('u, 'cert, 'c, 'w) http_lib \<Rightarrow> endpoint \<Rightarrow> 'u \<Rightarrow> bool" where
  "endpoint_invalid L ep url \<longleftrightarrow>
     url_scheme L url \<noteq> ''https'' \<or> url_host_str L url = None \<or> url_username L url \<noteq> []
     \<or> url_password L url \<noteq> None \<or> url_query L url \<noteq> None \<or> url_fragment L url \<noteq> None \<or> url_path L url \<noteq> ''/''
     \<or> ep_ca_pem ep = [] \<or> length (ep_ca_pem ep) > MAX_CA_BYTES"

definition configure_endpoint :: "('u, 'cert, 'c, 'w) http_lib \<Rightarrow> endpoint \<Rightarrow> (('u, 'c) configured_endpoint, net_error) result" where
  "configure_endpoint L ep =
     (if length (ep_url ep) > 2048 then Err Net_Configuration
      else and_then (ok_or Net_Configuration (url_parse L (ep_url ep))) (\<lambda>url.
        if endpoint_invalid L ep url then Err Net_Configuration
        else and_then (ok_or Net_Configuration (from_pem_bundle L (ep_ca_pem ep))) (\<lambda>roots.
          if roots = [] then Err Net_Configuration
          else and_then (ok_or Net_Configuration (build_client L roots)) (\<lambda>client.
            Ok \<lparr>ce_url = url_set_path L ''/v1/evaluate'' url, ce_client = client\<rparr>))))"

primrec configure_endpoints :: "('u, 'cert, 'c, 'w) http_lib \<Rightarrow> endpoint list \<Rightarrow> (bytes \<rightharpoonup> ('u, 'c) configured_endpoint)
      \<Rightarrow> (bytes \<rightharpoonup> ('u, 'c) configured_endpoint, net_error) result" where
  "configure_endpoints L [] configured = Ok configured"
| "configure_endpoints L (ep # eps) configured =
     and_then (configure_endpoint L ep) (\<lambda>ce.
     if configured (ep_provider_id ep) \<noteq> None then Err Net_DuplicateProvider
     else configure_endpoints L eps (configured(ep_provider_id ep \<mapsto> ce)))"

definition https_new :: "('u, 'cert, 'c, 'w) http_lib \<Rightarrow> endpoint list \<Rightarrow> (bytes \<rightharpoonup> ('u, 'c) configured_endpoint, net_error) result" where
  "https_new L endpoints =
     (if endpoints = [] \<or> length endpoints > MAX_PROVIDERS then Err Net_Configuration
      else configure_endpoints L endpoints Map.empty)"

section \<open>One evaluation\<close>

definition transport_error :: "bool \<Rightarrow> net_error" where
  "transport_error is_timeout = (if is_timeout then Net_Timeout else Net_Transport)"

fun collect_chunks :: "(bytes, bool) result option list \<Rightarrow> bytes \<Rightarrow> (bytes, net_error) result" where
  "collect_chunks [] bs = Ok bs"
| "collect_chunks (Some (Ok chunk) # rest) bs =
     (if length bs + length chunk > RESPONSE_BYTES then Err Net_Protocol else collect_chunks rest (bs @ chunk))"
| "collect_chunks (Some (Err e) # rest) bs = Err (transport_error e)"
| "collect_chunks (None # rest) bs = Err Net_Timeout"

definition check_reply :: "http_reply \<Rightarrow> (evaluation, net_error) result" where
  "check_reply response =
     (if hp_status response \<noteq> 200 then Err Net_RemoteFailure
      else if (case hp_content_types response of [] \<Rightarrow> None | v # _ \<Rightarrow> v) \<noteq> Some CONTENT_TYPE
        \<or> length (hp_content_types response) \<noteq> 1 \<or> hp_encoded response
        \<or> (case hp_content_length response of None \<Rightarrow> False | Some n \<Rightarrow> n \<noteq> word_of_nat RESPONSE_BYTES)
      then Err Net_Protocol
      else and_then (collect_chunks (hp_chunks response) []) (\<lambda>bs.
        map_err (\<lambda>_. Net_Protocol) (decode_response bs)))"

definition net_exchange :: "primitives \<Rightarrow> ('u, 'cert, 'c, 'w) http_lib \<Rightarrow> (bytes \<rightharpoonup> ('u, 'c) configured_endpoint)
      \<Rightarrow> network_binding \<Rightarrow> bytes \<Rightarrow> nat \<Rightarrow> 'w \<Rightarrow> (evaluation, net_error) result \<times> 'w" where
  "net_exchange P L endpoints b blinded deadline w =
     (if nb_key_id b \<noteq> key_id P (nb_public_key b) then (Err Net_InvalidKeyId, w)
      else case endpoints (nb_provider_id b) of
        None \<Rightarrow> (Err Net_UnknownProvider, w)
      | Some ce \<Rightarrow>
          (case post L (ce_client ce) (ce_url ce) CONTENT_TYPE (encode_request (nb_key_id b) blinded) deadline w of
             (None, w') \<Rightarrow> (Err Net_Timeout, w')
           | (Some (Err e), w') \<Rightarrow> (Err (transport_error e), w')
           | (Some (Ok response), w') \<Rightarrow> (check_reply response, w')))"

text \<open>\<open>evaluate_before\<close>: at most five seconds from now.\<close>

definition evaluate_before :: "primitives \<Rightarrow> 'w clock \<Rightarrow> ('u, 'cert, 'c, 'w) http_lib \<Rightarrow> (bytes \<rightharpoonup> ('u, 'c) configured_endpoint)
      \<Rightarrow> network_binding \<Rightarrow> bytes \<Rightarrow> nat \<Rightarrow> 'w \<Rightarrow> (evaluation, net_error) result \<times> 'w" where
  "evaluate_before P clk L endpoints b blinded deadline w =
     (case clk w of (now, w') \<Rightarrow> net_exchange P L endpoints b blinded (min deadline (now + 5 * 10 ^ 9)) w')"

primrec network_failure_of :: "net_error \<Rightarrow> network_failure" where
  "network_failure_of Net_Configuration = Configuration"
| "network_failure_of Net_DuplicateProvider = Configuration"
| "network_failure_of Net_UnknownProvider = Configuration"
| "network_failure_of Net_InvalidKeyId = Configuration"
| "network_failure_of Net_Runtime = Configuration"
| "network_failure_of Net_Transport = Unavailable"
| "network_failure_of Net_Timeout = Timeout"
| "network_failure_of Net_RemoteFailure = RemoteRejected"
| "network_failure_of Net_Protocol = InvalidResponse"

definition https_network :: "primitives \<Rightarrow> 'w clock \<Rightarrow> ('u, 'cert, 'c, 'w) http_lib \<Rightarrow> (bytes \<rightharpoonup> ('u, 'c) configured_endpoint)
      \<Rightarrow> 'w network_provider" where
  "https_network P clk L endpoints b blinded deadline w =
     (case evaluate_before P clk L endpoints b blinded deadline w of (r, w') \<Rightarrow> (map_err network_failure_of r, w'))"

section \<open>What an accepted answer has passed\<close>

lemma collect_chunks_Ok:
  "collect_chunks chunks bs = Ok all \<Longrightarrow>
     \<exists>parts. chunks = map (\<lambda>part. Some (Ok part)) parts \<and> all = bs @ concat parts"
proof (induction chunks bs rule: collect_chunks.induct)
  case (2 chunk rest bs)
  then obtain parts where "rest = map (\<lambda>part. Some (Ok part)) parts" "all = (bs @ chunk) @ concat parts"
    by (auto split: if_splits)
  then show ?case by (intro exI [of _ "chunk # parts"]) simp
qed simp_all

lemma check_reply_Ok:
  assumes "check_reply response = Ok ev"
  shows "hp_status response = 200 \<and> (\<exists>parts. hp_chunks response = map (\<lambda>part. Some (Ok part)) parts
    \<and> decode_response (concat parts) = Ok ev)"
  using assms collect_chunks_Ok by (fastforce simp: check_reply_def result_simps split: if_splits)

lemma https_network_Ok:
  assumes "https_network P clk L endpoints b blinded deadline w = (Ok ev, w')"
  shows "nb_key_id b = key_id P (nb_public_key b) \<and> (\<exists>ce d w1 response.
    endpoints (nb_provider_id b) = Some ce
    \<and> post L (ce_client ce) (ce_url ce) CONTENT_TYPE (encode_request (nb_key_id b) blinded) d w1 = (Some (Ok response), w')
    \<and> check_reply response = Ok ev)"
  using assms
  by (auto simp: https_network_def evaluate_before_def net_exchange_def result_simps
      split: prod.splits if_splits option.splits result.splits)

text \<open>Every configured endpoint is the evaluation path of an HTTPS origin without credentials, and comes from one of
  the given endpoints.\<close>

lemma configure_endpoint_Ok:
  assumes "configure_endpoint L ep = Ok ce"
  shows "\<exists>url. url_parse L (ep_url ep) = Some url \<and> \<not> endpoint_invalid L ep url \<and> ce_url ce = url_set_path L ''/v1/evaluate'' url"
  using assms by (auto simp: configure_endpoint_def result_simps split: if_splits)

lemma configure_endpoints_Ok:
  assumes "configure_endpoints L eps configured = Ok endpoints"
  shows "distinct (map ep_provider_id eps) \<and> dom configured \<inter> set (map ep_provider_id eps) = {}
    \<and> dom endpoints = dom configured \<union> set (map ep_provider_id eps)
    \<and> (\<forall>i ce. endpoints i = Some ce \<longrightarrow> configured i = Some ce \<or> (\<exists>ep\<in>set eps. ep_provider_id ep = i \<and> configure_endpoint L ep = Ok ce))"
  using assms
proof (induction eps arbitrary: configured)
  case (Cons ep eps)
  then obtain ce where ce: "configure_endpoint L ep = Ok ce" "configured (ep_provider_id ep) = None"
    "configure_endpoints L eps (configured(ep_provider_id ep \<mapsto> ce)) = Ok endpoints"
    by (auto simp: result_simps split: if_splits)
  note IH = Cons.IH [OF ce(3)]
  have new: "ep_provider_id ep \<notin> set (map ep_provider_id eps)" "dom configured \<inter> set (map ep_provider_id eps) = {}"
    using IH unfolding dom_fun_upd by auto
  moreover have "dom endpoints = dom configured \<union> set (map ep_provider_id (ep # eps))"
    using IH unfolding dom_fun_upd by auto
  moreover have "configured i = Some c \<or> (\<exists>e\<in>set (ep # eps). ep_provider_id e = i \<and> configure_endpoint L e = Ok c)"
    if "endpoints i = Some c" for i c
    using IH [THEN conjunct2, THEN conjunct2, THEN conjunct2, rule_format, OF that] ce(1)
    by (cases "i = ep_provider_id ep") auto
  moreover have "distinct (map ep_provider_id eps)" using IH by blast
  ultimately show ?case using ce(2) by auto
qed simp

end
