(* ===== verification/Leelod_Metrics.thy ===== *)
theory Leelod_Metrics
  imports Leelo_Prelude
begin

text \<open>
  The counters of crates/leelod/src/metrics.rs. Every update is one atomic operation of the source, so a state
  is the record of all counters and an update is a function on it; \<open>raced\<close> in \<open>event\<close> says that another thread
  won the \<open>compare_exchange\<close>. The arrays have one cell per enum variant, and \<open>as usize\<close> is the position of the
  variant in \<open>ALL\<close>. Events are kept in the order in which they are handed to the emitter; the Prometheus text of
  \<open>snapshot\<close> is not modelled.
\<close>

section \<open>Labels\<close>

datatype role = Frontend | Worker

datatype admission_kind = Admitted | Capacity | Peer | PeerCheck

datatype server_stage = Connection | Tls | Http | Validation | Ipc | Worker_Stage | Crypto_Stage | ListenerRetry | Snapshot

datatype stage_outcome =
    Success | Cancelled | Timeout | Protocol | Headers | Body | Frame | WrongKey | InvalidPoint | Randomness | Crypto
  | Connect | Write | Read | Refused | Eof | Io | NotFound | Method | Unavailable | Other

datatype accept_class = Interrupted_Class | Resource_Class | Network_Class | Other_Class

datatype snapshot_kind = Served | Peer_Rejected | PeerCheck_Error | Capacity_Rejected | Write_Error | Timed_Out | Listener_Error

definition admission_all :: "admission_kind list" where
  "admission_all = [Admitted, Capacity, Peer, PeerCheck]"

definition stage_all :: "server_stage list" where
  "stage_all = [Connection, Tls, Http, Validation, Ipc, Worker_Stage, Crypto_Stage, ListenerRetry, Snapshot]"

definition outcome_all :: "stage_outcome list" where
  "outcome_all = [Success, Cancelled, Timeout, Protocol, Headers, Body, Frame, WrongKey, InvalidPoint, Randomness, Crypto,
     Connect, Write, Read, Refused, Eof, Io, NotFound, Method, Unavailable, Other]"

definition class_all :: "accept_class list" where
  "class_all = [Interrupted_Class, Resource_Class, Network_Class, Other_Class]"

definition snapshot_all :: "snapshot_kind list" where
  "snapshot_all = [Served, Peer_Rejected, PeerCheck_Error, Capacity_Rejected, Write_Error, Timed_Out, Listener_Error]"

primrec as_usize :: "'a list \<Rightarrow> 'a \<Rightarrow> nat" where
  "as_usize [] x = 0"
| "as_usize (y # ys) x = (if x = y then 0 else Suc (as_usize ys x))"

definition BUCKETS_NS :: "u64 list" where
  "BUCKETS_NS = [1000000, 5000000, 10000000, 25000000, 50000000, 100000000, 250000000, 500000000,
     1000000000, 2000000000, 5000000000, 10000000000]"

definition STATUSES :: "u16 list" where
  "STATUSES = [200, 400, 404, 405, 503, 0]"

section \<open>State\<close>

record service_event =
  se_role :: role
  se_name :: string
  se_stage :: string
  se_outcome :: string
  se_reason :: string

record metrics =
  mt_events :: "service_event list"
  mt_start :: nat
  mt_event_window :: u64
  mt_suppressed_events :: u64
  mt_role :: role
  mt_limit :: u64
  mt_admissions :: "u64 list"
  mt_inflight :: u64
  mt_completions :: "u64 list list"
  mt_durations :: "u64 list list"
  mt_duration_sum :: "u64 list"
  mt_statuses :: "u64 list"
  mt_accept_errors :: "u64 list"
  mt_retrying :: u64
  mt_snapshots :: "u64 list"

definition add :: "nat \<Rightarrow> u64 \<Rightarrow> u64 list \<Rightarrow> u64 list" where
  "add i amount counters = counters[i := saturating_add (counters ! i) amount]"

definition metrics_new :: "role \<Rightarrow> nat \<Rightarrow> nat \<Rightarrow> metrics" where
  "metrics_new role limit now =
     \<lparr>mt_events = [], mt_start = now, mt_event_window = 0, mt_suppressed_events = 0, mt_role = role,
      mt_limit = word_of_nat limit, mt_admissions = replicate (length admission_all) 0, mt_inflight = 0,
      mt_completions = replicate (length stage_all) (replicate (length outcome_all) 0),
      mt_durations = replicate (length stage_all) (replicate (length BUCKETS_NS + 1) 0),
      mt_duration_sum = replicate (length stage_all) 0, mt_statuses = replicate (length STATUSES) 0,
      mt_accept_errors = replicate (length class_all) 0, mt_retrying = 0,
      mt_snapshots = replicate (length snapshot_all) 0\<rparr>"

section \<open>Updates\<close>

definition admission :: "admission_kind \<Rightarrow> metrics \<Rightarrow> metrics" where
  "admission a m = m\<lparr>mt_admissions := add (as_usize admission_all a) 1 (mt_admissions m)\<rparr>"

text \<open>\<open>enter\<close>, and the destructor of the guard it returns.\<close>

definition enter :: "metrics \<Rightarrow> metrics" where
  "enter m = m\<lparr>mt_inflight := saturating_add (mt_inflight m) 1\<rparr>"

definition drop_inflight :: "metrics \<Rightarrow> metrics" where
  "drop_inflight m = m\<lparr>mt_inflight := mt_inflight m - 1\<rparr>"

definition http_status :: "u16 \<Rightarrow> metrics \<Rightarrow> metrics" where
  "http_status status m =
     (let index = (case position (\<lambda>candidate. candidate = status) STATUSES of
                     Some i \<Rightarrow> i | None \<Rightarrow> length STATUSES - 1)
      in m\<lparr>mt_statuses := add index 1 (mt_statuses m)\<rparr>)"

datatype error_kind = Interrupted | ConnectionAborted | ConnectionReset | WouldBlock | Other_Kind

record io_error =
  ie_kind :: error_kind
  ie_raw_os_error :: "int option"

text \<open>The errno values of Linux, in the order of the source: MFILE, NFILE, NOBUFS, NOMEM, and NETDOWN,
  NETUNREACH, HOSTUNREACH, HOSTDOWN, PROTO, NOPROTOOPT, OPNOTSUPP.\<close>

definition resource_errnos :: "int list" where
  "resource_errnos = [24, 23, 105, 12]"

definition network_errnos :: "int list" where
  "network_errnos = [100, 101, 113, 112, 71, 92, 95]"

definition raw_in :: "int list \<Rightarrow> io_error \<Rightarrow> bool" where
  "raw_in errnos e = (case ie_raw_os_error e of None \<Rightarrow> False | Some n \<Rightarrow> n \<in> set errnos)"

definition accept_class_of :: "io_error \<Rightarrow> accept_class" where
  "accept_class_of e =
     (if ie_kind e = Interrupted then Interrupted_Class
      else if raw_in resource_errnos e then Resource_Class
      else if ie_kind e \<in> {ConnectionAborted, ConnectionReset, WouldBlock} \<or> raw_in network_errnos e then Network_Class
      else Other_Class)"

definition accept_error :: "io_error \<Rightarrow> metrics \<Rightarrow> metrics" where
  "accept_error e m = m\<lparr>mt_accept_errors := add (as_usize class_all (accept_class_of e)) 1 (mt_accept_errors m)\<rparr>"

definition snapshot_outcome :: "snapshot_kind \<Rightarrow> metrics \<Rightarrow> metrics" where
  "snapshot_outcome o' m = m\<lparr>mt_snapshots := add (as_usize snapshot_all o') 1 (mt_snapshots m)\<rparr>"

definition lifecycle :: "string \<Rightarrow> string \<Rightarrow> string \<Rightarrow> string \<Rightarrow> metrics \<Rightarrow> metrics" where
  "lifecycle name stage outcome reason m =
     m\<lparr>mt_events := mt_events m @ [\<lparr>se_role = mt_role m, se_name = name, se_stage = stage, se_outcome = outcome, se_reason = reason\<rparr>]\<rparr>"

text \<open>Instants are nanoseconds.\<close>

definition event :: "bool \<Rightarrow> nat \<Rightarrow> string \<Rightarrow> string \<Rightarrow> string \<Rightarrow> string \<Rightarrow> metrics \<Rightarrow> metrics" where
  "event raced now name stage outcome reason m =
     (let window = word_of_nat ((now - mt_start m) div 10 ^ 9) div 5 + 1
      in if mt_event_window m = window \<or> raced
         then m\<lparr>mt_suppressed_events := saturating_add (mt_suppressed_events m) 1\<rparr>
         else lifecycle name stage outcome reason (m\<lparr>mt_event_window := window\<rparr>))"

definition bucket_of :: "u64 \<Rightarrow> nat" where
  "bucket_of ns = (case position (\<lambda>bound. ns \<le> bound) BUCKETS_NS of Some i \<Rightarrow> i | None \<Rightarrow> length BUCKETS_NS)"

definition observe :: "server_stage \<Rightarrow> stage_outcome \<Rightarrow> u64 \<Rightarrow> metrics \<Rightarrow> metrics" where
  "observe stage outcome ns m =
     (let s = as_usize stage_all stage
      in m\<lparr>mt_completions := (mt_completions m)[s := add (as_usize outcome_all outcome) 1 (mt_completions m ! s)],
           mt_durations := (mt_durations m)[s := add (bucket_of ns) 1 (mt_durations m ! s)],
           mt_duration_sum := add s ns (mt_duration_sum m)\<rparr>)"

text \<open>\<open>Timer::record\<close>: the elapsed nanoseconds, at most \<open>u64::MAX\<close>.\<close>

definition timer_record :: "server_stage \<Rightarrow> nat \<Rightarrow> nat \<Rightarrow> stage_outcome \<Rightarrow> metrics \<Rightarrow> metrics" where
  "timer_record stage start now outcome m =
     observe stage outcome (word_of_nat (min (now - start) (2 ^ 64 - 1))) m"

definition set_retrying :: "bool \<Rightarrow> metrics \<Rightarrow> metrics" where
  "set_retrying b m = m\<lparr>mt_retrying := (if b then 1 else 0)\<rparr>"

section \<open>Shape of the counters\<close>

definition wf_metrics :: "metrics \<Rightarrow> bool" where
  "wf_metrics m \<longleftrightarrow>
     length (mt_admissions m) = length admission_all
     \<and> length (mt_completions m) = length stage_all \<and> list_all (\<lambda>row. length row = length outcome_all) (mt_completions m)
     \<and> length (mt_durations m) = length stage_all \<and> list_all (\<lambda>row. length row = length BUCKETS_NS + 1) (mt_durations m)
     \<and> length (mt_duration_sum m) = length stage_all \<and> length (mt_statuses m) = length STATUSES
     \<and> length (mt_accept_errors m) = length class_all \<and> length (mt_snapshots m) = length snapshot_all"

lemma length_add [simp]: "length (add i n xs) = length xs"
  by (simp add: add_def)

lemma as_usize_less: "x \<in> set xs \<Longrightarrow> as_usize xs x < length xs"
  by (induction xs) auto

lemma as_usize_inject: "x \<in> set xs \<Longrightarrow> as_usize xs x = as_usize xs y \<longleftrightarrow> x = y"
  by (induction xs) auto

text \<open>Every variant has a cell of its own, so no counter access is out of range.\<close>

lemma variants_listed [simp]:
  "a \<in> set admission_all" "s \<in> set stage_all" "o' \<in> set outcome_all" "c \<in> set class_all" "p \<in> set snapshot_all"
      apply (cases a; simp add: admission_all_def)
     apply (cases s; simp add: stage_all_def)
    apply (cases o'; simp add: outcome_all_def)
   apply (cases c; simp add: class_all_def)
  apply (cases p; simp add: snapshot_all_def)
  done

lemma bucket_of_less: "bucket_of ns < length BUCKETS_NS + 1"
  by (auto simp: bucket_of_def dest: position_SomeD split: option.splits)

lemma list_all_update: "list_all P xs \<Longrightarrow> (i < length xs \<Longrightarrow> P x) \<Longrightarrow> list_all P (xs[i := x])"
  by (cases "i < length xs") (auto simp: list_all_iff list_update_beyond dest!: subsetD [OF set_update_subset_insert])

lemma wf_metrics_new: "wf_metrics (metrics_new role limit now)"
  by (simp add: wf_metrics_def metrics_new_def list_all_iff)

lemma wf_observe: "wf_metrics m \<Longrightarrow> wf_metrics (observe s o' ns m)"
  by (auto simp: wf_metrics_def observe_def Let_def intro!: list_all_update) (simp_all add: list_all_length)

lemma wf_updates [simp]:
  "wf_metrics (admission a m) = wf_metrics m" "wf_metrics (enter m) = wf_metrics m"
  "wf_metrics (drop_inflight m) = wf_metrics m" "wf_metrics (http_status st m) = wf_metrics m"
  "wf_metrics (accept_error e m) = wf_metrics m" "wf_metrics (snapshot_outcome sn m) = wf_metrics m"
  "wf_metrics (lifecycle n s o' r m) = wf_metrics m" "wf_metrics (set_retrying b m) = wf_metrics m"
  by (simp_all add: wf_metrics_def admission_def enter_def drop_inflight_def http_status_def accept_error_def
      snapshot_outcome_def lifecycle_def set_retrying_def Let_def)

lemma wf_event [simp]: "wf_metrics (event raced now n s o' r m) = wf_metrics m"
  by (auto simp: event_def Let_def) (simp_all add: wf_metrics_def)

section \<open>What an update counts\<close>

definition completed :: "server_stage \<Rightarrow> stage_outcome \<Rightarrow> metrics \<Rightarrow> u64" where
  "completed s o' m = mt_completions m ! as_usize stage_all s ! as_usize outcome_all o'"

lemma completed_observe:
  assumes "wf_metrics m"
  shows "completed s o' (observe t p ns m) =
    (if s = t \<and> o' = p then saturating_add (completed s o' m) 1 else completed s o' m)"
  using assms as_usize_less [of t stage_all] as_usize_less [of p outcome_all] as_usize_inject [of s stage_all t]
    as_usize_inject [of o' outcome_all p]
  by (auto simp: completed_def observe_def Let_def add_def wf_metrics_def list_all_length nth_list_update)

lemma completed_updates [simp]:
  "completed s o' (admission a m) = completed s o' m" "completed s o' (enter m) = completed s o' m"
  "completed s o' (drop_inflight m) = completed s o' m" "completed s o' (http_status st m) = completed s o' m"
  "completed s o' (accept_error e m) = completed s o' m" "completed s o' (lifecycle n t q r m) = completed s o' m"
  "completed s o' (set_retrying b m) = completed s o' m"
  by (simp_all add: completed_def admission_def enter_def drop_inflight_def http_status_def accept_error_def
      lifecycle_def set_retrying_def Let_def)

lemma completed_event [simp]: "completed s o' (event raced now n t q r m) = completed s o' m"
  by (auto simp: event_def Let_def) (simp_all add: completed_def)

lemma inflight_updates [simp]:
  "mt_inflight (admission a m) = mt_inflight m" "mt_inflight (observe t p ns m) = mt_inflight m"
  "mt_inflight (accept_error e m) = mt_inflight m" "mt_inflight (lifecycle n s o' r m) = mt_inflight m"
  "mt_inflight (set_retrying b m) = mt_inflight m"
  by (simp_all add: admission_def observe_def accept_error_def lifecycle_def set_retrying_def Let_def)

lemma inflight_event [simp]: "mt_inflight (event raced now n s o' r m) = mt_inflight m"
  by (simp add: event_def Let_def)

end
