(* ===== verification/Leelod_Service.thy ===== *)
theory Leelod_Service
  imports Leelod_Metrics Wire "HOL-Library.Sublist"
begin

text \<open>
  What both processes of crates/leelod share: the state of a task (the world and the counters), the timers of
  metrics.rs as tasks use them, awaiting under a deadline, and the listener loop of service.rs.
  Sockets, clock, entropy and the tokio timer are fields of \<open>service_env\<close>. A call that is awaited under
  \<open>tokio::time::timeout\<close> gives \<open>Elapsed\<close> when the timer fires first. The results of the successive \<open>accept\<close> calls
  are a list, and a list that ends stands for a listener that waits.
\<close>

section \<open>Environment and state\<close>

datatype 'a awaited = Ready 'a | Elapsed

text \<open>\<open>sv_read stream n\<close> is \<open>stream.take(n).read_to_end(..)\<close>, \<open>sv_raced\<close> says whether another thread won the
  \<open>compare_exchange\<close> of \<open>event\<close>.\<close>

record ('s, 'w) service_env =
  sv_now :: "'w \<Rightarrow> nat \<times> 'w"
  sv_raced :: "'w \<Rightarrow> bool \<times> 'w"
  sv_sleep :: "nat \<Rightarrow> 'w \<Rightarrow> 'w"
  sv_fill :: "'w rng"
  sv_connect :: "string \<Rightarrow> 'w \<Rightarrow> ('s, io_error) result awaited \<times> 'w"
  sv_read :: "'s \<Rightarrow> nat \<Rightarrow> 'w \<Rightarrow> (bytes, io_error) result awaited \<times> 'w"
  sv_write :: "'s \<Rightarrow> bytes \<Rightarrow> 'w \<Rightarrow> (unit, io_error) result awaited \<times> 'w"
  sv_shutdown :: "'s \<Rightarrow> 'w \<Rightarrow> (unit, io_error) result awaited \<times> 'w"

record 'w served =
  sd_world :: 'w
  sd_metrics :: metrics

text \<open>How a future under a deadline ends early: with an outcome of its own, or by its timer.\<close>

datatype task_exit = Returned stage_outcome | Deadline

definition on_service :: "('w \<Rightarrow> 'a \<times> 'w) \<Rightarrow> ('w served, 'a, 'e) io" where
  "on_service f s = (case f (sd_world s) of (x, w) \<Rightarrow> Some (Ok x, s\<lparr>sd_world := w\<rparr>))"

definition count :: "(metrics \<Rightarrow> metrics) \<Rightarrow> ('w served, unit, 'e) io" where
  "count f s = Some (Ok (), s\<lparr>sd_metrics := f (sd_metrics s)\<rparr>)"

definition emit_event :: "('s, 'w) service_env \<Rightarrow> string \<Rightarrow> string \<Rightarrow> string \<Rightarrow> string \<Rightarrow> ('w served, unit, 'e) io" where
  "emit_event E name stage outcome reason =
     io_then (on_service (sv_now E)) (\<lambda>now.
     io_then (on_service (sv_raced E)) (\<lambda>raced. count (event raced now name stage outcome reason)))"

text \<open>\<open>Metrics::stage\<close> reads the clock; \<open>Timer::finish\<close> records an outcome, and a timer that is dropped on the way
  out of a function records a cancellation.\<close>

definition timer_finish :: "('s, 'w) service_env \<Rightarrow> server_stage \<Rightarrow> nat \<Rightarrow> stage_outcome \<Rightarrow> ('w served, unit, 'e) io" where
  "timer_finish E stage start outcome = io_then (on_service (sv_now E)) (\<lambda>now. count (timer_record stage start now outcome))"

definition dropping :: "('s, 'w) service_env \<Rightarrow> server_stage \<Rightarrow> nat \<Rightarrow> ('w served, 'a, 'e) io \<Rightarrow> ('w served, 'a, 'e) io" where
  "dropping E stage start m s =
     (case m s of
        Some (Err e, s') \<Rightarrow> io_then (timer_finish E stage start Cancelled) (\<lambda>_. io_of (Err e)) s'
      | r \<Rightarrow> r)"

definition await :: "stage_outcome \<Rightarrow> ('w \<Rightarrow> ('a, io_error) result awaited \<times> 'w) \<Rightarrow> ('w served, 'a, task_exit) io" where
  "await outcome f s =
     (case f (sd_world s) of
        (Ready (Ok x), w) \<Rightarrow> Some (Ok x, s\<lparr>sd_world := w\<rparr>)
      | (Ready (Err e), w) \<Rightarrow> Some (Err (Returned outcome), s\<lparr>sd_world := w\<rparr>)
      | (Elapsed, w) \<Rightarrow> Some (Err Deadline, s\<lparr>sd_world := w\<rparr>))"

section \<open>The listener\<close>

definition FIRST_RETRY :: nat where [simp]: "FIRST_RETRY = 50 * 10 ^ 6"
definition MAX_RETRY :: nat where [simp]: "MAX_RETRY = 10 ^ 9"

definition temporary :: "io_error \<Rightarrow> bool" where
  "temporary e \<longleftrightarrow>
     (if ie_kind e \<in> {Interrupted, ConnectionAborted, ConnectionReset, WouldBlock} then True
      else case ie_raw_os_error e of
        None \<Rightarrow> False
      | Some number \<Rightarrow> number \<in> set (resource_errnos @ network_errnos))"

text \<open>\<open>Metrics::retry\<close>, and \<open>Retry::finish\<close> with the destructor that follows it.\<close>

definition retry_begin :: "('s, 'w) service_env \<Rightarrow> ('w served, nat, 'e) io" where
  "retry_begin E = io_then (count (set_retrying True)) (\<lambda>_. on_service (sv_now E))"

definition retry_finish :: "('s, 'w) service_env \<Rightarrow> nat \<Rightarrow> stage_outcome \<Rightarrow> ('w served, unit, 'e) io" where
  "retry_finish E start outcome =
     io_then (timer_finish E ListenerRetry start outcome) (\<lambda>_. count (set_retrying False))"

fun accept_loop :: "('s, 'w) service_env \<Rightarrow> ('c, io_error) result list \<Rightarrow> nat \<Rightarrow> nat option \<Rightarrow> ('w served, 'c, io_error) io" where
  "accept_loop E [] delay retrying = (\<lambda>_. None)"
| "accept_loop E (Ok connection # rest) delay retrying =
     (case retrying of
        None \<Rightarrow> io_of (Ok connection)
      | Some start \<Rightarrow>
          io_then (retry_finish E start Success) (\<lambda>_.
          io_then (emit_event E ''listener_recovered'' ''listener'' ''success'' ''none'') (\<lambda>_.
            io_of (Ok connection))))"
| "accept_loop E (Err e # rest) delay retrying =
     (if temporary e then
        io_then (count (accept_error e)) (\<lambda>_.
        io_then (case retrying of
            Some start \<Rightarrow> io_of (Ok start)
          | None \<Rightarrow>
              io_then (emit_event E ''listener_impaired'' ''listener'' ''failure'' ''temporary_accept'') (\<lambda>_. retry_begin E)) (\<lambda>start.
        io_then (on_service (\<lambda>w. ((), sv_sleep E delay w))) (\<lambda>_.
          accept_loop E rest (min (delay * 2) MAX_RETRY) (Some start))))
      else
        io_then (count (accept_error e)) (\<lambda>_.
        io_then (case retrying of None \<Rightarrow> io_of (Ok ()) | Some start \<Rightarrow> retry_finish E start Io) (\<lambda>_.
        io_then (emit_event E ''listener_failed'' ''listener'' ''failure'' ''fatal_accept'') (\<lambda>_.
          io_of (Err e)))))"

definition accept_observed :: "('s, 'w) service_env \<Rightarrow> ('c, io_error) result list \<Rightarrow> ('w served, 'c, io_error) io" where
  "accept_observed E attempts = accept_loop E attempts FIRST_RETRY None"

section \<open>What a step keeps\<close>

lemma service_keeps_world [kept]:
  "(\<And>w. H (snd (f w)) = H w) \<Longrightarrow> keeps (\<lambda>s. H (sd_world s)) (on_service f)"
  "keeps (\<lambda>s. H (sd_world s)) (count u)"
  "(\<And>w. H (snd (g w)) = H w) \<Longrightarrow> keeps (\<lambda>s. H (sd_world s)) (await q g)"
  by (auto simp: keeps_def on_service_def count_def await_def split: prod.splits awaited.splits result.splits)
    (metis snd_conv)+

lemma service_keeps_metrics [kept]:
  "keeps (\<lambda>s. G (sd_metrics s)) (on_service f)"
  "(\<And>m. G (u m) = G m) \<Longrightarrow> keeps (\<lambda>s. G (sd_metrics s)) (count u)"
  "keeps (\<lambda>s. G (sd_metrics s)) (await q g)"
  by (auto simp: keeps_def on_service_def count_def await_def split: prod.splits awaited.splits result.splits)

lemma service_returns [returns]:
  "io_returns (on_service f) s" "io_returns (count u) s" "io_returns (await q g) s"
  by (auto simp: io_returns_def on_service_def count_def await_def split: prod.splits awaited.splits result.splits)

lemma timer_finish_returns [returns]: "io_returns (timer_finish E stage start q) s"
  unfolding timer_finish_def by (intro returns)

lemma emit_event_returns [returns]: "io_returns (emit_event E n st q r) s"
  unfolding emit_event_def by (intro returns)

lemma dropping_returns [returns]:
  fixes m :: "('w served, 'a, 'b) io"
  shows "io_returns m s \<Longrightarrow> io_returns (dropping E stage start m) s"
proof -
  have "io_returns (io_then (timer_finish E stage start Cancelled) (\<lambda>_. io_of (Err e))) s'" for e :: 'b and s'
    by (intro returns)
  then show "io_returns m s \<Longrightarrow> ?thesis"
    by (auto simp: io_returns_def dropping_def split: option.splits prod.splits result.splits)
qed

lemma dropping_keeps [kept]:
  fixes m :: "('w served, 'a, 'e) io"
  assumes "keeps H m" "keeps H (timer_finish E stage start Cancelled :: ('w served, unit, 'e) io)"
  shows "keeps H (dropping E stage start m)"
proof -
  have "keeps H (io_then (timer_finish E stage start Cancelled) (\<lambda>_. io_of (Err e)) :: ('w served, 'a, 'e) io)" for e
    by (intro kept assms)
  then show ?thesis
    using assms(1) by (auto simp: keeps_def dropping_def split: option.splits prod.splits result.splits)
qed

section \<open>Retries\<close>

lemma temporary_iff_class: "temporary e \<longleftrightarrow> accept_class_of e \<noteq> Other_Class"
  by (cases "ie_kind e"; cases "ie_raw_os_error e") (auto simp: temporary_def accept_class_of_def raw_in_def)

text \<open>The delay before retry number \<open>n\<close>.\<close>

definition retry_delay :: "nat \<Rightarrow> nat" where
  "retry_delay n = min (FIRST_RETRY * 2 ^ n) MAX_RETRY"

lemma retry_delay_Suc: "retry_delay (Suc n) = min (retry_delay n * 2) MAX_RETRY"
  by (auto simp: retry_delay_def min_def)

text \<open>An observer \<open>slept\<close> of the world that sees the sleeps and nothing else that the loop does.\<close>

definition sleeps_logged :: "('s, 'w) service_env \<Rightarrow> ('w \<Rightarrow> nat list) \<Rightarrow> bool" where
  "sleeps_logged E slept \<longleftrightarrow>
     (\<forall>d w. slept (sv_sleep E d w) = slept w @ [d])
     \<and> (\<forall>w. slept (snd (sv_now E w)) = slept w) \<and> (\<forall>w. slept (snd (sv_raced E w)) = slept w)"

text \<open>\<open>steps slept g m\<close>: the operation returns a value, and \<open>g\<close> says what happens to the log of sleeps and to the
  retry gauge.\<close>

definition steps :: "('w \<Rightarrow> nat list) \<Rightarrow> (nat list \<Rightarrow> u64 \<Rightarrow> nat list \<times> u64) \<Rightarrow> ('w served, 'a, 'e) io \<Rightarrow> bool" where
  "steps slept g m \<longleftrightarrow> (\<forall>s. \<exists>x s'. m s = Some (Ok x, s')
     \<and> (slept (sd_world s'), mt_retrying (sd_metrics s')) = g (slept (sd_world s)) (mt_retrying (sd_metrics s)))"

lemma steps_then:
  assumes "steps slept g m" "\<And>x. steps slept h (f x)"
  shows "steps slept (\<lambda>l r. case g l r of (l', r') \<Rightarrow> h l' r') (io_then m f)"
  unfolding steps_def
proof
  fix s
  obtain x s1 where 1: "m s = Some (Ok x, s1)"
    "g (slept (sd_world s)) (mt_retrying (sd_metrics s)) = (slept (sd_world s1), mt_retrying (sd_metrics s1))"
    using assms(1) unfolding steps_def by metis
  obtain y s2 where 2: "f x s1 = Some (Ok y, s2)"
    "(slept (sd_world s2), mt_retrying (sd_metrics s2)) = h (slept (sd_world s1)) (mt_retrying (sd_metrics s1))"
    using assms(2) unfolding steps_def by metis
  show "\<exists>x s'. io_then m f s = Some (Ok x, s') \<and> (slept (sd_world s'), mt_retrying (sd_metrics s'))
      = (case g (slept (sd_world s)) (mt_retrying (sd_metrics s)) of (l', r') \<Rightarrow> h l' r')"
    using 1 2 by (auto simp: io_simps)
qed

lemma steps_quiet: "steps slept Pair m \<Longrightarrow> (\<And>x. steps slept h (f x)) \<Longrightarrow> steps slept h (io_then m f)"
  using steps_then [of slept Pair m h f] by simp

lemma steps_on_service: "(\<And>w. slept (snd (f w)) = slept w) \<Longrightarrow> steps slept Pair (on_service f)"
  by (auto simp: steps_def on_service_def split: prod.splits) (metis snd_conv)

lemma steps_count: "(\<And>m. mt_retrying (f m) = h (mt_retrying m)) \<Longrightarrow> steps slept (\<lambda>l r. (l, h r)) (count f)"
  by (simp add: steps_def count_def)

lemma steps_of: "steps slept Pair (io_of (Ok x))"
  by (simp add: steps_def io_of_def)

lemma retrying_updates [simp]:
  "mt_retrying (accept_error e m) = mt_retrying m" "mt_retrying (timer_record st start now q m) = mt_retrying m"
  "mt_retrying (event raced now n st' q' r m) = mt_retrying m" "mt_retrying (set_retrying b m) = (if b then 1 else 0)"
  by (auto simp: accept_error_def observe_def timer_record_def event_def lifecycle_def set_retrying_def Let_def)

lemma logged_steps:
  assumes "sleeps_logged E slept"
  shows "steps slept Pair (emit_event E n st q r)" "steps slept Pair (timer_finish E stage start q')"
    "steps slept (\<lambda>l r. (l, 1)) (retry_begin E)" "steps slept (\<lambda>l r. (l, 0)) (retry_finish E start q')"
    "steps slept (\<lambda>l r. (l @ [d], r)) (on_service (\<lambda>w. ((), sv_sleep E d w)))"
    "steps slept Pair (count (accept_error e))"
proof -
  have now: "steps slept Pair (on_service (sv_now E))" and raced: "steps slept Pair (on_service (sv_raced E))"
    using assms by (auto simp: sleeps_logged_def intro!: steps_on_service)
  have kept: "(\<And>m. mt_retrying (f m) = mt_retrying m) \<Longrightarrow> steps slept Pair (count f)" for f
    using steps_count [of f "\<lambda>r. r"] by simp
  have timer: "steps slept Pair (timer_finish E stage start q')" for stage
    unfolding timer_finish_def by (rule steps_quiet [OF now kept]) simp
  then show "steps slept Pair (timer_finish E stage start q')" .
  show "steps slept Pair (emit_event E n st q r)"
    unfolding emit_event_def by (rule steps_quiet [OF now steps_quiet [OF raced kept]]) simp
  show "steps slept (\<lambda>l r. (l, 1)) (retry_begin E)"
    unfolding retry_begin_def using steps_then [OF steps_count [of "set_retrying True" "\<lambda>_. 1"] now] by simp
  show "steps slept (\<lambda>l r. (l, 0)) (retry_finish E start q')"
    unfolding retry_finish_def using steps_quiet [OF timer steps_count [of "set_retrying False" "\<lambda>_. 0"]] by simp
  show "steps slept (\<lambda>l r. (l @ [d], r)) (on_service (\<lambda>w. ((), sv_sleep E d w)))"
    using assms by (auto simp: steps_def on_service_def sleeps_logged_def)
  show "steps slept Pair (count (accept_error e))" by (rule kept) simp
qed

text \<open>The same for a loop that ends with a given result.\<close>

definition ends :: "('w \<Rightarrow> nat list) \<Rightarrow> ('a, 'e) result \<Rightarrow> (nat list \<Rightarrow> u64 \<Rightarrow> nat list \<times> u64) \<Rightarrow> ('w served, 'a, 'e) io \<Rightarrow> bool" where
  "ends slept r g m \<longleftrightarrow> (\<forall>s. \<exists>s'. m s = Some (r, s')
     \<and> (slept (sd_world s'), mt_retrying (sd_metrics s')) = g (slept (sd_world s)) (mt_retrying (sd_metrics s)))"

lemma ends_of: "ends slept r Pair (io_of r)"
  by (simp add: ends_def io_of_def)

lemma ends_then:
  assumes "steps slept g m" "\<And>x. ends slept r h (f x)"
  shows "ends slept r (\<lambda>l q. case g l q of (l', q') \<Rightarrow> h l' q') (io_then m f)"
  unfolding ends_def
proof
  fix s
  obtain x s1 where 1: "m s = Some (Ok x, s1)"
    "g (slept (sd_world s)) (mt_retrying (sd_metrics s)) = (slept (sd_world s1), mt_retrying (sd_metrics s1))"
    using assms(1) unfolding steps_def by metis
  obtain s2 where 2: "f x s1 = Some (r, s2)"
    "(slept (sd_world s2), mt_retrying (sd_metrics s2)) = h (slept (sd_world s1)) (mt_retrying (sd_metrics s1))"
    using assms(2) unfolding ends_def by metis
  show "\<exists>s'. io_then m f s = Some (r, s') \<and> (slept (sd_world s'), mt_retrying (sd_metrics s'))
      = (case g (slept (sd_world s)) (mt_retrying (sd_metrics s)) of (l', q') \<Rightarrow> h l' q')"
    using 1 2 by (auto simp: io_then_def)
qed

lemma accept_loop_ends:
  assumes logged: "sleeps_logged E slept" and pre: "list_all (\<lambda>a. \<exists>e. a = Err e \<and> temporary e) pre"
    and attempt: "\<And>e. attempt = Err e \<Longrightarrow> \<not> temporary e"
  shows "ends slept attempt (\<lambda>l q. (l @ map retry_delay [n..<n + length pre], if pre = [] \<and> retrying = None then q else 0))
    (accept_loop E (pre @ attempt # post) (retry_delay n) retrying)"
  using pre
proof (induction pre arbitrary: n retrying)
  case Nil
  note steps = logged_steps [OF logged]
  show ?case
  proof (cases attempt)
    case (Ok c)
    then show ?thesis
      using ends_of [of slept attempt] ends_then [OF steps(4) ends_then [OF steps(1) ends_of]]
      by (cases retrying) simp_all
  next
    case (Err e)
    then show ?thesis
      using attempt ends_then [OF steps(6) ends_then [OF steps_of ends_then [OF steps(1) ends_of]]]
        ends_then [OF steps(6) ends_then [OF steps(4) ends_then [OF steps(1) ends_of]]]
      by (cases retrying) simp_all
  qed
next
  case (Cons a pre)
  note steps = logged_steps [OF logged]
  obtain e where e: "a = Err e" "temporary e" using Cons.prems by auto
  have rest: "ends slept attempt (\<lambda>l q. (l @ map retry_delay [Suc n..<Suc n + length pre], 0))
      (accept_loop E (pre @ attempt # post) (min (retry_delay n * 2) MAX_RETRY) (Some start))" for start
    using Cons.IH [of "Suc n" "Some start"] Cons.prems by (simp add: retry_delay_Suc)
  show ?case
  proof (cases retrying)
    case (Some start)
    show ?thesis
      using ends_then [OF steps(6) ends_then [OF steps_of ends_then [OF steps(5) rest]]] e Some
      by (simp add: upt_conv_Cons del: upt_Suc)
  next
    case None
    show ?thesis
      using ends_then [OF steps(6) ends_then [OF steps_quiet [OF steps(1) steps(3)] ends_then [OF steps(5) rest]]] e None
      by (simp add: upt_conv_Cons del: upt_Suc)
  qed
qed

section \<open>A concrete environment\<close>

text \<open>A clock that stands still, streams that accept every write and deliver nothing, and a world that keeps the sleeps.\<close>

definition example_service :: "(unit, nat list) service_env" where
  "example_service =
     \<lparr>sv_now = (\<lambda>w. (0, w)), sv_raced = (\<lambda>w. (False, w)), sv_sleep = (\<lambda>d w. w @ [d]),
      sv_fill = (\<lambda>w n. (Some (replicate n 0), w)), sv_connect = (\<lambda>path w. (Ready (Ok ()), w)),
      sv_read = (\<lambda>_ n w. (Ready (Ok []), w)), sv_write = (\<lambda>_ bs w. (Ready (Ok ()), w)), sv_shutdown = (\<lambda>_ w. (Ready (Ok ()), w))\<rparr>"

lemma example_service_logged: "sleeps_logged example_service (\<lambda>w. w)"
  by (simp add: sleeps_logged_def example_service_def)

section \<open>Properties\<close>

text \<open>C36. The listener survives temporary failures: however many temporary errors come first, it returns exactly the
  first other result, after one sleep per error with delays that double from 50 milliseconds up to one second,
  and it clears the retry gauge. It returns the error of an \<open>accept\<close> call exactly for the errors that the
  counters class as \<open>other\<close>.\<close>

theorem listener_retries_temporary_errors:
  assumes "sleeps_logged E slept" "list_all (\<lambda>a. \<exists>e. a = Err e \<and> accept_class_of e \<noteq> Other_Class) failures"
    and "case attempt of Ok _ \<Rightarrow> True | Err e \<Rightarrow> accept_class_of e = Other_Class"
  shows "\<exists>s'. accept_observed E (failures @ attempt # later) s = Some (attempt, s')
    \<and> slept (sd_world s') = slept (sd_world s) @ map (\<lambda>n. min (FIRST_RETRY * 2 ^ n) MAX_RETRY) [0..<length failures]
    \<and> (failures \<noteq> [] \<longrightarrow> mt_retrying (sd_metrics s') = 0)"
proof -
  have "ends slept attempt (\<lambda>l q. (l @ map retry_delay [0..<length failures], if failures = [] then q else 0))
      (accept_loop E (failures @ attempt # later) (retry_delay 0) None)"
    using accept_loop_ends [OF assms(1), of failures attempt 0 None later] assms(2,3)
    by (simp add: temporary_iff_class split: result.splits)
  moreover have "retry_delay 0 = FIRST_RETRY" by (simp add: retry_delay_def)
  ultimately show ?thesis
    unfolding ends_def accept_observed_def retry_delay_def by (fastforce dest: spec [of _ s])
qed

theorem listener_retries_temporary_errors_witness:
  "\<exists>s'. accept_observed example_service
      (replicate 6 (Err \<lparr>ie_kind = Other_Kind, ie_raw_os_error = Some 24\<rparr>) @ Ok (7 :: nat) # []) \<lparr>sd_world = [], sd_metrics = metrics_new Worker 8 0\<rparr>
      = Some (Ok 7, s')
    \<and> sd_world s' = [50000000, 100000000, 200000000, 400000000, 800000000, 1000000000]"
  using listener_retries_temporary_errors [OF example_service_logged,
      of "replicate 6 (Err \<lparr>ie_kind = Other_Kind, ie_raw_os_error = Some 24\<rparr>)" "Ok 7" "[]"
        "\<lparr>sd_world = [], sd_metrics = metrics_new Worker 8 0\<rparr>"]
  by (auto simp: accept_class_of_def raw_in_def resource_errnos_def upt_rec list_all_iff)

end
