(* ===== verification/Leelod_Worker.thy ===== *)
theory Leelod_Worker
  imports Leelod_Service
begin

text \<open>
  The evaluation worker of crates/leelod/src/worker.rs and the key file reader of private_file.rs: loading the
  key, admission of connections, and the handler of one connection. \<open>handle\<close> runs under the two-second timer of
  its task, so every await may end with the deadline; a timer that is still running then records a cancellation.
  Admission is a state machine over accepted connections and finished tasks.
\<close>

section \<open>The key file\<close>

record private_meta =
  pm_is_file :: bool
  pm_uid :: u32
  pm_mode :: u32
  pm_len :: u64

text \<open>\<open>pf_open\<close> does not follow a final link; \<open>pf_read file n\<close> is \<open>file.take(n).read_to_end(..)\<close>.\<close>

record 'f private_files =
  pf_open :: "string \<Rightarrow> 'f option"
  pf_metadata :: "'f \<Rightarrow> private_meta option"
  pf_read :: "'f \<Rightarrow> nat \<Rightarrow> bytes option"
  pf_euid :: u32

datatype load_error = File_Error | PermissionDenied | InvalidData | Key_Length | Key_Crypto crypto_error

definition private_read :: "'f private_files \<Rightarrow> string \<Rightarrow> nat \<Rightarrow> (bytes, load_error) result" where
  "private_read F path limit =
     and_then (ok_or File_Error (pf_open F path)) (\<lambda>file.
     and_then (ok_or File_Error (pf_metadata F file)) (\<lambda>m.
     if \<not> pm_is_file m \<or> pm_uid m \<noteq> pf_euid F \<or> pm_mode m AND 0x3f \<noteq> 0 \<or> pm_len m > word_of_nat limit
     then Err PermissionDenied
     else and_then (ok_or File_Error (pf_read F file (limit + 1))) (\<lambda>bs.
       if length bs > limit then Err InvalidData else Ok bs)))"

definition load :: "('p, 'f, 'srv, 'cli, 'st) voprf_lib \<Rightarrow> 'h private_files \<Rightarrow> string \<Rightarrow> ('srv, load_error) result" where
  "load V F path =
     and_then (private_read F path 48) (\<lambda>bs.
     if length bs \<noteq> 48 then Err Key_Length
     else map_err Key_Crypto (secret_server_from_secret_bytes V bs))"

section \<open>One connection\<close>

text \<open>The answer to a request that is not evaluated.\<close>

definition refuse :: "('s, 'w) service_env \<Rightarrow> 's \<Rightarrow> nat \<Rightarrow> stage_outcome \<Rightarrow> ('w served, stage_outcome, task_exit) io" where
  "refuse E stream started outcome =
     io_then (timer_finish E Validation started outcome) (\<lambda>_.
     io_then (await Write (sv_write E stream [1])) (\<lambda>_. io_of (Ok outcome)))"

definition evaluation_outcome :: "(evaluation, crypto_error) result \<Rightarrow> stage_outcome" where
  "evaluation_outcome r =
     (case r of
        Ok _ \<Rightarrow> Success
      | Err InvalidEncoding \<Rightarrow> InvalidPoint
      | Err crypto_error.Randomness \<Rightarrow> stage_outcome.Randomness
      | Err _ \<Rightarrow> Crypto)"

definition reply :: "('s, 'w) service_env \<Rightarrow> 's \<Rightarrow> (evaluation, crypto_error) result \<Rightarrow> ('w served, unit, task_exit) io" where
  "reply E stream r =
     (case r of
        Ok ev \<Rightarrow>
          io_then (await Write (sv_write E stream [0])) (\<lambda>_. await Write (sv_write E stream (encode_response ev)))
      | Err _ \<Rightarrow> await Write (sv_write E stream [1]))"

definition evaluate_request :: "('s, 'w) service_env \<Rightarrow> ('p, 'f, 'srv, 'cli, 'st) voprf_lib \<Rightarrow> 'st chacha20 \<Rightarrow> 'srv
      \<Rightarrow> 's \<Rightarrow> bytes \<Rightarrow> ('w served, stage_outcome, task_exit) io" where
  "evaluate_request E V Ch srv stream point =
     io_then (on_service (sv_now E)) (\<lambda>started.
     io_then (on_service (evaluate_with_entropy V Ch (sv_fill E) srv point)) (\<lambda>r.
     let outcome = evaluation_outcome r in
     io_then (timer_finish E Crypto_Stage started outcome) (\<lambda>_.
     io_then (if outcome = stage_outcome.Randomness \<or> outcome = Crypto
              then emit_event E ''evaluation_failed'' ''crypto'' ''failure''
                (if outcome = stage_outcome.Randomness then ''randomness'' else ''cryptographic_operation'')
              else io_of (Ok ())) (\<lambda>_.
     io_then (reply E stream r) (\<lambda>_.
     io_then (await Write (sv_shutdown E stream)) (\<lambda>_. io_of (Ok outcome)))))))"

definition handle :: "('s, 'w) service_env \<Rightarrow> ('p, 'f, 'srv, 'cli, 'st) voprf_lib \<Rightarrow> 'st chacha20 \<Rightarrow> 'srv
      \<Rightarrow> bytes \<Rightarrow> 's \<Rightarrow> ('w served, stage_outcome, task_exit) io" where
  "handle E V Ch srv kid stream =
     io_then (on_service (sv_now E)) (\<lambda>started.
     io_then (dropping E Validation started (await Read (sv_read E stream (REQUEST_BYTES + 1)))) (\<lambda>bs.
     case decode_request bs of
       Ok request \<Rightarrow>
         if rq_key_id request = kid
         then io_then (timer_finish E Validation started Success) (\<lambda>_. evaluate_request E V Ch srv stream (rq_point request))
         else refuse E stream started WrongKey
     | Err _ \<Rightarrow> refuse E stream started Frame))"

text \<open>The spawned task: the outcome of the handler or of its timer, and the destructor of the in-flight guard.\<close>

definition task_outcome :: "(stage_outcome, task_exit) result \<Rightarrow> stage_outcome" where
  "task_outcome r = (case r of Ok outcome \<Rightarrow> outcome | Err (Returned outcome) \<Rightarrow> outcome | Err Deadline \<Rightarrow> Timeout)"

definition connection_task :: "('s, 'w) service_env \<Rightarrow> ('p, 'f, 'srv, 'cli, 'st) voprf_lib \<Rightarrow> 'st chacha20 \<Rightarrow> 'srv
      \<Rightarrow> bytes \<Rightarrow> 's \<Rightarrow> ('w served, unit, task_exit) io" where
  "connection_task E V Ch srv kid stream =
     io_then (on_service (sv_now E)) (\<lambda>started s.
     case handle E V Ch srv kid stream s of
       None \<Rightarrow> None
     | Some (r, s') \<Rightarrow>
         io_then (timer_finish E Worker_Stage started (task_outcome r)) (\<lambda>_. count drop_inflight) s')"

section \<open>Admission\<close>

definition MAX_WORK :: nat where [simp]: "MAX_WORK = 8"

text \<open>Free permits of the semaphore, a mark for every running task (in the worker the user id behind it), and the counters.\<close>

record 'u admission_state =
  ad_permits :: nat
  ad_running :: "'u list"
  ad_metrics :: metrics

definition serve_new :: "nat \<Rightarrow> metrics \<Rightarrow> 'u admission_state" where
  "serve_new limit m = \<lparr>ad_permits = limit, ad_running = [], ad_metrics = m\<rparr>"

definition reject :: "bool \<Rightarrow> nat \<Rightarrow> admission_kind \<Rightarrow> string \<Rightarrow> string \<Rightarrow> string \<Rightarrow> 'u admission_state \<Rightarrow> 'u admission_state" where
  "reject raced now kind name stage reason st =
     st\<lparr>ad_metrics := event raced now name stage ''failure'' reason (admission kind (ad_metrics st))\<rparr>"

text \<open>\<open>try_acquire_owned\<close> and what follows it, up to the spawn.\<close>

definition admit :: "bool \<Rightarrow> nat \<Rightarrow> string \<Rightarrow> 'u \<Rightarrow> 'u admission_state \<Rightarrow> 'u admission_state" where
  "admit raced now stage uid st =
     (case ad_permits st of
        0 \<Rightarrow> reject raced now Capacity ''capacity_rejected'' stage ''capacity'' st
      | Suc permits \<Rightarrow>
          st\<lparr>ad_permits := permits, ad_running := ad_running st @ [uid],
             ad_metrics := enter (admission Admitted (ad_metrics st))\<rparr>)"

text \<open>One turn of the loop of \<open>serve\<close>, from the result of \<open>peer_cred\<close> on.\<close>

definition serve_accept :: "u32 \<Rightarrow> bool \<Rightarrow> nat \<Rightarrow> u32 option \<Rightarrow> u32 admission_state \<Rightarrow> u32 admission_state" where
  "serve_accept allowed_uid raced now credentials st =
     (case credentials of
        Some uid \<Rightarrow>
          if uid = allowed_uid then admit raced now ''admission'' uid st
          else reject raced now Peer ''worker_peer_denied'' ''admission'' ''peer_uid'' st
      | None \<Rightarrow> reject raced now PeerCheck ''worker_peer_denied'' ''admission'' ''peer_credentials'' st)"

text \<open>The end of a running task: its guards give the counter and the permit back.\<close>

definition serve_finish :: "nat \<Rightarrow> 'u admission_state \<Rightarrow> 'u admission_state" where
  "serve_finish i st =
     st\<lparr>ad_running := take i (ad_running st) @ drop (Suc i) (ad_running st),
        ad_metrics := drop_inflight (ad_metrics st), ad_permits := Suc (ad_permits st)\<rparr>"

text \<open>All interleavings of accepted connections, of measurements of running tasks and of finished tasks.\<close>

inductive serve_reachable :: "u32 \<Rightarrow> u32 admission_state \<Rightarrow> bool" for allowed_uid where
  start: "mt_inflight m = 0 \<Longrightarrow> serve_reachable allowed_uid (serve_new MAX_WORK m)"
| accept: "serve_reachable allowed_uid st \<Longrightarrow> serve_reachable allowed_uid (serve_accept allowed_uid raced now credentials st)"
| observe: "serve_reachable allowed_uid st \<Longrightarrow> ad_running st \<noteq> [] \<Longrightarrow>
     serve_reachable allowed_uid (st\<lparr>ad_metrics := observe stage outcome ns (ad_metrics st)\<rparr>)"
| event: "serve_reachable allowed_uid st \<Longrightarrow> ad_running st \<noteq> [] \<Longrightarrow>
     serve_reachable allowed_uid (st\<lparr>ad_metrics := event raced now name stage' outcome' reason (ad_metrics st)\<rparr>)"
| finish: "serve_reachable allowed_uid st \<Longrightarrow> i < length (ad_running st) \<Longrightarrow> serve_reachable allowed_uid (serve_finish i st)"

definition admission_inv :: "nat \<Rightarrow> ('u \<Rightarrow> bool) \<Rightarrow> 'u admission_state \<Rightarrow> bool" where
  "admission_inv limit ok st \<longleftrightarrow>
     ad_permits st + length (ad_running st) = limit \<and> list_all ok (ad_running st)
     \<and> mt_inflight (ad_metrics st) = word_of_nat (length (ad_running st))"

lemma inv_reject: "admission_inv limit ok (reject raced now kind name stage reason st) = admission_inv limit ok st"
  by (simp add: admission_inv_def reject_def)

lemma enter_inflight: "mt_inflight (enter m) = (if mt_inflight m = - 1 then - 1 else mt_inflight m + 1)"
  by (simp add: enter_def saturating_add_one)

lemma small_not_max:
  assumes "n < 2 ^ 64 - 1"
  shows "(word_of_nat n :: u64) \<noteq> - 1"
proof
  assume "(word_of_nat n :: u64) = - 1"
  then have "unat (word_of_nat n :: u64) = unat (- 1 :: u64)" by simp
  then show False
    using assms by (simp add: unsigned_minus_1_eq_mask mask_eq_exp_minus_1 unat_of_nat take_bit_nat_eq_self)
qed

lemma inv_admit:
  assumes "admission_inv limit ok st" "ok uid" "limit < 2 ^ 64"
  shows "admission_inv limit ok (admit raced now stage uid st)"
proof (cases "ad_permits st")
  case (Suc permits)
  then have "length (ad_running st) < 2 ^ 64 - 1" using assms by (simp add: admission_inv_def)
  then show ?thesis
    using assms Suc small_not_max [of "length (ad_running st)"]
    by (simp add: admission_inv_def admit_def enter_inflight add.commute)
qed (use assms in \<open>simp add: admit_def inv_reject\<close>)

lemma inv_finish:
  assumes "admission_inv limit ok st" "i < length (ad_running st)"
  shows "admission_inv limit ok (serve_finish i st)"
proof -
  obtain n where n: "length (ad_running st) = Suc n" using assms(2) by (cases "length (ad_running st)") auto
  have "length (take i (ad_running st) @ drop (Suc i) (ad_running st)) = n" using assms(2) n by simp
  moreover have "list_all ok (take i (ad_running st) @ drop (Suc i) (ad_running st))"
    using assms(1) by (auto simp: admission_inv_def list_all_iff dest: in_set_takeD in_set_dropD)
  ultimately show ?thesis using assms(1) n by (simp add: admission_inv_def serve_finish_def drop_inflight_def)
qed

lemma serve_inv: "serve_reachable allowed_uid st \<Longrightarrow> admission_inv MAX_WORK (\<lambda>uid. uid = allowed_uid) st"
proof (induction rule: serve_reachable.induct)
  case (accept st raced now credentials)
  then show ?case
    using inv_admit [OF accept.IH, of allowed_uid]
    by (auto simp: serve_accept_def inv_reject split: option.splits)
next
  case (finish st i)
  then show ?case by (blast intro: inv_finish)
qed (simp_all add: admission_inv_def serve_new_def)

section \<open>What a connection gets to read\<close>

text \<open>An observer of the bytes that were written to a stream. A write appends a part of its argument, and all of it
  when it succeeds; nothing else that the handler calls writes to the stream.\<close>

definition stream_logs :: "('s, 'w) service_env \<Rightarrow> 's \<Rightarrow> ('w \<Rightarrow> bytes) \<Rightarrow> bool" where
  "stream_logs E stream written \<longleftrightarrow>
     (\<forall>bs w. \<exists>pre. written (snd (sv_write E stream bs w)) = written w @ pre \<and> prefix pre bs
        \<and> (fst (sv_write E stream bs w) = Ready (Ok ()) \<longrightarrow> pre = bs))
     \<and> (\<forall>w. written (snd (sv_now E w)) = written w) \<and> (\<forall>w. written (snd (sv_raced E w)) = written w)
     \<and> (\<forall>w n. written (snd (sv_fill E w n)) = written w)
     \<and> (\<forall>w n. written (snd (sv_read E stream n w)) = written w) \<and> (\<forall>w. written (snd (sv_shutdown E stream w)) = written w)"

definition writes :: "('s \<Rightarrow> bytes) \<Rightarrow> bytes \<Rightarrow> ('s, 'a, 'e) io \<Rightarrow> bool" where
  "writes log bs m \<longleftrightarrow> (\<forall>s r s'. m s = Some (r, s') \<longrightarrow>
     (\<exists>pre. log s' = log s @ pre \<and> prefix pre bs \<and> (is_ok r \<longrightarrow> pre = bs)))"

lemma writes_nothing: "keeps log m \<Longrightarrow> writes log [] m"
  by (auto simp: writes_def keeps_def)

lemma writes_then:
  assumes "writes log a m" "\<And>x. writes log b (f x)"
  shows "writes log (a @ b) (io_then m f)"
  unfolding writes_def
proof (intro allI impI)
  fix s r s' assume run: "io_then m f s = Some (r, s')"
  show "\<exists>pre. log s' = log s @ pre \<and> prefix pre (a @ b) \<and> (is_ok r \<longrightarrow> pre = a @ b)"
  proof (cases "\<exists>x s1. m s = Some (Ok x, s1)")
    case True
    then obtain x s1 where 1: "m s = Some (Ok x, s1)" by blast
    then have 2: "f x s1 = Some (r, s')" using run by (simp add: io_then_def)
    have "log s1 = log s @ a" using assms(1) 1 unfolding writes_def by fastforce
    moreover obtain pre where "log s' = log s1 @ pre" "prefix pre b" "is_ok r \<longrightarrow> pre = b"
      using assms(2) 2 unfolding writes_def by blast
    ultimately show ?thesis by auto
  next
    case False
    then obtain e where "m s = Some (Err e, s')" "r = Err e"
      using run by (auto simp: io_then_def split: option.splits prod.splits result.splits)
    then show ?thesis using assms(1) unfolding writes_def by (fastforce intro: prefix_prefix)
  qed
qed

lemma writes_after: "keeps log m \<Longrightarrow> (\<And>x. writes log b (f x)) \<Longrightarrow> writes log b (io_then m f)"
  using writes_then [OF writes_nothing, of log m b f] by simp

lemma writes_before: "writes log a m \<Longrightarrow> (\<And>x. keeps log (f x)) \<Longrightarrow> writes log a (io_then m f)"
  using writes_then [of log a m "[]" f] writes_nothing [of log] by auto

lemma await_writes:
  assumes "stream_logs E stream written"
  shows "writes (\<lambda>s. written (sd_world s)) bs (await q (sv_write E stream bs))"
  unfolding writes_def
proof (intro allI impI)
  fix s r s' assume "await q (sv_write E stream bs) s = Some (r, s')"
  then have "sd_world s' = snd (sv_write E stream bs (sd_world s))"
    "is_ok r \<longrightarrow> fst (sv_write E stream bs (sd_world s)) = Ready (Ok ())"
    by (auto simp: await_def split: prod.splits awaited.splits result.splits)
  then show "\<exists>pre. written (sd_world s') = written (sd_world s) @ pre \<and> prefix pre bs \<and> (is_ok r \<longrightarrow> pre = bs)"
    using assms unfolding stream_logs_def by metis
qed

lemma evaluate_world:
  assumes "stream_logs E stream written"
  shows "written (snd (evaluate_with_entropy V Ch (sv_fill E) srv point w)) = written w"
  using assms
  by (auto simp: evaluate_with_entropy_def operation_rng_from_entropy_def stream_logs_def split: option.splits prod.splits result.splits)
    (metis snd_conv)+

lemma service_logs_kept:
  assumes "stream_logs E stream written"
  shows "keeps (\<lambda>s. written (sd_world s)) (on_service (sv_now E))"
    "keeps (\<lambda>s. written (sd_world s)) (timer_finish E stage start q)"
    "keeps (\<lambda>s. written (sd_world s)) (emit_event E n st q' r)"
    "keeps (\<lambda>s. written (sd_world s)) (await o1 (sv_read E stream k))"
    "keeps (\<lambda>s. written (sd_world s)) (await o2 (sv_shutdown E stream))"
    "keeps (\<lambda>s. written (sd_world s)) (on_service (evaluate_with_entropy V Ch (sv_fill E) srv point))"
  unfolding timer_finish_def emit_event_def using assms evaluate_world [OF assms]
  by (auto simp: stream_logs_def intro!: kept)

text \<open>The reply to a request, as one value.\<close>

definition reply_bytes :: "(evaluation, crypto_error) result \<Rightarrow> bytes" where
  "reply_bytes r = (case r of Ok ev \<Rightarrow> 0 # encode_response ev | Err _ \<Rightarrow> [1])"

definition worker_reply :: "('p, 'f, 'srv, 'cli, 'st) voprf_lib \<Rightarrow> 'st chacha20 \<Rightarrow> 'r rng \<Rightarrow> 'srv \<Rightarrow> bytes \<Rightarrow> bytes \<Rightarrow> 'r \<Rightarrow> bytes" where
  "worker_reply V Ch fill srv kid input r =
     (case decode_request input of
        Ok request \<Rightarrow>
          if rq_key_id request = kid then reply_bytes (fst (evaluate_with_entropy V Ch fill srv (rq_point request) r)) else [1]
      | Err _ \<Rightarrow> [1])"

lemma reply_writes:
  assumes "stream_logs E stream written"
  shows "writes (\<lambda>s. written (sd_world s)) (reply_bytes r) (reply E stream r)"
proof (cases r)
  case (Ok ev)
  then show ?thesis
    using writes_then [OF await_writes [OF assms, of "[0]"] await_writes [OF assms, of "encode_response ev"]]
    by (simp add: reply_def reply_bytes_def)
qed (use await_writes [OF assms] in \<open>simp add: reply_def reply_bytes_def\<close>)

lemma refuse_writes:
  "stream_logs E stream written \<Longrightarrow> writes (\<lambda>s. written (sd_world s)) [1] (refuse E stream started q)"
  unfolding refuse_def by (intro writes_after writes_before await_writes service_logs_kept keeps_of)

lemma evaluate_request_writes:
  assumes "stream_logs E stream written" "evaluate_request E V Ch srv stream point s = Some (r, s')"
  shows "\<exists>q pre. written (sd_world s') = written (sd_world s) @ pre
    \<and> prefix pre (reply_bytes (fst (evaluate_with_entropy V Ch (sv_fill E) srv point q)))
    \<and> (is_ok r \<longrightarrow> pre = reply_bytes (fst (evaluate_with_entropy V Ch (sv_fill E) srv point q)))"
proof -
  obtain started w1 where now: "sv_now E (sd_world s) = (started, w1)" by (cases "sv_now E (sd_world s)")
  obtain ev w2 where ev: "evaluate_with_entropy V Ch (sv_fill E) srv point w1 = (ev, w2)"
    by (cases "evaluate_with_entropy V Ch (sv_fill E) srv point w1")
  note logs = service_logs_kept [OF assms(1)]
  define rest where "rest = (let outcome = evaluation_outcome ev in
     io_then (timer_finish E Crypto_Stage started outcome) (\<lambda>_.
     io_then (if outcome = stage_outcome.Randomness \<or> outcome = Crypto
              then emit_event E ''evaluation_failed'' ''crypto'' ''failure''
                (if outcome = stage_outcome.Randomness then ''randomness'' else ''cryptographic_operation'')
              else io_of (Ok ())) (\<lambda>_.
     io_then (reply E stream ev) (\<lambda>_.
     io_then (await Write (sv_shutdown E stream)) (\<lambda>_. io_of (Ok outcome))))))"
  have "writes (\<lambda>s. written (sd_world s)) (reply_bytes ev) rest"
    unfolding rest_def Let_def
    by (rule writes_after [OF logs(2) writes_after [OF keeps_if [OF logs(3) keeps_of]
          writes_before [OF reply_writes [OF assms(1)] keeps_then [OF logs(5) keeps_of]]]])
  moreover have "rest (s\<lparr>sd_world := w2\<rparr>) = Some (r, s')"
    using assms(2) now ev by (simp add: evaluate_request_def rest_def io_then_def on_service_def)
  ultimately obtain pre where "written (sd_world s') = written w2 @ pre" "prefix pre (reply_bytes ev)" "is_ok r \<longrightarrow> pre = reply_bytes ev"
    unfolding writes_def by fastforce
  moreover have "written w2 = written (sd_world s)"
    using evaluate_world [OF assms(1), of V Ch srv point w1] ev assms(1) now by (simp add: stream_logs_def) (metis snd_conv)
  ultimately show ?thesis using ev by (intro exI [of _ w1]) auto
qed

lemma handle_reads:
  assumes "sv_now E (sd_world s) = (started, w0)" "sv_read E stream (REQUEST_BYTES + 1) w0 = (Ready (Ok input), w1)"
  shows "handle E V Ch srv kid stream s =
     (case decode_request input of
       Ok request \<Rightarrow>
         if rq_key_id request = kid
         then io_then (timer_finish E Validation started Success) (\<lambda>_. evaluate_request E V Ch srv stream (rq_point request))
         else refuse E stream started WrongKey
     | Err _ \<Rightarrow> refuse E stream started Frame) (s\<lparr>sd_world := w1\<rparr>)"
  using assms by (simp add: handle_def io_then_def on_service_def dropping_def await_def)

lemma handle_writes:
  assumes logs: "stream_logs E stream written"
    and now: "sv_now E (sd_world s) = (started, w0)"
    and input: "sv_read E stream (REQUEST_BYTES + 1) w0 = (Ready (Ok input), w1)"
    and run: "handle E V Ch srv kid stream s = Some (r, s')"
  shows "\<exists>q pre. written (sd_world s') = written (sd_world s) @ pre \<and> prefix pre (worker_reply V Ch (sv_fill E) srv kid input q)
    \<and> (is_ok r \<longrightarrow> pre = worker_reply V Ch (sv_fill E) srv kid input q)"
proof -
  have w1: "written w1 = written (sd_world s)"
    using logs now input unfolding stream_logs_def by (metis snd_conv)
  note run = run [unfolded handle_reads [OF now input]]
  show ?thesis
  proof (cases "\<exists>request. decode_request input = Ok request \<and> rq_key_id request = kid")
    case True
    then obtain request where request: "decode_request input = Ok request" "rq_key_id request = kid" by blast
    obtain s2 where "timer_finish E Validation started Success (s\<lparr>sd_world := w1\<rparr>) = Some (Ok (), s2)"
      "evaluate_request E V Ch srv stream (rq_point request) s2 = Some (r, s')"
      using run request
      by (auto simp: io_then_def timer_finish_def on_service_def count_def split: option.splits prod.splits result.splits)
    moreover from this(1) have "written (sd_world s2) = written w1"
      using service_logs_kept(2) [OF logs] unfolding keeps_def by fastforce
    ultimately show ?thesis
      using evaluate_request_writes [OF logs] w1 request by (fastforce simp: worker_reply_def)
  next
    case False
    then obtain q where "refuse E stream started q (s\<lparr>sd_world := w1\<rparr>) = Some (r, s')"
      using run by (auto split: result.splits if_splits)
    then obtain pre where "written (sd_world s') = written w1 @ pre" "prefix pre [1]" "is_ok r \<longrightarrow> pre = [1]"
      using refuse_writes [OF logs] unfolding writes_def by fastforce
    moreover have "worker_reply V Ch (sv_fill E) srv kid input x = [1]" for x
      using False by (auto simp: worker_reply_def split: result.splits)
    ultimately show ?thesis using w1 by auto
  qed
qed

section \<open>Every task ends\<close>

lemma handle_returns [returns]: "io_returns (handle E V Ch srv kid stream) s"
proof -
  have "io_returns (reply E stream r) s" for r s
    unfolding reply_def by (cases r) (simp_all add: returns)
  then have "io_returns (evaluate_request E V Ch srv stream point) s" for point s
    unfolding evaluate_request_def Let_def by (intro returns)
  moreover have "io_returns (refuse E stream started q) s" for started q s
    unfolding refuse_def by (intro returns)
  ultimately have "io_returns (case decode_request bs of
       Ok request \<Rightarrow>
         if rq_key_id request = kid
         then io_then (timer_finish E Validation started Success) (\<lambda>_. evaluate_request E V Ch srv stream (rq_point request))
         else refuse E stream started WrongKey
     | Err _ \<Rightarrow> refuse E stream started Frame) s" for bs started s
    by (cases "decode_request bs") (auto intro!: returns)
  then show ?thesis unfolding handle_def by (intro returns)
qed

text \<open>What the handler leaves alone: the in-flight counter and the completions of its task's own stage.\<close>

definition task_view :: "metrics \<Rightarrow> u64 \<times> nat list \<times> (stage_outcome \<Rightarrow> u64)" where
  "task_view m = (mt_inflight m, map length (mt_completions m), \<lambda>q. completed Worker_Stage q m)"

lemma task_view_event: "task_view (event raced now n st q r m) = task_view m"
  by (auto simp: task_view_def event_def lifecycle_def completed_def Let_def)

lemma map_length_update: "length (f (xs ! i)) = length (xs ! i) \<Longrightarrow> map length (xs[i := f (xs ! i)]) = map length xs"
  using list_update_id [of "map length xs" i] by (cases "i < length xs") (simp_all add: map_update list_update_beyond)

lemma task_view_record: "stage \<noteq> Worker_Stage \<Longrightarrow> task_view (timer_record stage start now q m) = task_view m"
  using as_usize_inject [of Worker_Stage stage_all stage]
  by (simp add: task_view_def timer_record_def observe_def completed_def Let_def map_length_update)

lemma handler_keeps:
  "stage \<noteq> Worker_Stage \<Longrightarrow> keeps (\<lambda>s. task_view (sd_metrics s)) (timer_finish E stage start q)"
  "keeps (\<lambda>s. task_view (sd_metrics s)) (emit_event E n st q' r)"
  unfolding timer_finish_def emit_event_def
  by (intro kept; simp add: task_view_record task_view_event)+

lemma handle_keeps: "keeps (\<lambda>s. task_view (sd_metrics s)) (handle E V Ch srv kid stream)"
proof -
  let ?v = "\<lambda>s. task_view (sd_metrics s)"
  have "keeps ?v (reply E stream r)" for r
    unfolding reply_def by (cases r) (simp_all add: kept)
  then have "keeps ?v (evaluate_request E V Ch srv stream point)" for point
    unfolding evaluate_request_def Let_def
    by (intro keeps_then keeps_if keeps_of service_keeps_metrics handler_keeps) simp_all
  moreover have "keeps ?v (refuse E stream started q)" for started q
    unfolding refuse_def by (intro keeps_then keeps_of service_keeps_metrics handler_keeps) simp
  ultimately have "keeps ?v (case decode_request bs of
       Ok request \<Rightarrow>
         if rq_key_id request = kid
         then io_then (timer_finish E Validation started Success) (\<lambda>_. evaluate_request E V Ch srv stream (rq_point request))
         else refuse E stream started WrongKey
     | Err _ \<Rightarrow> refuse E stream started Frame)" for bs started
    by (cases "decode_request bs") (auto intro!: keeps_then handler_keeps)
  then show ?thesis
    unfolding handle_def by (intro keeps_then dropping_keeps service_keeps_metrics handler_keeps) simp_all
qed

lemma task_view_finish:
  assumes "wf_metrics m" "task_view m' = task_view m"
  shows "mt_inflight (drop_inflight (timer_record Worker_Stage start now q m')) = mt_inflight m - 1"
    "completed Worker_Stage q' (drop_inflight (timer_record Worker_Stage start now q m'))
      = (if q' = q then saturating_add (completed Worker_Stage q' m) 1 else completed Worker_Stage q' m)"
proof -
  have view: "mt_inflight m' = mt_inflight m" "map length (mt_completions m') = map length (mt_completions m)"
    "completed Worker_Stage q' m' = completed Worker_Stage q' m" for q'
    using assms(2) by (simp_all add: task_view_def fun_eq_iff)
  have rows: "(\<forall>row\<in>set xs. length row = n) \<longleftrightarrow> length ` set xs \<subseteq> {n}" for xs :: "u64 list list" and n
    by auto
  have len: "length (mt_completions m') = length stage_all" "list_all (\<lambda>row. length row = length outcome_all) (mt_completions m')"
    using assms(1) arg_cong [OF view(2), of length] arg_cong [OF view(2), of set] unfolding wf_metrics_def list_all_iff
    by (simp_all add: rows)
  show "mt_inflight (drop_inflight (timer_record Worker_Stage start now q m')) = mt_inflight m - 1"
    using view(1) by (simp add: drop_inflight_def timer_record_def)
  show "completed Worker_Stage q' (drop_inflight (timer_record Worker_Stage start now q m'))
      = (if q' = q then saturating_add (completed Worker_Stage q' m) 1 else completed Worker_Stage q' m)"
    using len view(3) [symmetric] as_usize_less [of Worker_Stage stage_all] as_usize_less [of q outcome_all]
      as_usize_inject [of q' outcome_all q]
    by (auto simp: completed_def timer_record_def observe_def drop_inflight_def Let_def add_def list_all_length nth_list_update)
qed

lemma connection_task_run:
  assumes "wf_metrics (sd_metrics s)"
  shows "\<exists>q s'. connection_task E V Ch srv kid stream s = Some (Ok (), s')
    \<and> mt_inflight (sd_metrics s') = mt_inflight (sd_metrics s) - 1
    \<and> (\<forall>q'. completed Worker_Stage q' (sd_metrics s') = (if q' = q
          then saturating_add (completed Worker_Stage q' (sd_metrics s)) 1 else completed Worker_Stage q' (sd_metrics s)))"
proof -
  obtain started w0 where now: "sv_now E (sd_world s) = (started, w0)" by (cases "sv_now E (sd_world s)")
  obtain r s1 where run: "handle E V Ch srv kid stream (s\<lparr>sd_world := w0\<rparr>) = Some (r, s1)"
    using handle_returns [of E V Ch srv kid stream "s\<lparr>sd_world := w0\<rparr>"] unfolding io_returns_def by auto
  have view: "task_view (sd_metrics s1) = task_view (sd_metrics s)"
    using handle_keeps run unfolding keeps_def by fastforce
  obtain now2 w2 where now2: "sv_now E (sd_world s1) = (now2, w2)" by (cases "sv_now E (sd_world s1)")
  have "connection_task E V Ch srv kid stream s = Some (Ok (), s1\<lparr>sd_world := w2,
      sd_metrics := drop_inflight (timer_record Worker_Stage started now2 (task_outcome r) (sd_metrics s1))\<rparr>)"
    using now run now2 by (simp add: connection_task_def io_then_def on_service_def timer_finish_def count_def)
  then show ?thesis using task_view_finish [OF assms view] by fastforce
qed

section \<open>A concrete worker\<close>

text \<open>A stream as a pair of the bytes to read and the bytes written.\<close>

definition example_pipe :: "(unit, bytes \<times> bytes) service_env" where
  "example_pipe =
     \<lparr>sv_now = (\<lambda>w. (0, w)), sv_raced = (\<lambda>w. (False, w)), sv_sleep = (\<lambda>d w. w),
      sv_fill = (\<lambda>w n. (Some (replicate n 0), w)), sv_connect = (\<lambda>path w. (Ready (Ok ()), w)),
      sv_read = (\<lambda>_ n (i, out). (Ready (Ok (take n i)), (drop n i, out))),
      sv_write = (\<lambda>_ bs (i, out). (Ready (Ok ()), (i, out @ bs))), sv_shutdown = (\<lambda>_ w. (Ready (Ok ()), w))\<rparr>"

lemma example_pipe_logs: "stream_logs example_pipe () snd"
  by (auto simp: stream_logs_def example_pipe_def split: prod.splits)

definition example_request :: bytes where
  "example_request = encode_request (replicate 32 4) (replicate 49 2)"

lemma example_decodes: "decode_request example_request = Ok \<lparr>rq_key_id = replicate 32 4, rq_point = replicate 49 2\<rparr>"
  unfolding example_request_def
  using request.decode_encode [of "\<lparr>rq_key_id = replicate 32 4, rq_point = replicate 49 2\<rparr>"] by (simp add: wf_request_def)

section \<open>Properties\<close>

text \<open>C18. What a peer can read from the worker is determined by its request: whatever the socket does and whenever
  the timer fires, the bytes written are a prefix of one reply, and the whole reply when the handler succeeds. The
  reply carries an evaluation only for a well-formed request that names the worker's key, and is the single byte
  1 otherwise.\<close>

theorem worker_writes_reply:
  assumes "stream_logs E stream written" "sv_now E (sd_world s) = (started, w0)"
    and "sv_read E stream (REQUEST_BYTES + 1) w0 = (Ready (Ok input), w1)"
    and "handle E V Ch srv kid stream s = Some (r, s')"
  shows "\<exists>q pre. written (sd_world s') = written (sd_world s) @ pre
    \<and> prefix pre (worker_reply V Ch (sv_fill E) srv kid input q)
    \<and> (is_ok r \<longrightarrow> pre = worker_reply V Ch (sv_fill E) srv kid input q)"
  using assms by (rule handle_writes)

theorem worker_writes_reply_witness:
  "\<exists>r s' q. handle example_pipe plain_voprf plain_chacha () (replicate 32 4) () \<lparr>sd_world = (example_request, []), sd_metrics = metrics_new Worker 8 0\<rparr>
      = Some (r, s')
    \<and> prefix (snd (sd_world s')) (worker_reply plain_voprf plain_chacha (sv_fill example_pipe) () (replicate 32 4) example_request q)"
proof -
  define s where "s = \<lparr>sd_world = (example_request, [] :: bytes), sd_metrics = metrics_new Worker 8 0\<rparr>"
  obtain r s' where run: "handle example_pipe plain_voprf plain_chacha () (replicate 32 4) () s = Some (r, s')"
    using handle_returns [of example_pipe plain_voprf plain_chacha "()" "replicate 32 4" "()" s] unfolding io_returns_def by auto
  have "length example_request = 89" by (simp add: example_request_def encode_request_def)
  then have "sv_read example_pipe () (REQUEST_BYTES + 1) (example_request, []) = (Ready (Ok example_request), ([], []))"
    by (simp add: example_pipe_def)
  from worker_writes_reply [OF example_pipe_logs _ this run, of 0] run
  show ?thesis unfolding s_def by (fastforce simp: example_pipe_def)
qed

text \<open>C19. Admission is bounded and restricted: in every interleaving of accepted connections and tasks, at most eight
  tasks run, each for the one allowed user id, the in-flight gauge counts exactly the running tasks, and free permits
  and running tasks add up to the limit, so no permit is lost.\<close>

theorem worker_admission_bounded:
  assumes "serve_reachable allowed_uid st"
  shows "length (ad_running st) \<le> MAX_WORK \<and> (\<forall>uid\<in>set (ad_running st). uid = allowed_uid)
    \<and> mt_inflight (ad_metrics st) = word_of_nat (length (ad_running st))
    \<and> ad_permits st + length (ad_running st) = MAX_WORK"
  using serve_inv [OF assms] unfolding admission_inv_def list_all_iff by auto

theorem worker_admission_bounded_witness:
  "ad_running (serve_accept 7 False 0 (Some 7) (serve_new MAX_WORK (metrics_new Worker 8 0))) = [7]
    \<and> mt_inflight (ad_metrics (serve_accept 7 False 0 (Some 7) (serve_new MAX_WORK (metrics_new Worker 8 0)))) = 1"
proof -
  define st where "st = serve_accept 7 False 0 (Some 7) (serve_new MAX_WORK (metrics_new Worker 8 0))"
  have "serve_reachable 7 st"
    unfolding st_def by (intro serve_reachable.accept serve_reachable.start) (simp add: metrics_new_def)
  moreover have "ad_running st = [7]"
    by (simp add: st_def serve_accept_def admit_def serve_new_def numeral_eq_Suc)
  ultimately show ?thesis using worker_admission_bounded [of 7 st] unfolding st_def by simp
qed

end
