(* ===== verification/Leelod_Frontend.thy ===== *)
theory Leelod_Frontend
  imports Leelod_Worker
begin

text \<open>
  The TLS frontend of crates/leelod/src/server.rs: admission of connections, the HTTP middleware, the handler of
  \<open>/v1/evaluate\<close> and its exchange with the worker. TLS, HTTP/1.1 and the axum router are not modelled; a request
  is what the handler reads of it. \<open>fr_body limit\<close> is \<open>to_bytes(body, limit)\<close>, and a header value that is not text
  is \<open>None\<close>. The connection deadline, which drops the whole connection, is not modelled.
\<close>

section \<open>Requests and responses\<close>

record http_request =
  fr_path :: string
  fr_query :: "string option"
  fr_content_types :: "string option list"
  fr_encoded :: bool
  fr_body :: "nat \<Rightarrow> bytes option"

record http_response =
  rs_status :: u16
  rs_content_type :: "string option"
  rs_body :: bytes

definition status_only :: "u16 \<Rightarrow> http_response" where
  "status_only status = \<lparr>rs_status = status, rs_content_type = None, rs_body = []\<rparr>"

section \<open>The exchange with the worker\<close>

definition exchange :: "('s, 'w) service_env \<Rightarrow> string \<Rightarrow> bytes \<Rightarrow> ('w served, bytes, task_exit) io" where
  "exchange E socket request =
     io_then (await Connect (sv_connect E socket)) (\<lambda>stream.
     io_then (await Write (sv_write E stream request)) (\<lambda>_.
     io_then (await Write (sv_shutdown E stream)) (\<lambda>_.
     io_then (await Read (sv_read E stream (RESPONSE_BYTES + 2))) (\<lambda>response.
     if response = [1] then io_of (Err (Returned Refused))
     else if response = [] then io_of (Err (Returned Eof))
     else if length response \<noteq> RESPONSE_BYTES + 1 \<or> response ! 0 \<noteq> 0 \<or> \<not> is_ok (decode_response (drop 1 response))
     then io_of (Err (Returned Frame))
     else io_of (Ok (drop 1 response))))))"

section \<open>The handler\<close>

definition headers_invalid :: "http_request \<Rightarrow> bool" where
  "headers_invalid request \<longleftrightarrow>
     fr_path request \<noteq> ''/v1/evaluate'' \<or> fr_query request \<noteq> None
     \<or> (case fr_content_types request of [] \<Rightarrow> None | v # _ \<Rightarrow> v) \<noteq> Some CONTENT_TYPE
     \<or> length (fr_content_types request) \<noteq> 1 \<or> fr_encoded request"

text \<open>What follows a valid frame: the exchange under its two-second timer, and the response to its result.\<close>

definition forward :: "('s, 'w) service_env \<Rightarrow> string \<Rightarrow> bytes \<Rightarrow> ('w served, http_response, 'e) io" where
  "forward E socket bs =
     io_then (on_service (sv_now E)) (\<lambda>started s.
     case exchange E socket bs s of
       None \<Rightarrow> None
     | Some (Ok response, s') \<Rightarrow>
         io_then (timer_finish E Ipc started Success) (\<lambda>_.
           io_of (Ok \<lparr>rs_status = 200, rs_content_type = Some CONTENT_TYPE, rs_body = response\<rparr>)) s'
     | Some (Err stop, s') \<Rightarrow>
         (let reason = (case stop of Returned reason \<Rightarrow> reason | Deadline \<Rightarrow> Timeout) in
          io_then (if reason = Frame \<or> reason = Eof
                   then emit_event E ''worker_reply_invalid'' ''ipc'' ''failure'' ''invalid_reply'' else io_of (Ok ())) (\<lambda>_.
          io_then (timer_finish E Ipc started reason) (\<lambda>_. io_of (Ok (status_only 503)))) s'))"

definition frontend_evaluate :: "('s, 'w) service_env \<Rightarrow> string \<Rightarrow> http_request \<Rightarrow> ('w served, http_response, 'e) io" where
  "frontend_evaluate E socket request =
     io_then (on_service (sv_now E)) (\<lambda>started.
     if headers_invalid request
     then io_then (timer_finish E Validation started Headers) (\<lambda>_. io_of (Ok (status_only 400)))
     else case fr_body request REQUEST_BYTES of
       None \<Rightarrow> io_then (timer_finish E Validation started Body) (\<lambda>_. io_of (Ok (status_only 400)))
     | Some bs \<Rightarrow>
         if is_ok (decode_request bs)
         then io_then (timer_finish E Validation started Success) (\<lambda>_. forward E socket bs)
         else io_then (timer_finish E Validation started Frame) (\<lambda>_. io_of (Ok (status_only 400))))"

definition status_outcome :: "u16 \<Rightarrow> stage_outcome" where
  "status_outcome status =
     (if status = 200 then Success else if status = 400 then Protocol else if status = 404 then NotFound
      else if status = 405 then Method else if status = 503 then Unavailable else Other)"

definition observe_http :: "('s, 'w) service_env \<Rightarrow> ('w served, http_response, 'e) io \<Rightarrow> ('w served, http_response, 'e) io" where
  "observe_http E next =
     io_then (on_service (sv_now E)) (\<lambda>started.
     io_then next (\<lambda>response.
     io_then (count (http_status (rs_status response))) (\<lambda>_.
     io_then (timer_finish E Http started (status_outcome (rs_status response))) (\<lambda>_. io_of (Ok response)))))"

section \<open>Admission\<close>

definition MAX_CONNECTIONS :: nat where [simp]: "MAX_CONNECTIONS = 64"

definition frontend_accept :: "bool \<Rightarrow> nat \<Rightarrow> unit admission_state \<Rightarrow> unit admission_state" where
  "frontend_accept raced now = admit raced now ''connection'' ()"

inductive frontend_reachable :: "unit admission_state \<Rightarrow> bool" where
  start: "mt_inflight m = 0 \<Longrightarrow> frontend_reachable (serve_new MAX_CONNECTIONS m)"
| accept: "frontend_reachable st \<Longrightarrow> frontend_reachable (frontend_accept raced now st)"
| task: "frontend_reachable st \<Longrightarrow> mt_inflight m = mt_inflight (ad_metrics st) \<Longrightarrow> frontend_reachable (st\<lparr>ad_metrics := m\<rparr>)"
| finish: "frontend_reachable st \<Longrightarrow> i < length (ad_running st) \<Longrightarrow> frontend_reachable (serve_finish i st)"

lemma frontend_inv: "frontend_reachable st \<Longrightarrow> admission_inv MAX_CONNECTIONS (\<lambda>_. True) st"
proof (induction rule: frontend_reachable.induct)
  case (accept st raced now)
  then show ?case unfolding frontend_accept_def by (intro inv_admit) simp_all
next
  case (finish st i)
  then show ?case by (blast intro: inv_finish)
qed (simp_all add: admission_inv_def serve_new_def list_all_iff)

section \<open>What a successful exchange has seen\<close>

lemma exchange_Ok:
  assumes "exchange E socket request s = Some (Ok response, s')"
  obtains stream w1 w2 w3 where
    "sv_connect E socket (sd_world s) = (Ready (Ok stream), w1)" "sv_write E stream request w1 = (Ready (Ok ()), w2)"
    "sv_shutdown E stream w2 = (Ready (Ok ()), w3)"
    "sv_read E stream (RESPONSE_BYTES + 2) w3 = (Ready (Ok (0 # response)), sd_world s')"
    "length response = RESPONSE_BYTES" "is_ok (decode_response response)"
proof -
  obtain stream s1 s2 s3 reply where steps:
    "await Connect (sv_connect E socket) s = Some (Ok stream, s1)" "await Write (sv_write E stream request) s1 = Some (Ok (), s2)"
    "await Write (sv_shutdown E stream) s2 = Some (Ok (), s3)"
    "await Read (sv_read E stream (RESPONSE_BYTES + 2)) s3 = Some (Ok reply, s')"
    and checks: "length reply = RESPONSE_BYTES + 1" "reply ! 0 = 0" "is_ok (decode_response (drop 1 reply))" "response = drop 1 reply"
    using assms by (auto simp: exchange_def io_simps split: if_splits)
  have await: "await q f s = Some (Ok x, s') \<Longrightarrow> f (sd_world s) = (Ready (Ok x), sd_world s')" for q f s x s'
    by (auto simp: await_def split: prod.splits awaited.splits result.splits)
  have "reply = 0 # response" using checks by (cases reply) simp_all
  then show ?thesis
    using that steps [THEN await] checks by simp
qed

lemma forward_success:
  assumes "forward E socket bs s = Some (Ok response, s')" "rs_status response = 200"
  shows "\<exists>s1 s2. exchange E socket bs s1 = Some (Ok (rs_body response), s2)"
proof -
  obtain started w where now: "sv_now E (sd_world s) = (started, w)" by (cases "sv_now E (sd_world s)")
  let ?s = "s\<lparr>sd_world := w\<rparr>"
  show ?thesis
  proof (cases "exchange E socket bs ?s")
    case None
    then show ?thesis using assms(1) now by (simp add: forward_def io_then_def on_service_def)
  next
    case (Some run)
    obtain r s2 where run: "run = (r, s2)" by (cases run)
    show ?thesis
    proof (cases r)
      case (Ok x)
      then have "rs_body response = x"
        using assms(1) now Some run by (auto simp: forward_def io_then_Ok_iff on_service_def io_simps)
      then show ?thesis using Some run Ok by blast
    next
      case (Err stop)
      then have "response = status_only 503"
        using assms(1) now Some run by (auto simp: forward_def io_then_Ok_iff on_service_def io_simps Let_def)
      then show ?thesis using assms(2) by (simp add: status_only_def)
    qed
  qed
qed

lemma evaluate_success:
  assumes "frontend_evaluate E socket request s = Some (Ok response, s')" "rs_status response = 200"
  shows "\<exists>bs s1 s2. fr_body request REQUEST_BYTES = Some bs \<and> exchange E socket bs s1 = Some (Ok (rs_body response), s2)
    \<and> is_ok (decode_request bs)"
  using assms forward_success
  by (fastforce simp: frontend_evaluate_def io_simps status_only_def split: if_splits option.splits)

end
