(* ===== verification/Unlock.thy ===== *)
theory Unlock
  imports Engine
begin

text \<open>
  The unlock operation of crates/leelo-engine: \<open>UnlockOperation\<close> and its evidence types
  (src/recovery.rs) and the public entry points \<open>unlock\<close> and \<open>unlock_observed\<close> (src/lib.rs). The policy
  session and the release gate are the two state machines of \<open>Policy_Session\<close> and \<open>Release_Gate\<close>; the
  operation threads both through its steps.
\<close>

section \<open>Evidence\<close>

record network_evidence =
  ne_context :: bytes
  ne_share :: bytes
  ne_available :: "u8 list"
  ne_diagnostics :: "provider_failure list"

record tpm_evidence =
  te_context :: bytes
  te_share :: bytes
  te_live :: bool

record payload_evidence =
  pay_context :: bytes
  pay_credential :: bytes

text \<open>\<open>leaves[0]\<close> panics on an empty list.\<close>

definition tpm_evidence_authenticate :: "('p, 'f, 'srv, 'cli, 'st, 'k, 'w) platform \<Rightarrow> unsealed_seed \<Rightarrow> authenticated_envelope
      \<Rightarrow> (tpm_evidence, engine_error) outcome" where
  "tpm_evidence_authenticate M unsealed env =
     (let d = eb_descriptor (ae_body env);
          live = (case us_authorization unsealed of FreshSessionAuthorization \<Rightarrow> True | _ \<Rightarrow> False)
      in if policy_mode (d_policy d) = Attested \<and> \<not> live then Some (Err UnsupportedMode)
         else let leaf_ctx = leaf_context (ae_context env) (policy_tpm_node_id (d_policy d))
              in run_then (Some (derive M (us_seed unsealed) leaf_ctx (ascii ''leelo/v1/tpm-wrap''))) (\<lambda>key.
                   if eb_leaves (ae_body env) = [] then None
                   else Some (map_ok (\<lambda>share. \<lparr>te_context = ae_context env, te_share = share, te_live = live\<rparr>)
                          (map_err (\<lambda>_. Crypto)
                            (open_key (prims M) key (wl_value (eb_leaves (ae_body env) ! 0)) leaf_ctx)))))"

definition payload_evidence_authenticate :: "('p, 'f, 'srv, 'cli, 'st, 'k, 'w) platform \<Rightarrow> bytes \<Rightarrow> authenticated_envelope
      \<Rightarrow> (payload_evidence, engine_error) result" where
  "payload_evidence_authenticate M root env =
     and_then (derive M root (ae_context env) (ascii ''leelo/v1/luks-slot'')) (\<lambda>key.
       map_ok (\<lambda>credential. \<lparr>pay_context = ae_context env, pay_credential = credential\<rparr>)
         (map_err (\<lambda>_. Crypto) (open_key (prims M) key (eb_payload (ae_body env)) (ae_context env))))"

section \<open>The operation\<close>

record unlock_operation =
  uo_envelope :: authenticated_envelope
  uo_deadline :: nat
  uo_policy :: policy_session
  uo_release :: gate_state

text \<open>A session call followed by \<open>?\<close>: the session after it, or the mapped error.\<close>

definition session_try :: "(unit, policy_error) result \<times> policy_session \<Rightarrow> (policy_session, engine_error) result" where
  "session_try out = (case out of (r, session) \<Rightarrow> map_ok (\<lambda>_. session) (map_err engine_policy_error r))"

text \<open>A gate call followed by \<open>if !accepted { return Err(Error::Policy) }\<close>.\<close>

definition gate_try :: "bool \<times> gate_state \<Rightarrow> (gate_state, engine_error) result" where
  "gate_try out = (case out of (accepted, gate) \<Rightarrow> if accepted then Ok gate else Err Policy)"

definition unlock_begin :: "('p, 'f, 'srv, 'cli, 'st, 'k, 'w) platform \<Rightarrow> bytes \<Rightarrow> bytes \<Rightarrow> bytes \<Rightarrow> u8 \<Rightarrow> 'w tpm_provider \<Rightarrow> nat
      \<Rightarrow> ('w op, unlock_operation, engine_error) io" where
  "unlock_begin M raw signer volume slot tpm deadline =
     io_then (io_of (map_err Envelope
        (authenticate (prims M) (voprf M) (cbor_lib M) (eddsa M) raw signer))) (\<lambda>env.
     let d = eb_descriptor (ae_body env) in
     io_then (io_report (configure (policy_mode (d_policy d)) (d_networks d))) (\<lambda>_.
     if d_volume_uuid d \<noteq> volume \<or> d_slot d \<noteq> slot then io_of (Err TargetMismatch)
     else if \<not> supports_mode tpm (policy_mode (d_policy d)) then io_of (Err UnsupportedMode) else
     io_then (check_deadline M deadline) (\<lambda>_.
     io_then (io_of (session_try (session_authenticate_envelope (session_new (d_policy d))))) (\<lambda>session.
       io_of (Ok \<lparr>uo_envelope = env, uo_deadline = deadline, uo_policy = session,
         uo_release = gate_new (ae_context env) (policy_mode (d_policy d) = Attested)\<rparr>)))))"

primrec accept_all :: "u8 list \<Rightarrow> policy_session \<Rightarrow> (policy_session, engine_error) result" where
  "accept_all [] session = Ok session"
| "accept_all (i # ids) session = and_then (session_try (accept_network i session)) (accept_all ids)"

text \<open>\<open>run\<close>, in the order of the source: the network phase, the TPM phase, the root and the payload, and the
  release. Each part returns the session and the gate it leaves behind.\<close>

definition run_network :: "('p, 'f, 'srv, 'cli, 'st, 'k, 'w) platform \<Rightarrow> 'w network_provider \<Rightarrow> schedule_event list \<Rightarrow> unlock_operation
      \<Rightarrow> ('w op, network_evidence \<times> policy_session \<times> gate_state, engine_error) io" where
  "run_network M net schedule uo =
     io_then (runtime M) (\<lambda>_.
     io_then (io_stage (clock M) Network) (\<lambda>_.
     io_then (recover_network_observed M net (uo_envelope uo) (uo_deadline uo) schedule) (\<lambda>(share, diagnostics, available).
     let evidence = \<lparr>ne_context = ae_context (uo_envelope uo), ne_share = share, ne_available = available,
           ne_diagnostics = diagnostics\<rparr> in
     io_then (io_of (accept_all (ne_available evidence) (uo_policy uo))) (\<lambda>session.
     io_then (io_of (gate_try (gate_network (ne_context evidence) (uo_release uo)))) (\<lambda>gate.
       io_of (Ok (evidence, session, gate)))))))"

definition run_tpm :: "('p, 'f, 'srv, 'cli, 'st, 'k, 'w) platform \<Rightarrow> 'w tpm_provider \<Rightarrow> unlock_operation \<Rightarrow> policy_session \<Rightarrow> gate_state
      \<Rightarrow> ('w op, tpm_evidence \<times> policy_session \<times> gate_state, engine_error) io" where
  "run_tpm M tpm uo session gate =
     io_then (check_deadline M (uo_deadline uo)) (\<lambda>_.
     io_then (io_stage (clock M) TpmUnseal) (\<lambda>_.
     io_then (io_attempt (tpm_unseal tpm (uo_envelope uo))) (\<lambda>unsealed.
     io_then (check_deadline M (uo_deadline uo)) (\<lambda>_.
     io_then (io_stage (clock M) AuthenticatePayload) (\<lambda>_.
     io_then (io_run (tpm_evidence_authenticate M unsealed (uo_envelope uo))) (\<lambda>evidence.
     io_then (io_of (if te_live evidence then session_try (confirm_live_authorization session) else Ok session)) (\<lambda>session.
     io_then (io_of (session_try (confirm_tpm session))) (\<lambda>session.
     io_then (io_of (gate_try (gate_tpm (te_context evidence) (te_live evidence) gate))) (\<lambda>gate.
       io_of (Ok (evidence, session, gate)))))))))))"

definition combine_shares :: "bytes \<Rightarrow> bytes \<Rightarrow> (bytes, engine_error) result" where
  "combine_shares tpm_share network_share =
     and_then (map_err (\<lambda>_. Sharing) (from_parts 1 tpm_share)) (\<lambda>first.
     and_then (map_err (\<lambda>_. Sharing) (from_parts 2 network_share)) (\<lambda>second.
       map_err (\<lambda>_. Sharing) (reconstruct 2 [first, second])))"

definition run_release :: "('p, 'f, 'srv, 'cli, 'st, 'k, 'w) platform \<Rightarrow> unlock_operation \<Rightarrow> payload_evidence \<Rightarrow> policy_session \<Rightarrow> gate_state
      \<Rightarrow> ('w op, unit, engine_error) io" where
  "run_release M uo payload session gate =
     io_then (io_of (session_try (session_authenticate_root session))) (\<lambda>session.
     io_then (io_of (gate_try (gate_payload (pay_context payload) gate))) (\<lambda>gate.
     io_then (check_deadline M (uo_deadline uo)) (\<lambda>_.
     io_then (io_of (session_try (session_release session))) (\<lambda>_.
     io_then (io_world (clock M)) (\<lambda>now.
       if \<not> fst (gate_release (pay_context payload) (now < uo_deadline uo) gate)
       then io_then (check_deadline M (uo_deadline uo)) (\<lambda>_. io_of (Err Policy))
       else io_of (Ok ()))))))"

definition unlock_run :: "('p, 'f, 'srv, 'cli, 'st, 'k, 'w) platform \<Rightarrow> 'w network_provider \<Rightarrow> 'w tpm_provider \<Rightarrow> schedule_event list
      \<Rightarrow> unlock_operation \<Rightarrow> ('w op, unlock_result, engine_error) io" where
  "unlock_run M net tpm schedule uo =
     io_then (run_network M net schedule uo) (\<lambda>(network, session, gate).
     io_then (run_tpm M tpm uo session gate) (\<lambda>(tpm_ev, session, gate).
     io_then (io_of (combine_shares (te_share tpm_ev) (ne_share network))) (\<lambda>root.
     io_then (io_of (payload_evidence_authenticate M root (uo_envelope uo))) (\<lambda>payload.
     io_then (run_release M uo payload session gate) (\<lambda>_.
       io_of (Ok \<lparr>ur_credential = pay_credential payload, ur_diagnostics = ne_diagnostics network\<rparr>))))))"

definition unlock_before_observed :: "('p, 'f, 'srv, 'cli, 'st, 'k, 'w) platform \<Rightarrow> bytes \<Rightarrow> bytes \<Rightarrow> bytes \<Rightarrow> u8 \<Rightarrow> 'w network_provider
      \<Rightarrow> 'w tpm_provider \<Rightarrow> nat \<Rightarrow> schedule_event list \<Rightarrow> ('w op, unlock_result, engine_error) io" where
  "unlock_before_observed M raw signer volume slot net tpm deadline schedule =
     io_then (unlock_begin M raw signer volume slot tpm deadline) (unlock_run M net tpm schedule)"

definition unlock_observed :: "('p, 'f, 'srv, 'cli, 'st, 'k, 'w) platform \<Rightarrow> bytes \<Rightarrow> bytes \<Rightarrow> bytes \<Rightarrow> u8 \<Rightarrow> 'w network_provider
      \<Rightarrow> 'w tpm_provider \<Rightarrow> schedule_event list \<Rightarrow> ('w op, unlock_result, engine_error) io" where
  "unlock_observed M raw signer volume slot net tpm schedule =
     io_then (io_world (clock M)) (\<lambda>started.
     io_then (io_begin (clock M) Recover) (\<lambda>_.
       io_finish (clock M) started
         (unlock_before_observed M raw signer volume slot net tpm (started + OPERATION_BUDGET) schedule)))"

text \<open>The entry points without a report run on a default report and drop it.\<close>

definition without_report :: "('w op, 'a, engine_error) io \<Rightarrow> 'w \<Rightarrow> (('a, engine_error) result \<times> 'w) option" where
  "without_report m w =
     map_option (\<lambda>(r, s). (r, op_world s)) (m \<lparr>op_world = w, op_report = report_default\<rparr>)"

definition prepare :: "('p, 'f, 'srv, 'cli, 'st, 'k, 'w) platform \<Rightarrow> 'w network_provider \<Rightarrow> 'w tpm_provider \<Rightarrow> descriptor \<Rightarrow> 'k \<Rightarrow> 'w
      \<Rightarrow> ((prepared_enrollment, engine_error) result \<times> 'w) option" where
  "prepare M net tpm d signer = without_report (prepare_observed M net tpm d signer)"

definition unlock :: "('p, 'f, 'srv, 'cli, 'st, 'k, 'w) platform \<Rightarrow> bytes \<Rightarrow> bytes \<Rightarrow> bytes \<Rightarrow> u8 \<Rightarrow> 'w network_provider
      \<Rightarrow> 'w tpm_provider \<Rightarrow> schedule_event list \<Rightarrow> 'w \<Rightarrow> ((unlock_result, engine_error) result \<times> 'w) option" where
  "unlock M raw signer volume slot net tpm schedule =
     without_report (unlock_observed M raw signer volume slot net tpm schedule)"

end
