(* ===== verification/Engine_Recovery.thy ===== *)
theory Engine_Recovery
  imports Unlock
begin

text \<open>
  The concurrent network recovery of crates/leelo-engine/src/lib.rs. \<open>recovery_inv\<close> is the invariant of
  the loop over every schedule: the available, pending and remaining leaves are pairwise different
  bindings of the descriptor, and at most four are in flight. \<open>recovery_good\<close> adds that the policy is not
  yet satisfied and that every recovered share was authenticated. \<open>queue_inv\<close> and \<open>history_inv\<close> say that leaves
  are started in order and handled once. One step lemma carries the results:
  the loop never panics, returns only authenticated quorums, gives up only without a quorum, and
  returns by the deadline event at the latest.
\<close>

section \<open>Inversion of the state steps\<close>

lemma io_world_iff [io_simps]:
  "io_world f s = Some (r, t) \<longleftrightarrow> (\<exists>x w. f (op_world s) = (x, w) \<and> r = Ok x \<and> t = s\<lparr>op_world := w\<rparr>)"
  "io_world f s \<noteq> None"
  by (auto simp: io_world_def split: prod.splits)

lemma io_attempt_iff [io_simps]:
  "io_attempt f s = Some (r, t) \<longleftrightarrow> (\<exists>w. f (op_world s) = (r, w) \<and> t = s\<lparr>op_world := w\<rparr>)"
  "io_attempt f s \<noteq> None"
  by (auto simp: io_attempt_def split: prod.splits)

lemma io_report_iff [io_simps]:
  "io_report f s = Some (r, t) \<longleftrightarrow> r = Ok () \<and> t = s\<lparr>op_report := f (op_report s)\<rparr>"
  "io_report f s \<noteq> None"
  by (auto simp: io_report_def)

lemma io_stage_Ok [io_simps]:
  "io_stage clk stage s = Some (r, t) \<longleftrightarrow> (\<exists>rep w. enter_stage clk stage (op_report s) (op_world s) = (rep, w)
     \<and> r = Ok () \<and> t = s\<lparr>op_world := w, op_report := rep\<rparr>)"
  "io_stage clk stage s \<noteq> None"
  by (auto simp: io_stage_def split: prod.splits)

lemma io_then_total:
  "\<lbrakk>\<exists>s'. m s = Some (Ok x, s'); \<And>s'. \<exists>t. f x s' = Some (Ok y, t)\<rbrakk> \<Longrightarrow> \<exists>t. io_then m f s = Some (Ok y, t)"
  by (auto simp: io_then_def)

lemma io_provider_total: "\<exists>s'. io_provider clk index outcome started s = Some (Ok (), s')"
  by (auto simp: io_provider_def io_then_def io_world_def io_report_def split: prod.splits)

lemma cancel_observation_total: "\<exists>s'. cancel_observation clk outcome index start s = Some (Ok (), s')"
  using io_provider_total [of clk index outcome "the start" s]
  by (cases start) (auto simp: cancel_observation_def)

lemma cancel_observations_from_total:
  "\<exists>s'. cancel_observations_from clk outcome index starts s = Some (Ok (), s')"
proof (induction starts arbitrary: index s)
  case (Cons start starts)
  show ?case
    unfolding cancel_observations_from.simps
    by (rule io_then_total [OF cancel_observation_total]) (rule Cons.IH)
qed (simp add: io_of_def)

lemma cancel_observations_total: "\<exists>s'. cancel_observations clk starts outcome s = Some (Ok (), s')"
  by (simp add: cancel_observations_def cancel_observations_from_total)

section \<open>Descriptors the engine runs on\<close>

definition valid_descriptor :: "('p, 'f, 'srv, 'cli, 'st, 'k, 'w) platform \<Rightarrow> descriptor \<Rightarrow> bool" where
  "valid_descriptor M d \<longleftrightarrow> wf_descriptor d \<and> validate_descriptor (prims M) (voprf M) d = Ok ()"

lemma context_hash_valid:
  "wf_descriptor d \<Longrightarrow> context_hash (prims M) (voprf M) C d = Ok context \<Longrightarrow> valid_descriptor M d"
  by (auto simp: valid_descriptor_def context_hash_def descriptor_bytes_def result_simps)

lemma authenticated_valid:
  assumes "authenticate (prims M) (voprf M) (cbor_lib M) (eddsa M) raw signer = Ok env"
  shows "valid_descriptor M (eb_descriptor (ae_body env))"
    "context_hash (prims M) (voprf M) (cbor_lib M) (eb_descriptor (ae_body env)) = Ok (ae_context env)"
    "\<exists>encoded. body_bytes (prims M) (voprf M) (cbor_lib M) (ae_body env) = Ok encoded"
proof -
  show c: "context_hash (prims M) (voprf M) (cbor_lib M) (eb_descriptor (ae_body env)) = Ok (ae_context env)"
    using assms by (rule authenticate_Ok)
  show "\<exists>encoded. body_bytes (prims M) (voprf M) (cbor_lib M) (ae_body env) = Ok encoded"
    using assms by (rule authenticate_Ok) blast
  have "wf_body (ae_body env)" using assms by (rule authenticate_Ok)
  then show "valid_descriptor M (eb_descriptor (ae_body env))"
    using c by (intro context_hash_valid) (simp_all add: wf_body_def)
qed

lemma valid_descriptor_facts:
  assumes "valid_descriptor M d"
  shows "production_policy_new (policy_mode (d_policy d)) (policy_tpm_node_id (d_policy d))
      (policy_network (d_policy d)) = Ok (d_policy d)"
    "wf_node (policy_network (d_policy d))"
    "map nb_node_id (d_networks d) = network_leaf_ids (d_policy d)"
    "distinct (map nb_node_id (d_networks d))" "length (d_networks d) \<le> 29"
    "thresholds_valid (policy_network (d_policy d))"
proof -
  have wf: "wf_policy (d_policy d)" and v: "validate_descriptor (prims M) (voprf M) d = Ok ()"
    using assms by (simp_all add: valid_descriptor_def wf_descriptor_def)
  then show p: "production_policy_new (policy_mode (d_policy d)) (policy_tpm_node_id (d_policy d))
      (policy_network (d_policy d)) = Ok (d_policy d)" "wf_node (policy_network (d_policy d))"
    by (simp_all add: wf_policy_def)
  note facts = new_policy [OF p]
  note leaves = validate_descriptor_Ok(1) [OF v]
  have ids: "network_leaf_ids (d_policy d) = map fst (network_leaves (d_policy d))"
    by (auto simp: network_leaf_ids_def network_leaves_def)
  then show "map nb_node_id (d_networks d) = network_leaf_ids (d_policy d)"
    by (simp add: leaves comp_def)
  then show "distinct (map nb_node_id (d_networks d))"
    using facts(3) ids by (simp add: network_leaves_def)
  show "length (d_networks d) \<le> 29"
    using wf_policy_bounds(5) [OF wf] leaves by simp
  show "thresholds_valid (policy_network (d_policy d))"
    using facts(1) by (simp add: admissible_def)
qed

section \<open>The invariant of the loop\<close>

abbreviation future_id :: "'cli leaf_future \<Rightarrow> u8" where
  "future_id f \<equiv> nb_node_id (lf_binding f)"

definition leaf_ids :: "'cli recovery \<Rightarrow> u8 list" where
  "leaf_ids st = rec_available st @ map future_id (rec_pending st) @ map (nb_node_id \<circ> snd) (rec_remaining st)"

definition recovery_inv :: "network_binding list \<Rightarrow> 'cli recovery \<Rightarrow> bool" where
  "recovery_inv networks st \<longleftrightarrow>
     length (rec_starts st) = MAX_PROVIDER_OBSERVATIONS
     \<and> distinct (leaf_ids st)
     \<and> set (rec_available st) \<subseteq> nb_node_id ` set networks
     \<and> (\<forall>f\<in>set (rec_pending st). lf_index f < length networks \<and> lf_binding f = networks ! lf_index f)
     \<and> (\<forall>(i, b)\<in>set (rec_remaining st). i < length networks \<and> b = networks ! i)
     \<and> map fst (rec_recovered st) = rec_available st
     \<and> length (rec_pending st) \<le> MAX_NETWORK_OPERATIONS"

text \<open>\<open>room_for b st\<close>: the leaf \<open>b\<close> has just left the pending set.\<close>

definition room_for :: "network_binding list \<Rightarrow> network_binding \<Rightarrow> 'cli recovery \<Rightarrow> bool" where
  "room_for networks b st \<longleftrightarrow> recovery_inv networks st \<and> b \<in> set networks
     \<and> length (rec_pending st) < MAX_NETWORK_OPERATIONS
     \<and> nb_node_id b \<notin> set (leaf_ids st)"

lemma push_leaf_inv:
  assumes "recovery_inv networks st" "length networks \<le> MAX_PROVIDER_OBSERVATIONS"
    and "length (rec_pending st) < MAX_NETWORK_OPERATIONS" "rec_remaining st = (i, b) # rest"
  shows "\<exists>st'. push_leaf (i, b) (st\<lparr>rec_remaining := rest\<rparr>) = Some st' \<and> recovery_inv networks st'
    \<and> rec_available st' = rec_available st \<and> rec_recovered st' = rec_recovered st \<and> rec_failures st' = rec_failures st
    \<and> (\<forall>f\<in>set (rec_pending st'). f \<in> set (rec_pending st) \<or> lf_phase f = Unpolled)"
proof -
  let ?st = "st\<lparr>rec_remaining := rest, rec_pending := rec_pending st @ [\<lparr>lf_index = i, lf_binding = b, lf_phase = Unpolled\<rparr>]\<rparr>"
  have "leaf_ids ?st = leaf_ids st" using assms(4) by (simp add: leaf_ids_def)
  moreover have "push_leaf (i, b) (st\<lparr>rec_remaining := rest\<rparr>) = Some ?st"
    using assms by (auto simp: push_leaf_def recovery_inv_def)
  ultimately show ?thesis
    using assms by (auto simp: recovery_inv_def)
qed

lemma start_next_inv:
  assumes "recovery_inv networks st" "length networks \<le> MAX_PROVIDER_OBSERVATIONS"
    and "length (rec_pending st) < MAX_NETWORK_OPERATIONS"
  shows "\<exists>st'. start_next st = Some st' \<and> recovery_inv networks st'
    \<and> rec_available st' = rec_available st \<and> rec_recovered st' = rec_recovered st \<and> rec_failures st' = rec_failures st
    \<and> (\<forall>f\<in>set (rec_pending st'). f \<in> set (rec_pending st) \<or> lf_phase f = Unpolled)"
  using push_leaf_inv [OF assms] assms(1)
  by (cases "rec_remaining st") (auto simp: start_next_def)

lemma pending_unique:
  assumes "recovery_inv networks st" "f \<in> set (rec_pending st)" "g \<in> set (rec_pending st)" "lf_index f = lf_index g"
  shows "f = g"
proof -
  have "inj_on future_id (set (rec_pending st))"
    using assms(1) by (simp add: recovery_inv_def leaf_ids_def distinct_map)
  moreover have "future_id f = future_id g" using assms by (simp add: recovery_inv_def)
  ultimately show ?thesis using assms(2,3) by (auto dest: inj_onD)
qed

lemma find_pending:
  assumes "find (\<lambda>f. lf_index f = index) (rec_pending st) = Some f"
  shows "f \<in> set (rec_pending st)" "lf_index f = index"
  using assms by (auto simp: find_Some_iff)

lemma drop_leaf_room:
  assumes "recovery_inv networks st" "find (\<lambda>f. lf_index f = index) (rec_pending st) = Some f"
  shows "room_for networks (lf_binding f) (drop_leaf index st)"
proof -
  note f = find_pending [OF assms(2)]
  obtain pre post where split: "rec_pending st = pre @ f # post" using f(1) by (metis split_list)
  have ids: "distinct (leaf_ids st)" using assms(1) by (simp add: recovery_inv_def)
  then have "g \<noteq> f" if "g \<in> set pre \<union> set post" for g using that split by (auto simp: leaf_ids_def)
  then have "lf_index g \<noteq> index" if "g \<in> set pre \<union> set post" for g
    using pending_unique [OF assms(1), of g f] that f(2) split by auto
  then have rest: "filter (\<lambda>g. lf_index g \<noteq> index) (rec_pending st) = pre @ post"
    using split f(2) by (auto simp: filter_id_conv)
  then have "leaf_ids (drop_leaf index st) = rec_available st @ map future_id (pre @ post)
      @ map (nb_node_id \<circ> snd) (rec_remaining st)"
    by (simp add: leaf_ids_def drop_leaf_def)
  then have "distinct (leaf_ids (drop_leaf index st))" "future_id f \<notin> set (leaf_ids (drop_leaf index st))"
    using ids split by (auto simp: leaf_ids_def)
  moreover have "lf_binding f \<in> set networks"
    using assms(1) f(1) by (auto simp: recovery_inv_def)
  ultimately show ?thesis
    using assms(1) split rest by (auto simp: room_for_def recovery_inv_def drop_leaf_def)
qed

lemma record_leaf_inv:
  assumes "room_for networks b st"
  shows "recovery_inv networks (record_leaf b result st)"
    "rec_pending (record_leaf b result st) = rec_pending st" "rec_starts (record_leaf b result st) = rec_starts st"
proof -
  have ids: "distinct (leaf_ids st)" "nb_node_id b \<notin> set (leaf_ids st)"
    using assms by (simp_all add: room_for_def recovery_inv_def)
  have "distinct (leaf_ids (record_leaf b result st))"
    using ids by (cases result) (auto simp: record_leaf_def leaf_ids_def)
  then show "recovery_inv networks (record_leaf b result st)"
    using assms by (auto simp: room_for_def recovery_inv_def record_leaf_def split: result.splits)
qed (auto simp: record_leaf_def split: result.splits)

lemma starts_update_inv:
  "recovery_inv networks (st\<lparr>rec_starts := (rec_starts st)[i := v]\<rparr>) \<longleftrightarrow> recovery_inv networks st"
  by (simp add: recovery_inv_def leaf_ids_def)

lemma waiting_inv:
  assumes "recovery_inv networks st"
  shows "recovery_inv networks (st\<lparr>rec_pending := map (\<lambda>f. if lf_index f = index
    then f\<lparr>lf_phase := Waiting state blinded\<rparr> else f) (rec_pending st)\<rparr>)"
proof -
  let ?pending = "map (\<lambda>f. if lf_index f = index then f\<lparr>lf_phase := Waiting state blinded\<rparr> else f) (rec_pending st)"
  have "map future_id ?pending = map future_id (rec_pending st)" by auto
  then have "leaf_ids (st\<lparr>rec_pending := ?pending\<rparr>) = leaf_ids st" by (simp add: leaf_ids_def del: map_map)
  then show ?thesis
    using assms unfolding recovery_inv_def by auto
qed

section \<open>One event\<close>

definition leaf_authentic :: "('p, 'f, 'srv, 'cli, 'st, 'k, 'w) platform \<Rightarrow> 'w network_provider
      \<Rightarrow> authenticated_envelope \<Rightarrow> nat \<Rightarrow> u8 \<Rightarrow> bytes \<Rightarrow> bool" where
  "leaf_authentic M net env deadline i share \<longleftrightarrow> (\<exists>b\<in>set (d_networks (eb_descriptor (ae_body env))). nb_node_id b = i
     \<and> (\<exists>state blinded answer w1 w1' w2 w2'.
          network_key_started M (eb_descriptor (ae_body env)) b w1 = (Ok (state, blinded), w1')
          \<and> net b blinded deadline w2 = (answer, w2')
          \<and> recover_leaf_answered M env b state answer = Ok share))"

abbreviation env_policy :: "authenticated_envelope \<Rightarrow> production_policy" where
  "env_policy env \<equiv> d_policy (eb_descriptor (ae_body env))"

abbreviation env_networks :: "authenticated_envelope \<Rightarrow> network_binding list" where
  "env_networks env \<equiv> d_networks (eb_descriptor (ae_body env))"

text \<open>A waiting future holds the blinding its own first poll made.\<close>

definition future_good :: "('p, 'f, 'srv, 'cli, 'st, 'k, 'w) platform \<Rightarrow> descriptor \<Rightarrow> 'cli leaf_future \<Rightarrow> bool" where
  "future_good M d f \<longleftrightarrow>
     (case lf_phase f of
        Unpolled \<Rightarrow> True
      | Waiting state blinded \<Rightarrow> \<exists>w w'. network_key_started M d (lf_binding f) w = (Ok (state, blinded), w'))"

definition recovery_good :: "('p, 'f, 'srv, 'cli, 'st, 'k, 'w) platform \<Rightarrow> 'w network_provider
      \<Rightarrow> authenticated_envelope \<Rightarrow> nat \<Rightarrow> 'cli recovery \<Rightarrow> bool" where
  "recovery_good M net env deadline st \<longleftrightarrow> recovery_inv (env_networks env) st
     \<and> \<not> satisfied (\<lambda>i. i \<in> set (rec_available st)) (policy_network (env_policy env))
     \<and> (\<forall>f\<in>set (rec_pending st). future_good M (eb_descriptor (ae_body env)) f)
     \<and> (\<forall>(i, share)\<in>set (rec_recovered st). leaf_authentic M net env deadline i share)"

definition authentic_quorum :: "('p, 'f, 'srv, 'cli, 'st, 'k, 'w) platform \<Rightarrow> 'w network_provider
      \<Rightarrow> authenticated_envelope \<Rightarrow> nat
      \<Rightarrow> u8 list \<Rightarrow> network_share list \<Rightarrow> bool" where
  "authentic_quorum M net env deadline available recovered \<longleftrightarrow>
     map fst recovered = available \<and> distinct available
     \<and> set available \<subseteq> set (network_leaf_ids (env_policy env))
     \<and> satisfied (\<lambda>i. i \<in> set available) (policy_network (env_policy env))
     \<and> (\<forall>(i, share)\<in>set recovered. leaf_authentic M net env deadline i share)"

text \<open>What one event may do: continue in a good state, return a recovered quorum, or fail.\<close>

definition step_allowed :: "('p, 'f, 'srv, 'cli, 'st, 'k, 'w) platform \<Rightarrow> 'w network_provider
      \<Rightarrow> authenticated_envelope \<Rightarrow> nat
      \<Rightarrow> (network_recovery + 'cli recovery, engine_error) result \<Rightarrow> bool" where
  "step_allowed M net env deadline r \<longleftrightarrow>
     (case r of
        Ok (Inr st) \<Rightarrow> recovery_good M net env deadline st
      | Ok (Inl (share, failures, available)) \<Rightarrow>
          (\<exists>recovered. authentic_quorum M net env deadline available recovered
             \<and> recover_network (env_policy env) recovered = Some (Ok share))
      | Err e \<Rightarrow> (\<exists>failures. e = DeadlineExceeded failures)
          \<or> (\<exists>recovered available policy_err. authentic_quorum M net env deadline available recovered
               \<and> recover_network (env_policy env) recovered = Some (Err policy_err)
               \<and> e = engine_policy_error policy_err))"

lemma observe_leaf_total:
  assumes "length networks \<le> length starts"
  shows "\<exists>s'. observe_leaf clk networks starts i result s = Some (Ok (), s')"
proof (cases "position (\<lambda>b. nb_node_id b = i) networks")
  case (Some index)
  then have "\<not> length starts \<le> index" using position_SomeD [OF Some] assms by simp
  then show ?thesis
    using Some io_provider_total
    by (cases "starts ! index") (simp_all add: observe_leaf_def io_report_def)
qed (simp add: observe_leaf_def io_of_def)

lemma settle_leaf_eq:
  assumes valid: "valid_descriptor M d" and room: "room_for (d_networks d) b st"
    and st1: "st1 = record_leaf b result st"
  shows "\<exists>s'. settle_leaf M d b result st s =
    (if satisfied (\<lambda>i. i \<in> set (rec_available st1)) (policy_network (d_policy d))
     then map_option (\<lambda>r. (map_ok (\<lambda>share. Inl (share, rec_failures st1, rec_available st1))
            (map_err engine_policy_error r), s')) (recover_network (d_policy d) (rec_recovered st1))
     else map_option (\<lambda>st'. (Ok (Inr st'), s')) (start_next st1))"
proof -
  note facts = valid_descriptor_facts [OF valid]
  note inv = record_leaf_inv [OF room, of result, folded st1]
  have small: "length (d_networks d) \<le> length (rec_starts st)"
    using facts(5) room by (simp add: room_for_def recovery_inv_def)
  have avail: "distinct (rec_available st1)" "set (rec_available st1) \<subseteq> set (network_leaf_ids (d_policy d))"
    using inv(1) arg_cong [OF facts(3), of set] by (auto simp: recovery_inv_def leaf_ids_def)
  have sat: "network_satisfied (d_policy d) (rec_available st1) =
      Ok (satisfied (\<lambda>i. i \<in> set (rec_available st1)) (policy_network (d_policy d)))"
    using network_satisfied_iff [OF facts(2,1)] avail by blast
  obtain s1 where observed: "observe_leaf (clock M) (d_networks d) (rec_starts st) (nb_node_id b) result s
      = Some (Ok () :: (unit, engine_error) result, s1)"
    using observe_leaf_total [OF small] by blast
  obtain s2 where cancelled: "cancel_observations (clock M) (rec_starts st1) CanceledQuorum s1 =
      Some (Ok () :: (unit, engine_error) result, s2)"
    using cancel_observations_total by blast
  show ?thesis
  proof (cases "satisfied (\<lambda>i. i \<in> set (rec_available st1)) (policy_network (d_policy d))")
    case True
    have "recover_network (d_policy d) (rec_recovered st1) \<noteq> None"
      by (rule recover_network_returns [OF facts(2,1)])
    then obtain out where "recover_network (d_policy d) (rec_recovered st1) = Some out" by blast
    then show ?thesis
      using observed cancelled sat True st1
      by (cases out) (auto simp: settle_leaf_def io_then_def io_map_err_def io_run_def io_of_def Let_def)
  next
    case False
    then show ?thesis
      using observed sat st1 by (cases "start_next st1") (auto simp: settle_leaf_def io_then_def io_run_def Let_def)
  qed
qed

lemma settle_leaf_allowed:
  assumes valid: "valid_descriptor M (eb_descriptor (ae_body env))"
    and room: "room_for (env_networks env) b st"
    and good: "\<not> satisfied (\<lambda>i. i \<in> set (rec_available st)) (policy_network (env_policy env))"
      "\<forall>(i, share)\<in>set (rec_recovered st). leaf_authentic M net env deadline i share"
      "\<forall>f\<in>set (rec_pending st). future_good M (eb_descriptor (ae_body env)) f"
    and new: "\<And>share. result = Ok share \<Longrightarrow> leaf_authentic M net env deadline (nb_node_id b) share"
  shows "\<exists>r s'. settle_leaf M (eb_descriptor (ae_body env)) b result st s = Some (r, s') \<and> step_allowed M net env deadline r"
proof -
  note facts = valid_descriptor_facts [OF valid]
  let ?st = "record_leaf b result st"
  note inv = record_leaf_inv [OF room, of result]
  obtain s' where settled: "settle_leaf M (eb_descriptor (ae_body env)) b result st s =
    (if satisfied (\<lambda>i. i \<in> set (rec_available ?st)) (policy_network (env_policy env))
     then map_option (\<lambda>r. (map_ok (\<lambda>share. Inl (share, rec_failures ?st, rec_available ?st))
            (map_err engine_policy_error r), s')) (recover_network (env_policy env) (rec_recovered ?st))
     else map_option (\<lambda>st'. (Ok (Inr st'), s')) (start_next ?st))"
    using settle_leaf_eq [OF valid room refl] by blast
  have auth: "\<forall>(i, share)\<in>set (rec_recovered ?st). leaf_authentic M net env deadline i share"
    using good(2) new by (auto simp: record_leaf_def split: result.splits)
  show ?thesis
  proof (cases "satisfied (\<lambda>i. i \<in> set (rec_available ?st)) (policy_network (env_policy env))")
    case True
    have "distinct (rec_available ?st)" "set (rec_available ?st) \<subseteq> set (network_leaf_ids (env_policy env))"
      "map fst (rec_recovered ?st) = rec_available ?st"
      using inv(1) arg_cong [OF facts(3), of set] by (auto simp: recovery_inv_def leaf_ids_def)
    then have quorum: "authentic_quorum M net env deadline (rec_available ?st) (rec_recovered ?st)"
      using True auth by (simp add: authentic_quorum_def)
    have "recover_network (env_policy env) (rec_recovered ?st) \<noteq> None"
      by (rule recover_network_returns [OF facts(2,1)])
    then obtain out where "recover_network (env_policy env) (rec_recovered ?st) = Some out" by blast
    then show ?thesis
      using settled True quorum by (cases out) (auto simp: step_allowed_def)
  next
    case False
    have "length (rec_pending ?st) < MAX_NETWORK_OPERATIONS"
      using room inv(2) by (simp add: room_for_def)
    moreover have "length (env_networks env) \<le> MAX_PROVIDER_OBSERVATIONS" using facts(5) by simp
    ultimately obtain st' where st': "start_next ?st = Some st'" "recovery_inv (env_networks env) st'"
        "rec_available st' = rec_available ?st" "rec_recovered st' = rec_recovered ?st"
        "\<forall>f\<in>set (rec_pending st'). f \<in> set (rec_pending st) \<or> lf_phase f = Unpolled"
      using start_next_inv [OF inv(1)] unfolding inv(2) by blast
    then have "settle_leaf M (eb_descriptor (ae_body env)) b result st s = Some (Ok (Inr st'), s')"
      using settled False by simp
    moreover have "\<forall>f\<in>set (rec_pending st'). future_good M (eb_descriptor (ae_body env)) f"
      using st'(5) good(3) by (auto simp: future_good_def split: leaf_phase.splits)
    ultimately show ?thesis
      using st' False auth by (auto simp: step_allowed_def recovery_good_def)
  qed
qed

lemma drop_leaf_pending: "set (rec_pending (drop_leaf index st)) \<subseteq> set (rec_pending st)"
  by (auto simp: drop_leaf_def)

lemma drop_leaf_fields [simp]:
  "rec_available (drop_leaf index st) = rec_available st" "rec_recovered (drop_leaf index st) = rec_recovered st"
  "rec_starts (drop_leaf index st) = rec_starts st" "rec_failures (drop_leaf index st) = rec_failures st"
  "rec_remaining (drop_leaf index st) = rec_remaining st"
  by (simp_all add: drop_leaf_def)

lemma poll_leaf_allowed:
  assumes valid: "valid_descriptor M (eb_descriptor (ae_body env))" and good: "recovery_good M net env deadline st"
    and f: "find (\<lambda>f. lf_index f = index) (rec_pending st) = Some f"
  shows "\<exists>r s'. poll_leaf M (eb_descriptor (ae_body env)) index (lf_binding f) st s = Some (r, s') \<and> step_allowed M net env deadline r"
proof -
  obtain now w1 where now: "clock M (op_world s) = (now, w1)" by fastforce
  obtain r1 w2 where started: "network_key_started M (eb_descriptor (ae_body env)) (lf_binding f) w1 = (r1, w2)"
    by fastforce
  let ?st = "st\<lparr>rec_starts := (rec_starts st)[index := Some now]\<rparr>"
  have good': "recovery_good M net env deadline ?st"
    using good by (simp add: recovery_good_def starts_update_inv)
  show ?thesis
  proof (cases r1)
    case (Ok out)
    obtain state blinded where out: "out = (state, blinded)" by fastforce
    have "future_good M (eb_descriptor (ae_body env)) (g\<lparr>lf_phase := Waiting state blinded\<rparr>)"
      if "g \<in> set (rec_pending st)" "lf_index g = index" for g
    proof -
      have "g = f" using pending_unique [of _ st g f] good find_pending [OF f] that by (auto simp: recovery_good_def)
      then show ?thesis using started Ok out by (simp add: future_good_def) blast
    qed
    then have "\<forall>g\<in>set (map (\<lambda>f. if lf_index f = index then f\<lparr>lf_phase := Waiting state blinded\<rparr> else f) (rec_pending ?st)).
        future_good M (eb_descriptor (ae_body env)) g"
      using good by (auto simp: recovery_good_def)
    then have "recovery_good M net env deadline (?st\<lparr>rec_pending := map (\<lambda>f. if lf_index f = index
        then f\<lparr>lf_phase := Waiting state blinded\<rparr> else f) (rec_pending ?st)\<rparr>)"
      using good' waiting_inv [of _ ?st index state blinded] by (simp add: recovery_good_def del: set_map)
    then show ?thesis
      using now started Ok out
      by (auto simp: poll_leaf_def io_then_def io_world_def io_of_def Let_def step_allowed_def)
  next
    case (Err kind)
    have "find (\<lambda>f. lf_index f = index) (rec_pending ?st) = Some f" using f by simp
    then have "room_for (env_networks env) (lf_binding f) (drop_leaf index ?st)"
      using good' by (intro drop_leaf_room) (simp_all add: recovery_good_def)
    moreover have "\<forall>f\<in>set (rec_pending (drop_leaf index ?st)). future_good M (eb_descriptor (ae_body env)) f"
      using good' drop_leaf_pending [of index ?st] unfolding recovery_good_def by blast
    ultimately have "\<exists>r s'. settle_leaf M (eb_descriptor (ae_body env)) (lf_binding f) (Err kind) (drop_leaf index ?st)
        (s\<lparr>op_world := w2\<rparr>) = Some (r, s') \<and> step_allowed M net env deadline r"
      using good' by (intro settle_leaf_allowed [OF valid]) (simp_all add: recovery_good_def)
    then show ?thesis
      using now started Err by (simp add: poll_leaf_def io_then_def io_world_def Let_def)
  qed
qed

lemma answer_leaf_allowed:
  assumes valid: "valid_descriptor M (eb_descriptor (ae_body env))" and good: "recovery_good M net env deadline st"
    and f: "find (\<lambda>f. lf_index f = index) (rec_pending st) = Some f"
    and waiting: "lf_phase f = Waiting state blinded"
  shows "\<exists>r s'. answer_leaf M net env deadline index (lf_binding f) state blinded st s = Some (r, s') \<and> step_allowed M net env deadline r"
proof -
  obtain answer w1 where answer: "net (lf_binding f) blinded deadline (op_world s) = (answer, w1)" by fastforce
  have room: "room_for (env_networks env) (lf_binding f) (drop_leaf index st)"
    using good f by (intro drop_leaf_room) (simp_all add: recovery_good_def)
  have "\<exists>w w'. network_key_started M (eb_descriptor (ae_body env)) (lf_binding f) w = (Ok (state, blinded), w')"
    using good find_pending(1) [OF f] waiting by (auto simp: recovery_good_def future_good_def split: leaf_phase.splits)
  then have "leaf_authentic M net env deadline (nb_node_id (lf_binding f)) share"
    if "recover_leaf_answered M env (lf_binding f) state answer = Ok share" for share
    using that room answer unfolding leaf_authentic_def room_for_def by blast
  moreover have "\<forall>f\<in>set (rec_pending (drop_leaf index st)). future_good M (eb_descriptor (ae_body env)) f"
    using good drop_leaf_pending [of index st] by (auto simp: recovery_good_def)
  ultimately have "\<exists>r s'. settle_leaf M (eb_descriptor (ae_body env)) (lf_binding f)
      (recover_leaf_answered M env (lf_binding f) state answer) (drop_leaf index st) (s\<lparr>op_world := w1\<rparr>) = Some (r, s')
      \<and> step_allowed M net env deadline r"
    using good by (intro settle_leaf_allowed [OF valid room]) (simp_all add: recovery_good_def)
  then show ?thesis
    using answer by (simp add: answer_leaf_def io_then_def io_world_def)
qed

lemma recovery_deadline_fails:
  "\<exists>s'. recovery_deadline M networks st s = Some (Err (DeadlineExceeded (add_timeouts (rec_available st)
     (take (length networks - length (rec_remaining st)) networks) (rec_failures st))), s')"
proof -
  obtain s' where "cancel_observations (clock M) (rec_starts st) CanceledDeadline s =
      Some (Ok () :: (unit, engine_error) result, s')"
    using cancel_observations_total by blast
  then show ?thesis by (simp add: recovery_deadline_def io_then_def io_of_def)
qed

lemma recovery_step_deadline:
  "\<exists>failures s'. recovery_step M net env deadline Deadline_Fires st s = Some (Err (DeadlineExceeded failures), s')"
  using recovery_deadline_fails [of M "env_networks env" st s] by (simp add: recovery_step_def) blast

lemma recovery_step_allowed:
  assumes "valid_descriptor M (eb_descriptor (ae_body env))" "recovery_good M net env deadline st"
  shows "\<exists>r s'. recovery_step M net env deadline event st s = Some (r, s') \<and> step_allowed M net env deadline r"
proof (cases event)
  case Deadline_Fires
  then show ?thesis
    using recovery_step_deadline [of M net env deadline st s] by (auto simp: step_allowed_def)
next
  case (Poll index)
  then show ?thesis
    using poll_leaf_allowed [OF assms, of index _ s] assms(2)
    by (auto simp: recovery_step_def io_of_def step_allowed_def split: option.splits leaf_phase.splits)
next
  case (Answer index)
  then show ?thesis
    using answer_leaf_allowed [OF assms, of index _ _ _ s] assms(2)
    by (auto simp: recovery_step_def io_of_def step_allowed_def split: option.splits leaf_phase.splits)
qed

section \<open>The whole loop\<close>

abbreviation new_future :: "nat \<times> network_binding \<Rightarrow> 'cli leaf_future" where
  "new_future leaf \<equiv> \<lparr>lf_index = fst leaf, lf_binding = snd leaf, lf_phase = Unpolled\<rparr>"

lemma push_leaves_all:
  "\<forall>leaf\<in>set todo. fst leaf < length (rec_starts st) \<Longrightarrow>
     push_leaves todo st = Some (st\<lparr>rec_pending := rec_pending st @ map new_future todo\<rparr>)"
  by (induction todo arbitrary: st) (auto simp: push_leaf_def split: prod.splits)

lemma recovery_start_eq:
  assumes "length networks \<le> MAX_PROVIDER_OBSERVATIONS"
  shows "recovery_start networks = Some
    \<lparr>rec_remaining = drop 4 (enumerate 0 networks), rec_starts = replicate MAX_PROVIDER_OBSERVATIONS None,
     rec_pending = map new_future (take 4 (enumerate 0 networks)),
     rec_recovered = [], rec_available = [], rec_failures = []\<rparr>"
proof -
  have "\<forall>leaf\<in>set (take 4 (enumerate 0 networks)). fst leaf < 31"
    using assms by (auto dest!: in_set_takeD simp: in_set_enumerate_eq)
  then show ?thesis by (simp add: recovery_start_def push_leaves_all Let_def)
qed

lemma recovery_start_good:
  fixes M :: "('p, 'f, 'srv, 'cli, 'st, 'k, 'w) platform"
  assumes "valid_descriptor M (eb_descriptor (ae_body env))"
  shows "\<exists>st. recovery_start (env_networks env) = Some st \<and> recovery_good M net env deadline st"
proof -
  note facts = valid_descriptor_facts [OF assms]
  let ?all = "enumerate 0 (env_networks env)"
  define st :: "'cli recovery" where "st = \<lparr>rec_remaining = drop 4 ?all, rec_starts = replicate MAX_PROVIDER_OBSERVATIONS None,
     rec_pending = map new_future (take 4 ?all), rec_recovered = [], rec_available = [], rec_failures = []\<rparr>"
  have "leaf_ids st = map (nb_node_id \<circ> snd) (take 4 ?all @ drop 4 ?all)"
    by (simp only: map_append) (simp add: st_def leaf_ids_def comp_def)
  also have "\<dots> = map nb_node_id (env_networks env)" by (simp flip: map_map)
  finally have "distinct (leaf_ids st)" using facts(4) by simp
  moreover have "\<forall>leaf\<in>set ?all. fst leaf < length (env_networks env) \<and> snd leaf = env_networks env ! fst leaf"
    by (auto simp: in_set_enumerate_eq)
  ultimately have "recovery_inv (env_networks env) st"
    by (auto simp: st_def recovery_inv_def dest!: in_set_takeD in_set_dropD)
  then have "recovery_good M net env deadline st"
    using satisfied_none [OF facts(6)] by (simp add: st_def recovery_good_def future_good_def)
  then show ?thesis using recovery_start_eq [of "env_networks env"] facts(5) by (auto simp: st_def)
qed

text \<open>What the whole loop may return.\<close>

definition recovery_result :: "('p, 'f, 'srv, 'cli, 'st, 'k, 'w) platform \<Rightarrow> 'w network_provider
      \<Rightarrow> authenticated_envelope \<Rightarrow> nat
      \<Rightarrow> (network_recovery, engine_error) result \<Rightarrow> bool" where
  "recovery_result M net env deadline r \<longleftrightarrow>
     (case r of
        Ok (share, failures, available) \<Rightarrow>
          (\<exists>recovered. authentic_quorum M net env deadline available recovered
             \<and> recover_network (env_policy env) recovered = Some (Ok share))
      | Err e \<Rightarrow> (\<exists>failures. e = InsufficientFactors failures \<or> e = DeadlineExceeded failures)
          \<or> (\<exists>recovered available policy_err. authentic_quorum M net env deadline available recovered
               \<and> recover_network (env_policy env) recovered = Some (Err policy_err)
               \<and> e = engine_policy_error policy_err))"

lemma recovery_loop_result:
  assumes "valid_descriptor M (eb_descriptor (ae_body env))" "recovery_good M net env deadline st"
    and "recovery_loop M net env deadline schedule st s = Some (r, s')"
  shows "recovery_result M net env deadline r"
  using assms(2,3)
proof (induction schedule arbitrary: st s)
  case Nil
  then show ?case by (auto simp: recovery_result_def io_of_def split: if_splits)
next
  case (Cons event schedule)
  obtain r1 s1 where step: "recovery_step M net env deadline event st s = Some (r1, s1)" "step_allowed M net env deadline r1"
    using recovery_step_allowed [OF assms(1) Cons.prems(1)] by blast
  show ?case
  proof (cases r1)
    case (Err e)
    then have "r = Err e \<or> (\<exists>failures. r = Err (InsufficientFactors failures))"
      using step(1) Cons.prems(2) by (auto simp: io_then_def io_of_def split: if_splits)
    moreover have "recovery_result M net env deadline (Err e)"
      using step(2) Err by (simp add: recovery_result_def step_allowed_def) blast
    moreover have "recovery_result M net env deadline (Err (InsufficientFactors failures))" for failures
      by (simp add: recovery_result_def)
    ultimately show ?thesis by (elim disjE exE) simp_all
  next
    case (Ok out)
    then show ?thesis
      using step Cons by (cases out)
        (auto simp: recovery_result_def step_allowed_def io_then_def io_of_def split: if_splits prod.splits)
  qed
qed

lemma recovery_loop_returns:
  assumes "valid_descriptor M (eb_descriptor (ae_body env))" "recovery_good M net env deadline st"
    and "Deadline_Fires \<in> set schedule"
  shows "recovery_loop M net env deadline schedule st s \<noteq> None"
  using assms(2,3)
proof (induction schedule arbitrary: st s)
  case (Cons event schedule)
  obtain r1 s1 where step: "recovery_step M net env deadline event st s = Some (r1, s1)" "step_allowed M net env deadline r1"
    using recovery_step_allowed [OF assms(1) Cons.prems(1)] by blast
  show ?case
  proof (cases "event = Deadline_Fires")
    case True
    then show ?thesis
      using recovery_step_deadline [of M net env deadline st s]
      by (auto simp: io_then_def io_of_def)
  next
    case False
    then have "Deadline_Fires \<in> set schedule" using Cons.prems(2) by auto
    then show ?thesis
      using step Cons.IH
      by (auto simp: step_allowed_def io_then_def io_of_def split: result.splits sum.splits)
  qed
qed simp

section \<open>Continuing the loop\<close>

text \<open>The leaves the loop has not finished, pending ones first.\<close>

definition open_leaves :: "'cli recovery \<Rightarrow> nat list" where
  "open_leaves st = map lf_index (rec_pending st) @ map fst (rec_remaining st)"

text \<open>The leaves an event polls for the first time, and those whose provider it asks.\<close>

definition polled_leaf :: "schedule_event \<Rightarrow> 'cli recovery \<Rightarrow> nat list" where
  "polled_leaf event st =
     (case event of
        Poll i \<Rightarrow> (case find (\<lambda>f. lf_index f = i) (rec_pending st) of
            Some f \<Rightarrow> (case lf_phase f of Unpolled \<Rightarrow> [i] | _ \<Rightarrow> []) | None \<Rightarrow> [])
      | _ \<Rightarrow> [])"

definition asked_leaf :: "schedule_event \<Rightarrow> 'cli recovery \<Rightarrow> nat list" where
  "asked_leaf event st =
     (case event of
        Answer i \<Rightarrow> (case find (\<lambda>f. lf_index f = i) (rec_pending st) of
            Some f \<Rightarrow> (case lf_phase f of Unpolled \<Rightarrow> [] | _ \<Rightarrow> [i]) | None \<Rightarrow> [])
      | _ \<Rightarrow> [])"

abbreviation set_waiting :: "nat \<Rightarrow> 'cli blind_state \<Rightarrow> bytes \<Rightarrow> 'cli leaf_future list \<Rightarrow> 'cli leaf_future list" where
  "set_waiting i state blinded \<equiv> map (\<lambda>f. if lf_index f = i then f\<lparr>lf_phase := Waiting state blinded\<rparr> else f)"

lemma settle_leaf_continues:
  "settle_leaf M d b result st s = Some (Ok (Inr st'), s') \<Longrightarrow> start_next (record_leaf b result st) = Some st'"
  by (auto simp: settle_leaf_def io_simps Let_def split: result.splits bool.splits)

text \<open>An event that keeps the loop going does nothing, makes an unpolled leaf wait, or finishes a leaf.\<close>

lemma recovery_step_continues:
  assumes "recovery_step M net env deadline event st s = Some (Ok (Inr st'), s')"
  obtains (idle) "st' = st" "polled_leaf event st = []" "asked_leaf event st = []"
  | (waits) i f starts state blinded where "find (\<lambda>f. lf_index f = i) (rec_pending st) = Some f" "lf_phase f = Unpolled"
      "event = Poll i" "st' = st\<lparr>rec_starts := starts, rec_pending := set_waiting i state blinded (rec_pending st)\<rparr>"
  | (finishes) i f starts result where "find (\<lambda>f. lf_index f = i) (rec_pending st) = Some f"
      "event = (if lf_phase f = Unpolled then Poll i else Answer i)"
      "start_next (record_leaf (lf_binding f) result (drop_leaf i (st\<lparr>rec_starts := starts\<rparr>))) = Some st'"
proof (cases event)
  case Deadline_Fires
  then show thesis using recovery_step_deadline [of M net env deadline st s] assms by auto
next
  case (Poll i)
  show thesis
  proof (cases "find (\<lambda>f. lf_index f = i) (rec_pending st)")
    case None
    then show thesis using idle assms Poll by (simp add: recovery_step_def polled_leaf_def asked_leaf_def io_of_def)
  next
    case (Some f)
    show thesis
    proof (cases "lf_phase f")
      case Unpolled
      obtain now w1 where now: "clock M (op_world s) = (now, w1)" by fastforce
      obtain started w2 where started: "network_key_started M (eb_descriptor (ae_body env)) (lf_binding f) w1 = (started, w2)"
        by fastforce
      have step: "poll_leaf M (eb_descriptor (ae_body env)) i (lf_binding f) st s = Some (Ok (Inr st'), s')"
        using assms Poll Some Unpolled by (simp add: recovery_step_def)
      show thesis
      proof (cases started)
        case (Ok out)
        then have "\<exists>state blinded. st' = st\<lparr>rec_starts := (rec_starts st)[i := Some now],
            rec_pending := set_waiting i state blinded (rec_pending st)\<rparr>"
          using step now started by (cases out) (auto simp: poll_leaf_def io_then_def io_world_def io_of_def Let_def)
        then show thesis using waits [OF Some Unpolled Poll] by blast
      next
        case (Err kind)
        then have "settle_leaf M (eb_descriptor (ae_body env)) (lf_binding f) (Err kind)
            (drop_leaf i (st\<lparr>rec_starts := (rec_starts st)[i := Some now]\<rparr>)) (s\<lparr>op_world := w2\<rparr>) = Some (Ok (Inr st'), s')"
          using step now started by (simp add: poll_leaf_def io_then_def io_world_def Let_def)
        from settle_leaf_continues [OF this] show thesis
          using finishes [OF Some, of "Err kind" "(rec_starts st)[i := Some now]"] Poll Unpolled by simp
      qed
    next
      case (Waiting state blinded)
      then show thesis
        using idle assms Poll Some by (simp add: recovery_step_def polled_leaf_def asked_leaf_def io_of_def)
    qed
  qed
next
  case (Answer i)
  show thesis
  proof (cases "find (\<lambda>f. lf_index f = i) (rec_pending st)")
    case None
    then show thesis using idle assms Answer by (simp add: recovery_step_def polled_leaf_def asked_leaf_def io_of_def)
  next
    case (Some f)
    show thesis
    proof (cases "lf_phase f")
      case Unpolled
      then show thesis
        using idle assms Answer Some by (simp add: recovery_step_def polled_leaf_def asked_leaf_def io_of_def)
    next
      case (Waiting state blinded)
      then show thesis
        using assms Answer Some finishes [of i f _ "rec_starts st"]
        by (auto simp: recovery_step_def answer_leaf_def io_simps dest!: settle_leaf_continues)
    qed
  qed
qed

text \<open>The queue: leaves are started in order, four at a time as long as there are any, and each is counted.\<close>

definition queue_inv :: "network_binding list \<Rightarrow> 'cli recovery \<Rightarrow> bool" where
  "queue_inv networks st \<longleftrightarrow>
     distinct (open_leaves st) \<and> (\<exists>m. rec_remaining st = drop m (enumerate 0 networks))
     \<and> (rec_remaining st = [] \<or> length (rec_pending st) = MAX_NETWORK_OPERATIONS)
     \<and> length (rec_available st) + length (rec_failures st) + length (open_leaves st) = length networks"

text \<open>The history of a run: the leaves polled and the leaves whose provider was asked, in order.\<close>

definition history_inv :: "nat list \<Rightarrow> nat list \<Rightarrow> 'cli recovery \<Rightarrow> bool" where
  "history_inv polled asked st \<longleftrightarrow>
     distinct polled \<and> distinct asked \<and> set asked \<subseteq> set polled
     \<and> set polled \<inter> fst ` set (rec_remaining st) = {}
     \<and> (\<forall>f\<in>set (rec_pending st). lf_index f \<notin> set asked \<and> (lf_phase f = Unpolled \<longleftrightarrow> lf_index f \<notin> set polled))"

lemma open_leaves_simps [simp]:
  "open_leaves (st\<lparr>rec_starts := starts\<rparr>) = open_leaves st"
  "open_leaves (record_leaf b result st) = open_leaves st"
  by (auto simp: open_leaves_def record_leaf_def split: result.splits)

lemma record_leaf_fields [simp]:
  "rec_pending (record_leaf b result st) = rec_pending st" "rec_remaining (record_leaf b result st) = rec_remaining st"
  "rec_starts (record_leaf b result st) = rec_starts st"
  "length (rec_available (record_leaf b result st)) + length (rec_failures (record_leaf b result st))
     = Suc (length (rec_available st) + length (rec_failures st))"
  by (auto simp: record_leaf_def split: result.splits)

lemma start_next_fields:
  assumes "start_next st = Some st'"
  shows "open_leaves st' = open_leaves st" "rec_available st' = rec_available st" "rec_failures st' = rec_failures st"
    "rec_remaining st' = tl (rec_remaining st)"
    "rec_pending st' = rec_pending st @ (case rec_remaining st of [] \<Rightarrow> []
       | leaf # _ \<Rightarrow> [\<lparr>lf_index = fst leaf, lf_binding = snd leaf, lf_phase = Unpolled\<rparr>])"
  using assms by (auto simp: start_next_def push_leaf_def open_leaves_def split: list.splits if_splits)

lemma drop_leaf_open:
  assumes "distinct (open_leaves st)" "find (\<lambda>f. lf_index f = i) (rec_pending st) = Some f"
  shows "set (open_leaves (drop_leaf i st)) = set (open_leaves st) - {i}" "distinct (open_leaves (drop_leaf i st))"
    "length (rec_pending (drop_leaf i st)) + 1 = length (rec_pending st)"
proof -
  note f = find_pending [OF assms(2)]
  obtain pre post where split: "rec_pending st = pre @ f # post" using f(1) by (metis split_list)
  then have "i \<notin> lf_index ` (set pre \<union> set post)"
    using assms(1) f(2) by (auto simp: open_leaves_def)
  then have "lf_index g \<noteq> i" if "g \<in> set pre \<union> set post" for g using that by blast
  then have "filter (\<lambda>f. lf_index f \<noteq> i) (rec_pending st) = pre @ post"
    using split f(2) by (simp add: filter_id_conv)
  then show "set (open_leaves (drop_leaf i st)) = set (open_leaves st) - {i}" "distinct (open_leaves (drop_leaf i st))"
    "length (rec_pending (drop_leaf i st)) + 1 = length (rec_pending st)"
    using assms(1) f(2) split by (auto simp: open_leaves_def drop_leaf_def)
qed

lemma set_waiting_index [simp]: "map lf_index (set_waiting i state blinded fs) = map lf_index fs"
  by auto

lemma queue_inv_step:
  assumes "queue_inv networks st" "recovery_step M net env deadline event st s = Some (Ok (Inr st'), s')"
  shows "queue_inv networks st'"
  using assms(2)
proof (cases rule: recovery_step_continues)
  case (waits i f starts state blinded)
  then show ?thesis using assms(1) by (simp add: queue_inv_def open_leaves_def del: map_map)
next
  case (finishes i f starts result)
  let ?st = "drop_leaf i (st\<lparr>rec_starts := starts\<rparr>)"
  note after = start_next_fields [OF finishes(3)]
  note drop = drop_leaf_open [of "st\<lparr>rec_starts := starts\<rparr>" i f]
  have "distinct (open_leaves ?st)" "length (rec_pending ?st) + 1 = length (rec_pending st)"
    using assms(1) finishes(1) drop(2,3) by (simp_all add: queue_inv_def)
  moreover obtain m where "rec_remaining st = drop m (enumerate 0 networks)" using assms(1) by (auto simp: queue_inv_def)
  moreover have "tl (rec_remaining st) = drop (Suc m) (enumerate 0 networks)" using calculation(3) by (simp add: drop_Suc tl_drop)
  ultimately show ?thesis
    using assms(1) after
    by (auto simp: queue_inv_def open_leaves_def split: list.splits)
qed (use assms in simp)

lemma history_inv_facts:
  assumes "history_inv polled asked st"
  shows "distinct polled" "distinct asked" "set asked \<subseteq> set polled"
    "set polled \<inter> fst ` set (rec_remaining st) = {}"
    "\<forall>f\<in>set (rec_pending st). lf_index f \<notin> set asked \<and> (lf_phase f = Unpolled \<longleftrightarrow> lf_index f \<notin> set polled)"
  using assms by (simp_all add: history_inv_def)

lemma history_inv_step:
  assumes "history_inv polled asked st" "distinct (open_leaves st)"
    and "recovery_step M net env deadline event st s = Some (Ok (Inr st'), s')"
  shows "history_inv (polled @ polled_leaf event st) (asked @ asked_leaf event st) st'"
  using assms(3)
proof (cases rule: recovery_step_continues)
  case idle
  then show ?thesis using assms(1) by simp
next
  case (waits i f starts state blinded)
  note f = find_pending [OF waits(1)]
  have i: "i \<notin> fst ` set (rec_remaining st)" using assms(2) f by (auto simp: open_leaves_def)
  have events: "polled_leaf event st = [i]" "asked_leaf event st = []"
    using waits by (simp_all add: polled_leaf_def asked_leaf_def)
  have fields: "rec_remaining st' = rec_remaining st" "rec_pending st' = set_waiting i state blinded (rec_pending st)"
    using waits(4) by simp_all
  show ?thesis
    unfolding events history_inv_def fields
    using history_inv_facts [OF assms(1)] f waits(2) i by auto
next
  case (finishes i f starts result)
  note f = find_pending [OF finishes(1)]
  note after = start_next_fields [OF finishes(3)]
  note h = history_inv_facts [OF assms(1)]
  have i: "i \<notin> fst ` set (rec_remaining st)" using assms(2) f by (auto simp: open_leaves_def)
  have remaining: "fst ` set (rec_remaining st') \<subseteq> fst ` set (rec_remaining st)"
    using after(4) by (cases "rec_remaining st") auto
  have new: "g \<in> set (rec_pending st) \<and> lf_index g \<noteq> i \<or> lf_phase g = Unpolled \<and> lf_index g \<in> fst ` set (rec_remaining st)"
    if "g \<in> set (rec_pending st')" for g
    using that after(5) by (auto simp: drop_leaf_def split: list.splits)
  have events: "polled_leaf event st = (if lf_phase f = Unpolled then [i] else [])"
      "asked_leaf event st = (if lf_phase f = Unpolled then [] else [i])"
    using finishes by (cases "lf_phase f"; simp add: polled_leaf_def asked_leaf_def)+
  have i': "i \<notin> set asked" "lf_phase f = Unpolled \<longleftrightarrow> i \<notin> set polled" using h(5) f by auto
  have pending: "lf_index g \<notin> set asked \<and> lf_index g \<noteq> i \<and> (lf_phase g = Unpolled \<longleftrightarrow> lf_index g \<notin> set polled)"
    if "g \<in> set (rec_pending st')" for g
    using new [OF that] h(3-5) i by auto
  have rest: "set polled \<inter> fst ` set (rec_remaining st') = {}" "i \<notin> fst ` set (rec_remaining st')"
    using h(4) i remaining by blast+
  show ?thesis
    unfolding events history_inv_def using h(1-3) rest i' pending by (auto simp del: Int_iff disjoint_iff)
qed

lemma recovery_start_queue:
  assumes "recovery_start networks = Some st" "length networks \<le> MAX_PROVIDER_OBSERVATIONS"
  shows "queue_inv networks st" "history_inv [] [] st" "rec_failures st = []"
proof -
  let ?all = "enumerate 0 networks"
  have "map fst (take 4 ?all) @ map fst (drop 4 ?all) = [0..<length networks]"
    by (simp flip: map_append)
  then have "open_leaves st = [0..<length networks]"
    using assms by (auto simp: recovery_start_eq open_leaves_def comp_def)
  then show "queue_inv networks st"
    using assms by (auto simp: recovery_start_eq queue_inv_def)
qed (use assms in \<open>auto simp: recovery_start_eq history_inv_def\<close>)

section \<open>Reachable states\<close>

text \<open>The states of the loop under any schedule, with the history that led to them.\<close>

inductive recovery_reachable :: "('p, 'f, 'srv, 'cli, 'st, 'k, 'w) platform \<Rightarrow> 'w network_provider
      \<Rightarrow> authenticated_envelope \<Rightarrow> nat \<Rightarrow> nat list \<Rightarrow> nat list \<Rightarrow> 'cli recovery \<Rightarrow> 'w op \<Rightarrow> bool"
  for M net env deadline where
  start: "recovery_start (env_networks env) = Some st \<Longrightarrow> recovery_reachable M net env deadline [] [] st s"
| event: "\<lbrakk>recovery_reachable M net env deadline polled asked st s; rec_pending st \<noteq> [];
     recovery_step M net env deadline e st s = Some (Ok (Inr st'), s')\<rbrakk>
    \<Longrightarrow> recovery_reachable M net env deadline (polled @ polled_leaf e st) (asked @ asked_leaf e st) st' s'"

lemma reachable_good:
  assumes "recovery_reachable M net env deadline polled asked st s" "valid_descriptor M (eb_descriptor (ae_body env))"
  shows "recovery_good M net env deadline st \<and> queue_inv (env_networks env) st \<and> history_inv polled asked st"
  using assms(1)
proof induction
  case (start st s)
  then show ?case
    using recovery_start_good [OF assms(2)] recovery_start_queue [OF start] valid_descriptor_facts(5) [OF assms(2)] by auto
next
  case (event polled asked st s e st' s')
  have good: "recovery_good M net env deadline st" and queue: "queue_inv (env_networks env) st"
    and history: "history_inv polled asked st" using event.IH by simp_all
  obtain r s1 where "recovery_step M net env deadline e st s = Some (r, s1)" "step_allowed M net env deadline r"
    using recovery_step_allowed [OF assms(2) good] by blast
  then have "recovery_good M net env deadline st'" using event.hyps(3) by (auto simp: step_allowed_def)
  moreover have "distinct (open_leaves st)" using queue by (simp add: queue_inv_def)
  ultimately show ?case
    using queue_inv_step [OF queue event.hyps(3)] history_inv_step [OF history _ event.hyps(3)] by simp
qed

end
