(* ===== verification/Unlock_Safety.thy ===== *)
theory Unlock_Safety
  imports Engine_Recovery
begin

text \<open>
  What a successful unlock has checked. Each phase of the operation has an inversion lemma; together they
  show that a credential is returned only for an authenticated envelope that names the target volume and
  slot, after an authenticated network quorum, an authenticated TPM share and an authenticated payload,
  within the deadline. The report an operation leaves behind lists the stages it went through.
\<close>

section \<open>Inversion of the phases\<close>

lemma unlock_begin_Ok:
  assumes "unlock_begin M raw signer volume slot tpm deadline s = Some (Ok uo, s')"
  shows "authenticate (prims M) (voprf M) (cbor_lib M) (eddsa M) raw signer = Ok (uo_envelope uo)"
    "d_volume_uuid (eb_descriptor (ae_body (uo_envelope uo))) = volume"
    "d_slot (eb_descriptor (ae_body (uo_envelope uo))) = slot"
    "supports_mode tpm (policy_mode (env_policy (uo_envelope uo)))"
    "uo_deadline uo = deadline"
    "uo_release uo = gate_new (ae_context (uo_envelope uo)) (policy_mode (env_policy (uo_envelope uo)) = Attested)"
    "session_authenticate_envelope (session_new (env_policy (uo_envelope uo))) = (Ok (), uo_policy uo)"
  using assms
  by (auto simp: unlock_begin_def io_simps result_simps Let_def session_try_def split: if_splits prod.splits)

lemma recover_network_observed_Ok:
  assumes "valid_descriptor M (eb_descriptor (ae_body env))"
    and "recover_network_observed M net env deadline schedule s = Some (Ok (share, failures, available), s')"
  obtains recovered where "authentic_quorum M net env deadline available recovered"
    "recover_network (env_policy env) recovered = Some (Ok share)"
proof -
  obtain st where "recovery_start (env_networks env) = Some st" "recovery_good M net env deadline st"
    using recovery_start_good [OF assms(1)] by blast
  then have "recovery_result M net env deadline (Ok (share, failures, available))"
    using recovery_loop_result [OF assms(1)] assms(2) by (auto simp: recover_network_observed_def)
  then show ?thesis using that by (auto simp: recovery_result_def)
qed

lemma run_network_Ok:
  assumes "run_network M net schedule uo s = Some (Ok (ev, session, gate), s')"
    and "valid_descriptor M (eb_descriptor (ae_body (uo_envelope uo)))"
  obtains recovered where "authentic_quorum M net (uo_envelope uo) (uo_deadline uo) (ne_available ev) recovered"
    "recover_network (env_policy (uo_envelope uo)) recovered = Some (Ok (ne_share ev))"
    "accept_all (ne_available ev) (uo_policy uo) = Ok session"
proof -
  obtain share failures s1 s2 where
    r: "recover_network_observed M net (uo_envelope uo) (uo_deadline uo) schedule s1 =
      Some (Ok (share, failures, ne_available ev), s2)" "ne_share ev = share"
    and accepted: "accept_all (ne_available ev) (uo_policy uo) = Ok session"
    using assms(1) by (auto simp: run_network_def io_simps Let_def split: prod.splits)
  then show ?thesis using recover_network_observed_Ok [OF assms(2) r(1)] that by blast
qed

lemma run_tpm_Ok:
  assumes "run_tpm M tpm uo session gate s = Some (Ok (ev, session', gate'), s')"
  obtains unsealed w w' where "tpm_unseal tpm (uo_envelope uo) w = (Ok unsealed, w')"
    "tpm_evidence_authenticate M unsealed (uo_envelope uo) = Some (Ok ev)"
  using assms by (auto simp: run_tpm_def io_simps split: prod.splits)

text \<open>The release ends with a reading of the clock before the deadline.\<close>

lemma run_release_Ok:
  assumes "run_release M uo payload session gate s = Some (Ok (), s')"
  obtains now w where "clock M w = (now, op_world s')" "now < uo_deadline uo"
  using assms
  by (auto simp: run_release_def io_simps gate_release_def split: if_splits)

text \<open>The evidence behind a returned credential.\<close>

definition unlock_evidence :: "('p, 'f, 'srv, 'cli, 'st, 'k, 'w) platform \<Rightarrow> 'w network_provider
      \<Rightarrow> 'w tpm_provider \<Rightarrow> nat \<Rightarrow> authenticated_envelope \<Rightarrow> network_share list \<Rightarrow> unsealed_seed \<Rightarrow> bytes \<Rightarrow> bool" where
  "unlock_evidence M net tpm deadline env recovered unsealed credential \<longleftrightarrow>
     authentic_quorum M net env deadline (map fst recovered) recovered
     \<and> (\<exists>w w'. tpm_unseal tpm env w = (Ok unsealed, w'))
     \<and> (policy_mode (env_policy env) = Attested \<longrightarrow> us_authorization unsealed = FreshSessionAuthorization)
     \<and> (\<exists>network_share tpm_ev root.
          recover_network (env_policy env) recovered = Some (Ok network_share)
          \<and> tpm_evidence_authenticate M unsealed env = Some (Ok tpm_ev)
          \<and> combine_shares (te_share tpm_ev) network_share = Ok root
          \<and> map_ok pay_credential (payload_evidence_authenticate M root env) = Ok credential)"

lemma tpm_evidence_live:
  "tpm_evidence_authenticate M unsealed env = Some (Ok ev) \<Longrightarrow> policy_mode (env_policy env) = Attested
     \<Longrightarrow> us_authorization unsealed = FreshSessionAuthorization"
  by (cases "us_authorization unsealed") (simp_all add: tpm_evidence_authenticate_def Let_def)

lemma unlock_run_Ok:
  assumes "unlock_run M net tpm schedule uo s = Some (Ok res, s')"
    and "valid_descriptor M (eb_descriptor (ae_body (uo_envelope uo)))"
  shows "\<exists>recovered unsealed. unlock_evidence M net tpm (uo_deadline uo) (uo_envelope uo) recovered unsealed (ur_credential res)"
    "\<exists>now w. clock M w = (now, op_world s') \<and> now < uo_deadline uo"
proof -
  obtain net_ev session gate s1 tpm_ev session' gate' s2 root payload where
    network: "run_network M net schedule uo s = Some (Ok (net_ev, session, gate), s1)"
    and tpm: "run_tpm M tpm uo session gate s1 = Some (Ok (tpm_ev, session', gate'), s2)"
    and root: "combine_shares (te_share tpm_ev) (ne_share net_ev) = Ok root"
    and payload: "payload_evidence_authenticate M root (uo_envelope uo) = Ok payload"
    and release: "run_release M uo payload session' gate' s2 = Some (Ok (), s')"
    and res: "ur_credential res = pay_credential payload"
    using assms(1) by (auto simp: unlock_run_def io_simps split: prod.splits)
  obtain recovered where quorum: "authentic_quorum M net (uo_envelope uo) (uo_deadline uo) (ne_available net_ev) recovered"
    "recover_network (env_policy (uo_envelope uo)) recovered = Some (Ok (ne_share net_ev))"
    using run_network_Ok [OF network assms(2)] .
  obtain unsealed w w' where unseal: "tpm_unseal tpm (uo_envelope uo) w = (Ok unsealed, w')"
    "tpm_evidence_authenticate M unsealed (uo_envelope uo) = Some (Ok tpm_ev)"
    using run_tpm_Ok [OF tpm] .
  have "map fst recovered = ne_available net_ev" using quorum(1) by (simp add: authentic_quorum_def)
  then have "unlock_evidence M net tpm (uo_deadline uo) (uo_envelope uo) recovered unsealed (ur_credential res)"
    using quorum unseal tpm_evidence_live [OF unseal(2)] root payload res
    by (auto simp: unlock_evidence_def)
  then show "\<exists>recovered unsealed. unlock_evidence M net tpm (uo_deadline uo) (uo_envelope uo) recovered unsealed (ur_credential res)" by blast
  show "\<exists>now w. clock M w = (now, op_world s') \<and> now < uo_deadline uo"
    using run_release_Ok [OF release] by blast
qed

lemma io_finish_Ok:
  "io_finish clk started m s = Some (r, s') \<Longrightarrow> \<exists>s1. m s = Some (r, s1)"
  by (auto simp: io_finish_def split: option.splits prod.splits)

lemma io_finish_world:
  "io_finish clk started m s = Some (Ok x, s') \<Longrightarrow>
     \<exists>s1. m s = Some (Ok x, s1) \<and> op_world s' = snd (finish clk started None (op_report s1) (op_world s1))"
  by (auto simp: io_finish_def split: option.splits prod.splits)

text \<open>After the last reading before the deadline the operation only closes its report.\<close>

lemma unlock_observed_Ok:
  assumes "unlock_observed M raw signer volume slot net tpm schedule s = Some (Ok res, s')"
  obtains env recovered unsealed started now w w' report where
    "authenticate (prims M) (voprf M) (cbor_lib M) (eddsa M) raw signer = Ok env"
    "d_volume_uuid (eb_descriptor (ae_body env)) = volume" "d_slot (eb_descriptor (ae_body env)) = slot"
    "unlock_evidence M net tpm (started + OPERATION_BUDGET) env recovered unsealed (ur_credential res)"
    "started = fst (clock M (op_world s))" "clock M w = (now, w')" "now < started + OPERATION_BUDGET"
    "op_world s' = snd (finish (clock M) started None report w')"
proof -
  obtain started w1 s1 s2 s3 uo where start: "clock M (op_world s) = (started, w1)"
    and started: "unlock_begin M raw signer volume slot tpm (started + OPERATION_BUDGET) s1 = Some (Ok uo, s2)"
    and run: "unlock_run M net tpm schedule uo s2 = Some (Ok res, s3)"
    and finish: "op_world s' = snd (finish (clock M) started None (op_report s3) (op_world s3))"
    using assms
    by (auto simp: unlock_observed_def unlock_before_observed_def io_simps dest!: io_finish_world)
  note b = unlock_begin_Ok [OF started]
  note valid = authenticated_valid(1) [OF b(1)]
  obtain recovered unsealed where
    "unlock_evidence M net tpm (uo_deadline uo) (uo_envelope uo) recovered unsealed (ur_credential res)"
    using unlock_run_Ok(1) [OF run valid] by blast
  moreover obtain now w where "clock M w = (now, op_world s3)" "now < uo_deadline uo"
    using unlock_run_Ok(2) [OF run valid] by blast
  ultimately show ?thesis using that b start finish by auto
qed

end
