(* ===== verification/Enrollment.thy ===== *)
theory Enrollment
  imports Unlock_Safety
begin

text \<open>
  Enrollment and unlock together: the credential that \<open>prepare\<close> returned is the credential that
  \<open>unlock\<close> returns. The hypotheses on the outside world are the contracts of the cryptographic
  libraries, providers that evaluate with the enrolled server keys (\<open>honest_network\<close>) and a TPM that
  unseals what it sealed (\<open>tpm_faithful\<close>).
\<close>

section \<open>What enrollment produced\<close>

definition sealed_leaf :: "('p, 'f, 'srv, 'cli, 'st, 'k, 'w) platform \<Rightarrow> 'w network_provider \<Rightarrow> descriptor
      \<Rightarrow> bytes \<Rightarrow> nat \<Rightarrow> network_share \<Rightarrow> network_binding \<Rightarrow> wrapped_leaf \<Rightarrow> bool" where
  "sealed_leaf M net d context deadline share b leaf \<longleftrightarrow>
     fst share = nb_node_id b \<and> wl_node_id leaf = nb_node_id b
     \<and> (\<exists>state blinded answer key w1 w1' w2 w2' w3 w3'.
          network_key_started M d b w1 = (Ok (state, blinded), w1')
          \<and> net b blinded deadline w2 = (answer, w2')
          \<and> network_key_answered M b context state answer = Ok key
          \<and> seal_key (prims M) (os_rng M) key (snd share) (leaf_context context (nb_node_id b)) w3
              = (Ok (wl_value leaf), w3'))"

lemma timed_network_key_Ok:
  assumes "timed_network_key M net d b context deadline w = (Some (Ok key), w')"
  obtains state blinded answer w1 w2 w2' where "network_key_started M d b w = (Ok (state, blinded), w1)"
    "net b blinded deadline w2 = (answer, w2')" "network_key_answered M b context state answer = Ok key"
  using assms by (auto simp: timed_network_key_def split: prod.splits result.splits bool.splits)

lemma give_up_fails: "give_up clk index started outcome err s \<noteq> Some (Ok x, s')"
  by (simp add: give_up_def io_simps)

lemma check_sealed_Ok:
  assumes "check_sealed M index started context share key sealed s = Some (Ok leaf, s')"
  shows "sealed = Ok (wl_value leaf) \<and> wl_node_id leaf = fst share"
  using assms
  by (auto simp: check_sealed_def give_up_fails io_simps split: result.splits if_splits)

lemma seal_leaf_Ok:
  assumes "seal_leaf M index started context share b key_result s = Some (Ok leaf, s')"
  obtains key w w' where "key_result = Some (Ok key)" "wl_node_id leaf = fst share"
    "seal_key (prims M) (os_rng M) key (snd share) (leaf_context context (fst share)) w = (Ok (wl_value leaf), w')"
  using assms
  by (auto simp: seal_leaf_def give_up_fails io_then_Ok_iff io_world_iff dest!: check_sealed_Ok
      split: option.splits result.splits)

lemma prepare_leaf_Ok:
  assumes "prepare_leaf M net d context deadline index share b s = Some (Ok leaf, s')"
  shows "sealed_leaf M net d context deadline share b leaf"
proof -
  obtain started key_result s1 s2 w w' where i: "fst share = nb_node_id b"
    and key: "timed_network_key M net d b context deadline w = (key_result, w')"
    and sealed: "seal_leaf M index started context share b key_result s1 = Some (Ok leaf, s2)"
    using assms by (auto simp: prepare_leaf_def io_simps split: if_splits)
  obtain k w1 w1' where k: "key_result = Some (Ok k)" "wl_node_id leaf = fst share"
    "seal_key (prims M) (os_rng M) k (snd share) (leaf_context context (fst share)) w1 = (Ok (wl_value leaf), w1')"
    using sealed by (rule seal_leaf_Ok)
  obtain state blinded answer w2 w3 w3' where "network_key_started M d b w = (Ok (state, blinded), w2)"
    "net b blinded deadline w3 = (answer, w3')" "network_key_answered M b context state answer = Ok k"
    using timed_network_key_Ok [OF key [unfolded k(1)]] .
  then show ?thesis
    using k(2,3) i unfolding sealed_leaf_def by metis
qed

lemma prepare_leaves_Ok:
  assumes "prepare_leaves M net d context deadline index pairs leaves s = Some (Ok out, s')"
  shows "\<exists>new. out = leaves @ new
    \<and> list_all2 (\<lambda>(share, b) leaf. sealed_leaf M net d context deadline share b leaf) pairs new"
  using assms
proof (induction pairs arbitrary: index leaves s)
  case (Cons pair pairs)
  obtain share b where pair: "pair = (share, b)" by fastforce
  obtain leaf s1 where leaf: "prepare_leaf M net d context deadline index share b s = Some (Ok leaf, s1)"
    and rest: "prepare_leaves M net d context deadline (index + 1) pairs (leaves @ [leaf]) s1 = Some (Ok out, s')"
    using Cons.prems by (auto simp: pair io_simps)
  show ?case
    using Cons.IH [OF rest] prepare_leaf_Ok [OF leaf] by (auto simp: pair)
qed (simp add: io_simps)

lemma fresh_secret_Ok:
  "fills_buffer (os_rng M) \<Longrightarrow> fresh_secret M s = Some (Ok secret, s') \<Longrightarrow> length secret = 32"
  by (auto simp: fresh_secret_def io_simps random_bytes_Ok fills_buffer_def)

lemma prepare_inner_Ok:
  assumes "prepare_inner M net tpm d signer s = Some (Ok pe, s')"
  shows "\<exists>context root root_shares tpm_seed blob tpm_key tpm_leaf shares leaves payload_key payload deadline
      w1 w1' w2 w2' w3 w3' w4 w4' w5 w5' s0 s0' s1 s1' s2 s2'.
    context_hash (prims M) (voprf M) (cbor_lib M) d = Ok context
    \<and> fresh_secret M s0 = Some (Ok (pe_credential pe), s0')
    \<and> fresh_secret M s1 = Some (Ok root, s1')
    \<and> split (os_rng M) root 2 2 w1 = (Ok root_shares, w1')
    \<and> tpm_seal tpm d tpm_seed w2 = (Ok blob, w2')
    \<and> derive M tpm_seed (leaf_context context (policy_tpm_node_id (d_policy d))) (ascii ''leelo/v1/tpm-wrap'') = Ok tpm_key
    \<and> seal_key (prims M) (os_rng M) tpm_key (share_value (root_shares ! 0))
       (leaf_context context (policy_tpm_node_id (d_policy d))) w3 = (Ok tpm_leaf, w3')
    \<and> split_network (os_rng M) (d_policy d) (share_value (root_shares ! 1)) w4 = Some (Ok shares, w4')
    \<and> prepare_leaves M net d context deadline 0 (zip shares (d_networks d))
       [\<lparr>wl_node_id = policy_tpm_node_id (d_policy d), wl_value = tpm_leaf\<rparr>] s2 = Some (Ok leaves, s2')
    \<and> derive M root context (ascii ''leelo/v1/luks-slot'') = Ok payload_key
    \<and> seal_key (prims M) (os_rng M) payload_key (pe_credential pe) context w5 = (Ok payload, w5')
    \<and> sign (prims M) (voprf M) (cbor_lib M) (eddsa M)
       \<lparr>eb_descriptor = d, eb_tpm = blob, eb_leaves = leaves, eb_payload = payload\<rparr> signer = Ok (pe_envelope pe)"
  using assms
  by (clarsimp simp: prepare_inner_def io_simps result_simps Let_def split: if_splits)
     (intro exI conjI; (assumption | simp))

section \<open>The outside world\<close>

text \<open>Every answer of a provider is an evaluation under the server key whose public key the binding pins.\<close>

definition honest_network :: "('p, 'f, 'srv, 'cli, 'st, 'k, 'w) platform \<Rightarrow> 'w network_provider
      \<Rightarrow> (network_binding \<Rightarrow> 'srv) \<Rightarrow> network_binding list \<Rightarrow> bool" where
  "honest_network M net srv networks \<longleftrightarrow> (\<forall>b\<in>set networks.
     nb_public_key b = secret_server_public_key (voprf M) (srv b)
     \<and> (\<forall>blinded deadline w ev w'. net b blinded deadline w = (Ok ev, w') \<longrightarrow>
          (\<exists>(fill :: 'w rng) q q'. evaluate_with_entropy (voprf M) (chacha M) fill (srv b) blinded q = (Ok ev, q'))))"

text \<open>What the TPM at unlock releases for a blob is the seed that was sealed into it for this descriptor.\<close>

definition tpm_faithful :: "'w tpm_provider \<Rightarrow> 'w tpm_provider \<Rightarrow> bool" where
  "tpm_faithful tpm tpm' \<longleftrightarrow> (\<forall>d seed w blob w' env v unsealed v'.
     tpm_seal tpm d seed w = (Ok blob, w') \<longrightarrow> eb_descriptor (ae_body env) = d \<longrightarrow> eb_tpm (ae_body env) = blob \<longrightarrow>
     tpm_unseal tpm' env v = (Ok unsealed, v') \<longrightarrow> us_seed unsealed = seed)"

definition libraries_correct :: "('p, 'f, 'srv, 'cli, 'st, 'k, 'w) platform \<Rightarrow> ('srv \<Rightarrow> bytes \<Rightarrow> bytes) \<Rightarrow> bool" where
  "libraries_correct M F \<longleftrightarrow> aead_correct (prims M) \<and> ed25519_correct (eddsa M) \<and> minicbor_correct (cbor_lib M)
     \<and> voprf_correct (voprf M) F \<and> fills_buffer (os_rng M)"

text \<open>The key of a leaf is a function of the server key, the descriptor and the context.\<close>

lemma honest_key:
  assumes "voprf_correct (voprf M) F" "honest_network M net srv networks" "b \<in> set networks"
    and "network_key_started M d b w1 = (Ok (state, blinded), w1')" "net b blinded deadline w2 = (answer, w2')"
    and "network_key_answered M b context state answer = Ok key"
  shows "derive_wrap_key (prims M) (F (srv b) (network_input d b)) (leaf_context context (nb_node_id b)) = Ok key"
proof -
  obtain ev out pk where ok: "answer = Ok ev" "server_public_key_from_bytes (voprf M) (nb_public_key b) = Ok pk"
      "blind_finalize (voprf M) state ev pk = Ok out"
      "derive_wrap_key (prims M) out (leaf_context context (nb_node_id b)) = Ok key"
    using assms(6) by (auto simp: network_key_answered_def result_simps)
  have pk: "pk = secret_server_public_key (voprf M) (srv b)"
    using ok(2) assms(2,3)
    by (auto simp: honest_network_def server_public_key_from_bytes_def split: option.splits if_splits)
  obtain fill :: "'g rng" and q q' where
    ev: "evaluate_with_entropy (voprf M) (chacha M) fill (srv b) blinded q = (Ok ev, q')"
    using assms(2,3,5) ok(1) unfolding honest_network_def by blast
  obtain v where "blind_with_entropy (voprf M) (chacha M) (os_rng M) (network_input d b) w1 = (Ok (state, blinded), v)"
    using assms(4) by (auto simp: network_key_started_def result_simps split: prod.splits)
  from voprf_agreement [OF assms(1) this ev] show ?thesis using ok(3,4) pk by simp
qed

lemma sealed_leaf_opens:
  assumes "libraries_correct M F" "honest_network M net srv networks" "honest_network M net' srv networks"
    and "b \<in> set networks" "sealed_leaf M net d context deadline (i, secret) b leaf" "length secret = 32"
    and "network_key_started M d b w1 = (Ok (state, blinded), w1')" "net' b blinded deadline' w2 = (answer, w2')"
    and "network_key_answered M b context state answer = Ok key"
  shows "open_key (prims M) key (wl_value leaf) (leaf_context context (nb_node_id b)) = Ok secret"
proof -
  have voprf: "voprf_correct (voprf M) F" and aead: "aead_correct (prims M)"
    using assms(1) by (simp_all add: libraries_correct_def)
  obtain state' blinded' answer' key' v1 v1' v2 v2' v3 v3' where leaf:
    "network_key_started M d b v1 = (Ok (state', blinded'), v1')" "net b blinded' deadline v2 = (answer', v2')"
    "network_key_answered M b context state' answer' = Ok key'"
    "seal_key (prims M) (os_rng M) key' secret (leaf_context context (nb_node_id b)) v3 = (Ok (wl_value leaf), v3')"
    using assms(5) by (auto simp: sealed_leaf_def)
  have "key' = key"
    using honest_key [OF voprf assms(2,4) leaf(1-3)] honest_key [OF voprf assms(3,4,7,8,9)] by simp
  then show ?thesis using open_seal [OF aead assms(6) leaf(4)] by simp
qed

section \<open>Reconstruction\<close>

lemma root_shares:
  assumes "split fill root 2 2 w = (Ok shares, w')" "fills_buffer fill" "length root = 32"
  obtains v1 v2 where "shares = [\<lparr>share_index = 1, share_value = v1\<rparr>, \<lparr>share_index = 2, share_value = v2\<rparr>]"
    "length v1 = 32" "length v2 = 32" "combine_shares v1 v2 = Ok root"
proof -
  obtain coeffs where "shares = map (\<lambda>i. share_at root coeffs (word_of_nat i)) [1..<unat (2 :: u8) + 1]"
    using split_Ok(4) [OF assms] by blast
  then have shares: "shares = [share_at root coeffs 1, share_at root coeffs 2]" by (simp add: upt_rec)
  have "reconstruct 2 shares = Ok root"
    by (rule reconstruct_split [OF assms subset_refl]) (simp_all add: shares share_at_def)
  then have "combine_shares (share_bytes root coeffs 1) (share_bytes root coeffs 2) = Ok root"
    by (simp add: combine_shares_def from_parts_def shares share_at_def)
  then show ?thesis using that shares assms(3) by (simp add: share_at_def)
qed

lemma split_network_shares:
  assumes "valid_descriptor M d" "fills_buffer fill" "length secret = 32"
    and "split_network fill (d_policy d) secret w = Some (Ok shares, w')"
  shows "map fst shares = map nb_node_id (d_networks d)" "\<forall>e\<in>set shares. length (snd e) = 32"
proof -
  note facts = valid_descriptor_facts [OF assms(1)]
  note policy = new_policy [OF facts(1,2)]
  have "tree_split fill (policy_network (d_policy d)) secret w = (Ok shares, w')"
    using assms(4) by (simp add: split_network_tree [OF facts(1,2)])
  moreover have "nodes (policy_network (d_policy d)) \<le> 255" using policy(1) by (simp add: admissible_def)
  ultimately have ids: "map fst shares = map fst (tree_leaves (policy_network (d_policy d)))"
      "\<forall>e\<in>set shares. length (snd e) = 32"
    using tree_split_ids(1) [OF _ assms(2,3)] by blast+
  show "\<forall>e\<in>set shares. length (snd e) = 32" by (rule ids(2))
  have "network_leaf_ids (d_policy d) = map fst (tree_leaves (policy_network (d_policy d)))"
    by (auto simp: network_leaf_ids_def policy(5))
  then show "map fst shares = map nb_node_id (d_networks d)" using ids(1) facts(3) by simp
qed

lemma leaf_keys_distinct:
  assumes "valid_descriptor M d"
  shows "distinct (policy_tpm_node_id (d_policy d) # map nb_node_id (d_networks d))"
proof -
  note facts = valid_descriptor_facts [OF assms]
  note policy = new_policy [OF facts(1,2)]
  have "set (map nb_node_id (d_networks d)) \<subseteq> set (tree_ids (policy_network (d_policy d)))"
    using policy(6) tree_leaves_ids [of "policy_network (d_policy d)"] facts(3) by simp
  moreover have "policy_tpm_node_id (d_policy d) \<notin> set (tree_ids (policy_network (d_policy d)))"
    using policy(1) by (simp add: admissible_def)
  ultimately show ?thesis using facts(4) by (simp only: distinct.simps) blast
qed

lemma sealed_leaf_nth:
  assumes "list_all2 (\<lambda>(share, b) leaf. sealed_leaf M net d context deadline share b leaf) (zip shares networks) leaves"
    and "map fst shares = map nb_node_id networks" "k < length networks"
  shows "sealed_leaf M net d context deadline (shares ! k) (networks ! k) (leaves ! k)"
    "k < length shares" "k < length leaves"
proof -
  have "length shares = length networks" using assms(2) by (metis length_map)
  then show "sealed_leaf M net d context deadline (shares ! k) (networks ! k) (leaves ! k)"
      "k < length shares" "k < length leaves"
    using list_all2_nthD [OF assms(1), of k] list_all2_lengthD [OF assms(1)] assms(3) by simp_all
qed

lemma find_sealed_leaf:
  assumes valid: "valid_descriptor M d" and tpm_leaf: "wl_node_id tpm_leaf = policy_tpm_node_id (d_policy d)"
    and leaves: "list_all2 (\<lambda>(share, b) leaf. sealed_leaf M net d context deadline share b leaf)
      (zip shares (d_networks d)) leaves"
    and shares: "map fst shares = map nb_node_id (d_networks d)" and k: "k < length (d_networks d)"
  shows "find (\<lambda>leaf. wl_node_id leaf = nb_node_id (d_networks d ! k)) (tpm_leaf # leaves) = Some (leaves ! k)"
proof -
  note sealed = sealed_leaf_nth [OF leaves shares]
  have "length shares = length (d_networks d)" using shares by (metis length_map)
  then have len: "length leaves = length (d_networks d)" using list_all2_lengthD [OF leaves] by simp
  then have "map wl_node_id leaves = map nb_node_id (d_networks d)"
    using sealed(1) by (auto simp: sealed_leaf_def intro: nth_equalityI)
  then have "distinct (map wl_node_id (tpm_leaf # leaves))"
    using leaf_keys_distinct [OF valid] tpm_leaf by simp
  then have "find (\<lambda>leaf. wl_node_id leaf = wl_node_id (leaves ! k)) (tpm_leaf # leaves) = Some (leaves ! k)"
    using find_by_key [of wl_node_id "tpm_leaf # leaves" "Suc k"] k len by (simp del: find.simps)
  moreover have "wl_node_id (leaves ! k) = nb_node_id (d_networks d ! k)"
    using sealed(1) [OF k] by (simp add: sealed_leaf_def)
  ultimately show ?thesis by (simp del: find.simps)
qed

text \<open>The shares a quorum recovered are the shares enrollment split.\<close>

lemma authentic_share:
  assumes "libraries_correct M F" "honest_network M net srv (d_networks d)" "honest_network M net' srv (d_networks d)"
    and "valid_descriptor M d"
    and "eb_descriptor (ae_body env) = d" "eb_leaves (ae_body env) = tpm_leaf # leaves"
    and "wl_node_id tpm_leaf = policy_tpm_node_id (d_policy d)"
    and "list_all2 (\<lambda>(share, b) leaf. sealed_leaf M net d (ae_context env) deadline share b leaf)
           (zip shares (d_networks d)) leaves"
    and "map fst shares = map nb_node_id (d_networks d)" "\<forall>e\<in>set shares. length (snd e) = 32"
    and "leaf_authentic M net' env deadline' i share"
  shows "(i, share) \<in> set shares"
proof -
  obtain b state blinded answer key wrapped w1 w1' w2 w2' where
    b: "b \<in> set (d_networks d)" "nb_node_id b = i"
    and key: "network_key_started M d b w1 = (Ok (state, blinded), w1')" "net' b blinded deadline' w2 = (answer, w2')"
      "network_key_answered M b (ae_context env) state answer = Ok key"
    and found: "find (\<lambda>leaf. wl_node_id leaf = nb_node_id b) (eb_leaves (ae_body env)) = Some wrapped"
    and opened: "open_key (prims M) key (wl_value wrapped) (leaf_context (ae_context env) (nb_node_id b)) = Ok share"
    using assms(11) unfolding leaf_authentic_def assms(5)
    by (auto simp: recover_leaf_answered_def result_simps)
  obtain k where k: "k < length (d_networks d)" "d_networks d ! k = b" using b(1) by (auto simp: in_set_conv_nth)
  note sealed = sealed_leaf_nth [OF assms(8,9) k(1)]
  have wrapped: "wrapped = leaves ! k"
    using found find_sealed_leaf [OF assms(4,7,8,9) k(1)] assms(6) k(2) by (simp del: find.simps)
  obtain j v where share_k: "shares ! k = (j, v)" by fastforce
  then have "length v = 32" using assms(10) sealed(2) nth_mem [of k shares] by force
  moreover have "sealed_leaf M net d (ae_context env) deadline (j, v) b (leaves ! k)"
    using sealed(1) k(2) share_k by simp
  ultimately have "open_key (prims M) key (wl_value (leaves ! k)) (leaf_context (ae_context env) (nb_node_id b)) = Ok v"
    by (intro sealed_leaf_opens [OF assms(1-3) b(1) _ _ key])
  then have "v = share" using opened wrapped by simp
  moreover have "j = i" using sealed(1) k(2) share_k b(2) by (simp add: sealed_leaf_def)
  ultimately show ?thesis using share_k sealed(2) nth_mem [of k shares] by simp
qed

text \<open>What an enrollment leaves in the envelope: the secrets, and the keys that open the wrapped values.\<close>

definition enrolled :: "('p, 'f, 'srv, 'cli, 'st, 'k, 'w) platform \<Rightarrow> 'w network_provider \<Rightarrow> 'w tpm_provider
      \<Rightarrow> descriptor \<Rightarrow> authenticated_envelope \<Rightarrow> bytes \<Rightarrow> bytes \<Rightarrow> bytes \<Rightarrow> network_share list \<Rightarrow> bytes \<Rightarrow> bool" where
  "enrolled M net tpm d env seed tpm_share network_share shares credential \<longleftrightarrow>
     eb_descriptor (ae_body env) = d \<and> valid_descriptor M d
     \<and> (\<exists>w w'. tpm_seal tpm d seed w = (Ok (eb_tpm (ae_body env)), w'))
     \<and> (\<exists>tpm_leaf leaves deadline key. eb_leaves (ae_body env) = tpm_leaf # leaves
          \<and> wl_node_id tpm_leaf = policy_tpm_node_id (d_policy d)
          \<and> derive M seed (leaf_context (ae_context env) (policy_tpm_node_id (d_policy d)))
              (ascii ''leelo/v1/tpm-wrap'') = Ok key
          \<and> open_key (prims M) key (wl_value tpm_leaf)
              (leaf_context (ae_context env) (policy_tpm_node_id (d_policy d))) = Ok tpm_share
          \<and> list_all2 (\<lambda>(share, b) leaf. sealed_leaf M net d (ae_context env) deadline share b leaf)
              (zip shares (d_networks d)) leaves)
     \<and> (\<exists>w w'. split_network (os_rng M) (d_policy d) network_share w = Some (Ok shares, w'))
     \<and> length network_share = 32
     \<and> (\<exists>root key. combine_shares tpm_share network_share = Ok root
          \<and> derive M root (ae_context env) (ascii ''leelo/v1/luks-slot'') = Ok key
          \<and> open_key (prims M) key (eb_payload (ae_body env)) (ae_context env) = Ok credential)"

lemma sealed_leaf_wf:
  assumes "aead_correct (prims M)" "fills_buffer (os_rng M)" "length (snd share) = 32"
    and "sealed_leaf M net d context deadline share b leaf"
  shows "wf_leaf leaf"
proof -
  obtain key w w' where "seal_key (prims M) (os_rng M) key (snd share) (leaf_context context (nb_node_id b)) w
      = (Ok (wl_value leaf), w')"
    using assms(4) by (auto simp: sealed_leaf_def)
  then show ?thesis using sealed_lengths [OF assms(1-3)] by (auto simp: wf_leaf_def wf_wrapped_def)
qed

lemma sealed_leaves_wf:
  assumes "aead_correct (prims M)" "fills_buffer (os_rng M)" "\<forall>e\<in>set shares. length (snd e) = 32"
    and "list_all2 (\<lambda>(share, b) leaf. sealed_leaf M net d context deadline share b leaf) (zip shares networks) leaves"
  shows "\<forall>leaf\<in>set leaves. wf_leaf leaf"
proof
  fix leaf assume "leaf \<in> set leaves"
  then obtain k where k: "k < length leaves" "leaf = leaves ! k" by (auto simp: in_set_conv_nth)
  then have "k < length shares" "k < length networks" using list_all2_lengthD [OF assms(4)] by auto
  then have "sealed_leaf M net d context deadline (shares ! k) (networks ! k) leaf"
    using list_all2_nthD2 [OF assms(4) k(1)] k(2) by simp
  then show "wf_leaf leaf"
    using sealed_leaf_wf [OF assms(1,2)] assms(3) \<open>k < length shares\<close> by (meson nth_mem)
qed

lemma prepare_enrolls:
  assumes libs: "libraries_correct M F" and wf: "wf_descriptor d"
    and prep: "prepare_inner M net tpm d signer s = Some (Ok pe, s')"
  shows "\<exists>env seed tpm_share network_share shares.
    authenticate (prims M) (voprf M) (cbor_lib M) (eddsa M) (pe_envelope pe)
      (signing_public_key (eddsa M) signer) = Ok env
    \<and> enrolled M net tpm d env seed tpm_share network_share shares (pe_credential pe)"
proof -
  have lib: "aead_correct (prims M)" "ed25519_correct (eddsa M)" "minicbor_correct (cbor_lib M)"
      "fills_buffer (os_rng M)"
    using libs by (simp_all add: libraries_correct_def)
  obtain ctx root root_shares tpm_seed blob tpm_key tpm_leaf shares leaves payload_key payload deadline
      w1 w1' w2 w2' w3 w3' w4 w4' w5 w5' s0 s0' s1 s1' s2 s2' where
    ctx: "context_hash (prims M) (voprf M) (cbor_lib M) d = Ok ctx"
    and secrets: "fresh_secret M s0 = Some (Ok (pe_credential pe), s0')" "fresh_secret M s1 = Some (Ok root, s1')"
    and split: "split (os_rng M) root 2 2 w1 = (Ok root_shares, w1')"
    and seal: "tpm_seal tpm d tpm_seed w2 = (Ok blob, w2')"
    and tpm_key: "derive M tpm_seed (leaf_context ctx (policy_tpm_node_id (d_policy d))) (ascii ''leelo/v1/tpm-wrap'') = Ok tpm_key"
    and tpm_leaf: "seal_key (prims M) (os_rng M) tpm_key (share_value (root_shares ! 0))
       (leaf_context ctx (policy_tpm_node_id (d_policy d))) w3 = (Ok tpm_leaf, w3')"
    and shares: "split_network (os_rng M) (d_policy d) (share_value (root_shares ! 1)) w4 = Some (Ok shares, w4')"
    and leaves: "prepare_leaves M net d ctx deadline 0 (zip shares (d_networks d))
       [\<lparr>wl_node_id = policy_tpm_node_id (d_policy d), wl_value = tpm_leaf\<rparr>] s2 = Some (Ok leaves, s2')"
    and payload_key: "derive M root ctx (ascii ''leelo/v1/luks-slot'') = Ok payload_key"
    and payload: "seal_key (prims M) (os_rng M) payload_key (pe_credential pe) ctx w5 = (Ok payload, w5')"
    and sign: "sign (prims M) (voprf M) (cbor_lib M) (eddsa M)
       \<lparr>eb_descriptor = d, eb_tpm = blob, eb_leaves = leaves, eb_payload = payload\<rparr> signer = Ok (pe_envelope pe)"
    using prepare_inner_Ok [OF prep] by (elim exE conjE) (rule that; assumption)
  note len = secrets [THEN fresh_secret_Ok [OF lib(4)]]
  note valid = context_hash_valid [OF wf ctx]
  obtain v1 v2 where rs: "root_shares = [\<lparr>share_index = 1, share_value = v1\<rparr>, \<lparr>share_index = 2, share_value = v2\<rparr>]"
    "length v1 = 32" "length v2 = 32" "combine_shares v1 v2 = Ok root"
    using root_shares [OF split lib(4) len(2)] .
  have shares': "split_network (os_rng M) (d_policy d) v2 w4 = Some (Ok shares, w4')"
    and tpm_leaf': "seal_key (prims M) (os_rng M) tpm_key v1
       (leaf_context ctx (policy_tpm_node_id (d_policy d))) w3 = (Ok tpm_leaf, w3')"
    using shares tpm_leaf rs(1) by simp_all
  obtain new where new: "leaves = \<lparr>wl_node_id = policy_tpm_node_id (d_policy d), wl_value = tpm_leaf\<rparr> # new"
    "list_all2 (\<lambda>(share, b) leaf. sealed_leaf M net d ctx deadline share b leaf) (zip shares (d_networks d)) new"
    using prepare_leaves_Ok [OF leaves] by auto
  define body where "body = \<lparr>eb_descriptor = d, eb_tpm = blob, eb_leaves = leaves, eb_payload = payload\<rparr>"
  have "wf_body body"
    using wf new sealed_lengths [OF lib(1,4) rs(2) tpm_leaf'] sealed_lengths [OF lib(1,4) len(1) payload]
      sealed_leaves_wf [OF lib(1,4) split_network_shares(2) [OF valid lib(4) rs(3) shares'] new(2)]
    by (simp add: wf_body_def body_def wf_leaf_def wf_wrapped_def)
  then have auth: "authenticate (prims M) (voprf M) (cbor_lib M) (eddsa M) (pe_envelope pe)
      (signing_public_key (eddsa M) signer) = Ok \<lparr>ae_body = body, ae_context = ctx\<rparr>"
    using cbor.authenticate_sign [OF cbor.intro [OF lib(3)] _ lib(2) sign] ctx by (auto simp: body_def)
  have "enrolled M net tpm d \<lparr>ae_body = body, ae_context = ctx\<rparr> tpm_seed v1 v2 shares (pe_credential pe)"
    using valid seal new tpm_key open_seal [OF lib(1) rs(2) tpm_leaf'] shares' rs(3,4) payload_key
      open_seal [OF lib(1) len(1) payload]
    by (simp add: enrolled_def body_def) blast
  with auth show ?thesis by blast
qed

lemma enrolled_quorum:
  assumes libs: "libraries_correct M F"
    and honest: "honest_network M net srv (d_networks d)" "honest_network M net' srv (d_networks d)"
    and enrolled: "enrolled M net tpm d env seed tpm_share network_share shares credential"
    and quorum: "authentic_quorum M net' env deadline available recovered"
  shows "recover_network (d_policy d) recovered = Some (Ok network_share)"
proof -
  note e = enrolled [unfolded enrolled_def]
  note v = quorum [unfolded authentic_quorum_def]
  have d: "eb_descriptor (ae_body env) = d" and valid: "valid_descriptor M d" using e by simp_all
  note facts = valid_descriptor_facts [OF valid]
  obtain w w' where split: "split_network (os_rng M) (d_policy d) network_share w = Some (Ok shares, w')"
    and len: "length network_share = 32" and fill: "fills_buffer (os_rng M)"
    using e libs by (auto simp: libraries_correct_def)
  note sh = split_network_shares [OF valid fill len split]
  have "(i, share) \<in> set shares" if "(i, share) \<in> set recovered" for i share
  proof -
    have "leaf_authentic M net' env deadline i share" using v that by auto
    then show ?thesis using authentic_share [OF libs honest valid d _ _ _ sh] e by blast
  qed
  then have sub: "set recovered \<subseteq> set shares" by auto
  have "distinct recovered" and "satisfied (\<lambda>i. i \<in> fst ` set recovered) (policy_network (d_policy d))"
    using v d by (auto simp: distinct_map)
  then show ?thesis
    using recover_split [OF facts(2,1) fill len split sub] by simp
qed

lemma enrolled_credential:
  assumes libs: "libraries_correct M F"
    and honest: "honest_network M net srv (d_networks d)" "honest_network M net' srv (d_networks d)"
    and tpm: "tpm_faithful tpm tpm'"
    and enrolled: "enrolled M net tpm d env seed tpm_share network_share shares credential"
    and evidence: "unlock_evidence M net' tpm' deadline env recovered unsealed credential'"
  shows "credential' = credential"
proof -
  note e = enrolled [unfolded enrolled_def]
  note v = evidence [unfolded unlock_evidence_def]
  have "recover_network (d_policy d) recovered = Some (Ok network_share)"
    using enrolled_quorum [OF libs honest enrolled] v by blast
  moreover have "us_seed unsealed = seed"
    using e v tpm unfolding tpm_faithful_def by metis
  ultimately show ?thesis
    using e v
    by (auto simp: tpm_evidence_authenticate_def payload_evidence_authenticate_def Let_def result_simps split: if_splits)
qed

end
