(* ===== verification/Unlock_Liveness.thy ===== *)
theory Unlock_Liveness
  imports Enrollment "HOL-Library.Sublist"
begin

text \<open>
  An enrolled volume can be unlocked: with providers that answer, a TPM that unseals and a clock that stays
  within the budget, the operation returns the enrolled credential. The schedule is any that polls and
  answers the leaves in order before the timer fires, with any other events in between; that is long enough
  because a leaf is started whenever one finishes and the policy is satisfied at the latest when every leaf
  has answered.
\<close>

section \<open>Cooperating environment\<close>

definition cooperative :: "('p, 'f, 'srv, 'cli, 'st, 'k, 'w) platform \<Rightarrow> nat \<Rightarrow> bool" where
  "cooperative M t \<longleftrightarrow>
     (\<forall>w. t \<le> fst (clock M w) \<and> fst (clock M w) < t + OPERATION_BUDGET)
     \<and> (\<forall>w. \<not> inside_runtime M w \<and> fst (build_runtime M w))
     \<and> (\<forall>w n. fst (os_rng M w n) \<noteq> None)
     \<and> (\<forall>input st. client_blind (voprf M) input st \<noteq> None)"

lemma cooperative_in_time: "cooperative M t \<Longrightarrow> t + OPERATION_BUDGET \<le> deadline \<Longrightarrow> fst (clock M w) < deadline"
  unfolding cooperative_def by (meson order_less_le_trans)

text \<open>Every provider answers a request that is made before its deadline.\<close>

definition responsive :: "('p, 'f, 'srv, 'cli, 'st, 'k, 'w) platform \<Rightarrow> 'w network_provider \<Rightarrow> network_binding list \<Rightarrow> bool" where
  "responsive M net networks \<longleftrightarrow> (\<forall>b\<in>set networks. \<forall>message deadline w. fst (clock M w) < deadline \<longrightarrow>
     (\<exists>ev w'. net b (blinded_serialize (voprf M) message) deadline w = (Ok ev, w')))"

lemma responsive_answers:
  assumes "responsive M net networks" "b \<in> set networks" "network_key_started M d b' w1 = (Ok (state, blinded), w1')"
    and "fst (clock M w) < deadline"
  shows "\<exists>ev w'. net b blinded deadline w = (Ok ev, w')"
proof -
  obtain message where "blinded = blinded_serialize (voprf M) message"
    using assms(3) by (auto simp: network_key_started_def blind_with_entropy_def result_simps
        split: prod.splits result.splits if_splits)
  then show ?thesis using assms(1,2,4) by (simp add: responsive_def)
qed

lemma network_key_started_succeeds:
  assumes "cooperative M t" "length (d_binding_id d) = 32" "length (nb_input_seed b) = 32"
  shows "\<exists>state blinded w'. network_key_started M d b w = (Ok (state, blinded), w')"
proof -
  obtain seed w1 where seed: "os_rng M w 32 = (Some seed, w1)"
    using assms(1) unfolding cooperative_def by (metis not_None_eq prod.collapse)
  obtain inner message where blind:
    "client_blind (voprf M) (network_input d b) (chacha_new (chacha M) seed (replicate 12 0)) = Some (inner, message)"
    using assms(1) unfolding cooperative_def by (metis not_None_eq surj_pair)
  have "network_input d b \<noteq> []" "length (network_input d b) \<le> MAX_INPUT_BYTES"
    using assms(2,3) by (simp_all add: network_input_def)
  then show ?thesis
    using seed blind
    by (simp add: network_key_started_def blind_with_entropy_def operation_rng_from_entropy_def)
qed

lemma sealed_leaf_answered:
  assumes "libraries_correct M F" "valid_descriptor M d" "honest_network M net srv (d_networks d)"
    and "honest_network M net' srv (d_networks d)" "b \<in> set (d_networks d)"
    and "sealed_leaf M net d context deadline share b leaf"
    and "network_key_started M d b w1 = (Ok (state, blinded), w1')" "net' b blinded deadline' w2 = (Ok ev, w2')"
  shows "\<exists>key. network_key_answered M b context state (Ok ev) = Ok key"
proof -
  have voprf: "voprf_correct (voprf M) F" using assms(1) by (simp add: libraries_correct_def)
  obtain key where key: "derive_wrap_key (prims M) (F (srv b) (network_input d b)) (leaf_context context (nb_node_id b)) = Ok key"
    using assms(6) honest_key [OF voprf assms(3,5)] unfolding sealed_leaf_def by blast
  have pk: "nb_public_key b = secret_server_public_key (voprf M) (srv b)"
    "server_public_key_from_bytes (voprf M) (nb_public_key b) = Ok (nb_public_key b)"
    using assms(3,5) validate_descriptor_Ok(2) [of "prims M" "voprf M" d] assms(2)
    by (simp_all add: honest_network_def valid_descriptor_def)
  obtain fill :: "'g rng" and q q' where
    ev: "evaluate_with_entropy (voprf M) (chacha M) fill (srv b) blinded q = (Ok ev, q')"
    using assms(4,5,8) unfolding honest_network_def by blast
  obtain v where "blind_with_entropy (voprf M) (chacha M) (os_rng M) (network_input d b) w1 = (Ok (state, blinded), v)"
    using assms(7) by (auto simp: network_key_started_def result_simps split: prod.splits)
  from voprf_agreement [OF voprf this ev] show ?thesis
    using pk key by (simp add: network_key_answered_def)
qed

text \<open>Every leaf of an enrolled envelope recovers when its provider answers.\<close>

lemma enrolled_leaf_answered:
  assumes libs: "libraries_correct M F"
    and honest: "honest_network M net srv (d_networks d)" "honest_network M net' srv (d_networks d)"
    and enrolled: "enrolled M net tpm d env seed tpm_share network_share shares credential"
    and b: "b \<in> set (d_networks d)"
    and key: "network_key_started M d b w1 = (Ok (state, blinded), w1')" "net' b blinded deadline' w2 = (Ok ev, w2')"
  shows "\<exists>share. recover_leaf_answered M env b state (Ok ev) = Ok share"
proof -
  note e = enrolled [unfolded enrolled_def]
  have valid: "valid_descriptor M d" using e by simp
  obtain w w' where split: "split_network (os_rng M) (d_policy d) network_share w = Some (Ok shares, w')"
    and len: "length network_share = 32" and fill: "fills_buffer (os_rng M)"
    using e libs by (auto simp: libraries_correct_def)
  note sh = split_network_shares [OF valid fill len split]
  obtain tpm_leaf leaves deadline where leaves: "eb_leaves (ae_body env) = tpm_leaf # leaves"
    "wl_node_id tpm_leaf = policy_tpm_node_id (d_policy d)"
    "list_all2 (\<lambda>(share, b) leaf. sealed_leaf M net d (ae_context env) deadline share b leaf) (zip shares (d_networks d)) leaves"
    using e by blast
  obtain k where k: "k < length (d_networks d)" "d_networks d ! k = b" using b by (auto simp: in_set_conv_nth)
  note sealed = sealed_leaf_nth [OF leaves(3) sh(1) k(1)]
  obtain key where answered: "network_key_answered M b (ae_context env) state (Ok ev) = Ok key"
    using sealed_leaf_answered [OF libs valid honest b sealed(1) [unfolded k(2)] key] by blast
  have "length (snd (shares ! k)) = 32" using sh(2) sealed(2) by simp
  then have "open_key (prims M) key (wl_value (leaves ! k)) (leaf_context (ae_context env) (nb_node_id b)) = Ok (snd (shares ! k))"
    using sealed_leaf_opens [OF libs honest b, of d "ae_context env" deadline "fst (shares ! k)" "snd (shares ! k)" "leaves ! k"]
      sealed(1) k(2) key answered by simp
  moreover have "find (\<lambda>leaf. wl_node_id leaf = nb_node_id b) (eb_leaves (ae_body env)) = Some (leaves ! k)"
    using find_sealed_leaf [OF valid leaves(2,3) sh(1) k(1)] leaves(1) k(2) by simp
  ultimately show ?thesis using answered by (simp add: recover_leaf_answered_def)
qed

section \<open>Schedules that serve every leaf\<close>

definition round_robin :: "nat \<Rightarrow> nat \<Rightarrow> schedule_event list" where
  "round_robin i n = concat (map (\<lambda>k. [Poll k, Answer k]) [i..<n])"

lemma round_robin_simps:
  "round_robin n n = []" "i < n \<Longrightarrow> round_robin i n = Poll i # Answer i # round_robin (Suc i) n"
  by (simp_all add: round_robin_def upt_conv_Cons)

text \<open>A schedule serves \<open>n\<close> leaves if, before the timer fires, it polls and then answers the leaves in order,
  with any other events in between. Every schedule that gives each leaf a poll and an answer again and again
  does so after finitely many events.\<close>

definition served :: "nat \<Rightarrow> schedule_event list \<Rightarrow> bool" where
  "served n schedule \<longleftrightarrow> subseq (round_robin 0 n) (takeWhile (\<lambda>e. e \<noteq> Deadline_Fires) schedule)"

lemma round_robin_no_deadline: "Deadline_Fires \<notin> set (round_robin i n)"
  by (simp add: round_robin_def)

lemma served_round_robin: "served n (round_robin 0 n)"
proof -
  have "takeWhile (\<lambda>e. e \<noteq> Deadline_Fires) (round_robin 0 n) = round_robin 0 n"
    using round_robin_no_deadline by (metis (full_types) takeWhile_eq_all_conv)
  then show ?thesis unfolding served_def by (simp only: subseq_order.order_refl)
qed

text \<open>A leaf that is finished, or whose future waits for its provider.\<close>

definition leaf_ready :: "nat \<Rightarrow> 'cli recovery \<Rightarrow> bool" where
  "leaf_ready k st \<longleftrightarrow> k \<notin> set (open_leaves st)
     \<or> (\<exists>f\<in>set (rec_pending st). lf_index f = k \<and> lf_phase f \<noteq> Unpolled)"

lemma set_waiting_phase:
  "f \<in> set fs \<Longrightarrow> lf_phase f \<noteq> Unpolled \<or> lf_index f = i \<Longrightarrow>
     \<exists>g\<in>set (set_waiting i state blinded fs). lf_index g = lf_index f \<and> lf_phase g \<noteq> Unpolled"
  by (induction fs) auto

lemma step_progress:
  assumes "distinct (open_leaves st)" "recovery_step M net env deadline e st s = Some (Ok (Inr st'), s')"
  shows "set (open_leaves st') \<subseteq> set (open_leaves st)" (is ?less)
    "leaf_ready k st \<Longrightarrow> leaf_ready k st'" (is "_ \<Longrightarrow> ?kept")
    "e = Poll k \<Longrightarrow> k \<notin> fst ` set (rec_remaining st) \<Longrightarrow> leaf_ready k st'" (is "_ \<Longrightarrow> _ \<Longrightarrow> ?polled")
    "e = Answer k \<Longrightarrow> leaf_ready k st \<Longrightarrow> k \<notin> set (open_leaves st')" (is "_ \<Longrightarrow> _ \<Longrightarrow> ?answered")
proof -
  have "?less \<and> (leaf_ready k st \<longrightarrow> ?kept) \<and> (e = Poll k \<longrightarrow> k \<notin> fst ` set (rec_remaining st) \<longrightarrow> ?polled)
      \<and> (e = Answer k \<longrightarrow> leaf_ready k st \<longrightarrow> ?answered)"
    using assms(2)
  proof (cases rule: recovery_step_continues)
    case idle
    have "leaf_ready k st" if "e = Poll k" "k \<notin> fst ` set (rec_remaining st)"
      using that idle(2)
      by (fastforce simp: polled_leaf_def leaf_ready_def open_leaves_def find_None_iff find_Some_iff
          split: option.splits leaf_phase.splits)
    moreover have "k \<notin> set (open_leaves st)" if answer: "e = Answer k" "leaf_ready k st"
    proof
      assume "k \<in> set (open_leaves st)"
      then obtain f where "f \<in> set (rec_pending st)" "lf_index f = k" "lf_phase f \<noteq> Unpolled"
        using answer(2) by (auto simp: leaf_ready_def)
      moreover then obtain g where "find (\<lambda>f. lf_index f = k) (rec_pending st) = Some g"
        by (metis (mono_tags, lifting) find_None_iff not_None_eq)
      moreover then have "g = f"
        using find_pending calculation(1,2) assms(1) by (metis distinct_append distinct_map inj_onD open_leaves_def)
      ultimately show False using idle(3) answer(1) by (simp add: asked_leaf_def split: leaf_phase.splits)
    qed
    ultimately show ?thesis using idle(1) by simp
  next
    case (waits i f starts state blinded)
    have "open_leaves st' = open_leaves st" using waits(4) by (simp add: open_leaves_def del: map_map)
    moreover have "\<exists>f\<in>set (rec_pending st'). lf_index f = i \<and> lf_phase f \<noteq> Unpolled"
      using set_waiting_phase [OF find_pending(1) [OF waits(1)], of i state blinded] find_pending(2) [OF waits(1)] waits(4)
      by (simp del: set_map)
    moreover have "\<exists>g\<in>set (rec_pending st'). lf_index g = j \<and> lf_phase g \<noteq> Unpolled"
      if "g \<in> set (rec_pending st)" "lf_index g = j" "lf_phase g \<noteq> Unpolled" for g j
      using set_waiting_phase [OF that(1), of i state blinded] that(2,3) waits(4) by (simp del: set_map)
    ultimately show ?thesis using waits(3) by (auto simp: leaf_ready_def)
  next
    case (finishes i f starts result)
    have open_st: "set (open_leaves st') = set (open_leaves st) - {i}"
      using start_next_fields(1) [OF finishes(3)] drop_leaf_open(1) [of "st\<lparr>rec_starts := starts\<rparr>" i f] assms(1) finishes(1)
      by simp
    have kept: "g \<in> set (rec_pending st')" if "g \<in> set (rec_pending st)" "lf_index g \<noteq> i" for g
      using that start_next_fields(5) [OF finishes(3)] by (simp add: drop_leaf_def)
    have "leaf_ready k st \<longrightarrow> leaf_ready k st'"
      using open_st kept unfolding leaf_ready_def by blast
    moreover have "i = k" if "e = Poll k \<or> e = Answer k" using that finishes(2) by (auto split: if_splits)
    ultimately show ?thesis using open_st by (auto simp: leaf_ready_def)
  qed
  then show ?less "leaf_ready k st \<Longrightarrow> ?kept" "e = Poll k \<Longrightarrow> k \<notin> fst ` set (rec_remaining st) \<Longrightarrow> ?polled"
    "e = Answer k \<Longrightarrow> leaf_ready k st \<Longrightarrow> ?answered" by blast+
qed

text \<open>The leaves are started in order, so the first unfinished one has been started.\<close>

lemma first_open_started:
  assumes "queue_inv networks st" "\<forall>j<k. j \<notin> set (open_leaves st)"
    and "\<forall>f\<in>set (rec_pending st). lf_index f < length networks"
  shows "k \<notin> fst ` set (rec_remaining st)"
proof
  assume k: "k \<in> fst ` set (rec_remaining st)"
  obtain m where m: "rec_remaining st = drop m (enumerate 0 networks)" using assms(1) by (auto simp: queue_inv_def)
  have ids: "map fst (rec_remaining st) = [m..<length networks]" by (simp add: m flip: drop_map)
  then have "k \<in> set [m..<length networks]" using k by (metis list.set_map)
  have "rec_pending st \<noteq> []" using k assms(1) by (auto simp: queue_inv_def)
  then obtain f where f: "f \<in> set (rec_pending st)" by (cases "rec_pending st") auto
  moreover have "lf_index f \<notin> set [m..<length networks]"
    using f assms(1) unfolding queue_inv_def open_leaves_def ids by auto
  moreover have "lf_index f \<in> set (open_leaves st)" using f by (simp add: open_leaves_def)
  then have "k \<le> lf_index f" using assms(2) not_le by blast
  ultimately show False using \<open>k \<in> set [m..<length networks]\<close> assms(3) by fastforce
qed

lemma policy_error_no_deadline: "engine_policy_error e \<noteq> DeadlineExceeded failures"
  by (cases e rule: engine_policy_error.cases) simp_all

lemma all_available_satisfied:
  assumes "valid_descriptor M d"
  shows "satisfied (\<lambda>i. i \<in> set (map nb_node_id (d_networks d))) (policy_network (d_policy d))"
proof -
  note facts = valid_descriptor_facts [OF assms]
  have "satisfied (\<lambda>_. True) (policy_network (d_policy d))" by (rule satisfied_all [OF facts(6)])
  then show ?thesis
    using new_policy(6) [OF facts(1,2)] facts(3)
    by (subst satisfied_cong [of _ _ "\<lambda>_. True"]) auto
qed

text \<open>As long as no leaf has failed and the policy is not satisfied, a leaf is pending.\<close>

lemma leaf_pending:
  assumes valid: "valid_descriptor M (eb_descriptor (ae_body env))" and good: "recovery_good M net env deadline st"
    and queue: "queue_inv (env_networks env) st" and failures: "rec_failures st = []"
  shows "rec_pending st \<noteq> []"
proof
  assume "rec_pending st = []"
  then have "open_leaves st = []" using queue by (auto simp: queue_inv_def open_leaves_def)
  then have n: "length (rec_available st) = length (map nb_node_id (env_networks env))"
    using queue failures by (simp add: queue_inv_def)
  have "distinct (rec_available st)" "set (rec_available st) \<subseteq> set (map nb_node_id (env_networks env))"
    using good by (auto simp: recovery_good_def recovery_inv_def leaf_ids_def)
  then have "set (rec_available st) = set (map nb_node_id (env_networks env))"
    using n by (metis List.finite_set card_length card_subset_eq distinct_card le_antisym card_mono)
  then show False
    using all_available_satisfied [OF valid] good by (simp add: recovery_good_def)
qed

text \<open>With providers that answer, no event but the timer makes the loop fail, and no leaf fails.\<close>

lemma served_poll:
  assumes coop: "cooperative M t" and d: "wf_descriptor (eb_descriptor (ae_body env))"
    and good: "recovery_good M net env deadline st"
  shows "\<exists>st' s'. recovery_step M net env deadline (Poll i) st s = Some (Ok (Inr st'), s') \<and> rec_failures st' = rec_failures st"
proof (cases "find (\<lambda>f. lf_index f = i) (rec_pending st)")
  case (Some f)
  show ?thesis
  proof (cases "lf_phase f")
    case Unpolled
    have "lf_binding f \<in> set (env_networks env)"
      using good find_pending(1) [OF Some] by (auto simp: recovery_good_def recovery_inv_def)
    then have wf: "length (d_binding_id (eb_descriptor (ae_body env))) = 32" "length (nb_input_seed (lf_binding f)) = 32"
      using d by (simp_all add: wf_descriptor_def wf_binding_def)
    obtain now w1 where now: "clock M (op_world s) = (now, w1)" by fastforce
    obtain state blinded w2 where
      "network_key_started M (eb_descriptor (ae_body env)) (lf_binding f) w1 = (Ok (state, blinded), w2)"
      using network_key_started_succeeds [OF coop wf] by blast
    then show ?thesis
      using now Some Unpolled
      by (simp add: recovery_step_def poll_leaf_def io_then_def io_world_def io_of_def Let_def)
  qed (simp add: recovery_step_def Some io_of_def)
qed (simp add: recovery_step_def io_of_def)

lemma served_answer:
  assumes libs: "libraries_correct M F" and coop: "cooperative M t" "t + OPERATION_BUDGET \<le> deadline"
    and honest: "honest_network M net srv (d_networks d)" "honest_network M net' srv (d_networks d)"
    and enrolled: "enrolled M net tpm d env seed tpm_share network_share shares credential"
    and responsive: "responsive M net' (d_networks d)"
    and good: "recovery_good M net' env deadline st"
    and f: "find (\<lambda>f. lf_index f = i) (rec_pending st) = Some f" "lf_phase f = Waiting state blinded"
  shows "\<exists>share s'. recovery_step M net' env deadline (Answer i) st s = settle_leaf M d (lf_binding f) (Ok share) (drop_leaf i st) s'"
proof -
  have d: "eb_descriptor (ae_body env) = d" using enrolled by (simp add: enrolled_def)
  have b: "lf_binding f \<in> set (d_networks d)"
    using good find_pending(1) [OF f(1)] by (auto simp: recovery_good_def recovery_inv_def d)
  obtain w w' where started: "network_key_started M d (lf_binding f) w = (Ok (state, blinded), w')"
    using good find_pending(1) [OF f(1)] f(2) by (fastforce simp: recovery_good_def future_good_def d)
  obtain ev w2 where ev: "net' (lf_binding f) blinded deadline (op_world s) = (Ok ev, w2)"
    using responsive_answers [OF responsive b started] cooperative_in_time [OF coop] by blast
  obtain share where "recover_leaf_answered M env (lf_binding f) state (Ok ev) = Ok share"
    using enrolled_leaf_answered [OF libs honest enrolled b started ev] by blast
  then show ?thesis
    using f ev by (auto simp: recovery_step_def answer_leaf_def io_then_def io_world_def d)
qed

lemma settle_leaf_served:
  assumes valid: "valid_descriptor M d" and room: "room_for (d_networks d) b st"
    and settled: "settle_leaf M d b (Ok share) st s = Some (r, s')"
  shows "(\<exists>p. r = Err (engine_policy_error p)) \<or> (\<exists>out. r = Ok (Inl out))
    \<or> (\<exists>st'. r = Ok (Inr st') \<and> rec_failures st' = rec_failures st)"
proof -
  let ?st = "record_leaf b (Ok share) st"
  obtain s1 where eq: "settle_leaf M d b (Ok share) st s =
    (if satisfied (\<lambda>i. i \<in> set (rec_available ?st)) (policy_network (d_policy d))
     then map_option (\<lambda>r. (map_ok (\<lambda>share. Inl (share, rec_failures ?st, rec_available ?st))
            (map_err engine_policy_error r), s1)) (recover_network (d_policy d) (rec_recovered ?st))
     else map_option (\<lambda>st'. (Ok (Inr st'), s1)) (start_next ?st))"
    using settle_leaf_eq [OF valid room refl] by blast
  show ?thesis
  proof (cases "satisfied (\<lambda>i. i \<in> set (rec_available ?st)) (policy_network (d_policy d))")
    case True
    then obtain x where "r = map_ok (\<lambda>share. Inl (share, rec_failures ?st, rec_available ?st)) (map_err engine_policy_error x)"
      using settled unfolding eq by (auto simp del: record_leaf_fields)
    then show ?thesis by (cases x) auto
  next
    case False
    then obtain st' where "r = Ok (Inr st')" "start_next ?st = Some st'"
      using settled unfolding eq by auto
    then show ?thesis using start_next_fields(3) [of ?st st'] by (simp add: record_leaf_def)
  qed
qed

lemma served_step:
  assumes libs: "libraries_correct M F" and coop: "cooperative M t" "t + OPERATION_BUDGET \<le> deadline"
    and honest: "honest_network M net srv (d_networks d)" "honest_network M net' srv (d_networks d)"
    and enrolled: "enrolled M net tpm d env seed tpm_share network_share shares credential"
    and responsive: "responsive M net' (d_networks d)"
    and good: "recovery_good M net' env deadline st" and e: "e \<noteq> Deadline_Fires"
  shows "\<exists>r s'. recovery_step M net' env deadline e st s = Some (Ok r, s')
    \<and> (\<forall>st'. r = Inr st' \<longrightarrow> recovery_good M net' env deadline st' \<and> rec_failures st' = rec_failures st)"
proof -
  have d: "eb_descriptor (ae_body env) = d" and valid: "valid_descriptor M d"
    using enrolled by (simp_all add: enrolled_def)
  obtain r s' where step: "recovery_step M net' env deadline e st s = Some (r, s')" "step_allowed M net' env deadline r"
    using recovery_step_allowed [OF valid [folded d] good] by blast
  have shape: "(\<exists>p. r = Err (engine_policy_error p)) \<or> (\<exists>out. r = Ok (Inl out))
      \<or> (\<exists>st'. r = Ok (Inr st') \<and> rec_failures st' = rec_failures st)"
  proof (cases e)
    case (Poll i)
    have "wf_descriptor (eb_descriptor (ae_body env))" using valid d by (simp add: valid_descriptor_def)
    then show ?thesis using served_poll [OF coop(1) _ good, of i s] step(1) Poll by auto
  next
    case (Answer i)
    show ?thesis
    proof (cases "\<exists>f state blinded. find (\<lambda>f. lf_index f = i) (rec_pending st) = Some f \<and> lf_phase f = Waiting state blinded")
      case True
      then obtain f state blinded where f: "find (\<lambda>f. lf_index f = i) (rec_pending st) = Some f" "lf_phase f = Waiting state blinded"
        by blast
      obtain share s1 where "settle_leaf M d (lf_binding f) (Ok share) (drop_leaf i st) s1 = Some (r, s')"
        using served_answer [OF libs coop honest enrolled responsive good f, of s] step(1) Answer by auto
      moreover have "room_for (d_networks d) (lf_binding f) (drop_leaf i st)"
        using drop_leaf_room [OF _ f(1)] good by (simp add: recovery_good_def d)
      ultimately show ?thesis using settle_leaf_served [OF valid, of "lf_binding f" "drop_leaf i st" share s1 r s'] by simp
    next
      case False
      then have "r = Ok (Inr st)"
        using step(1) Answer by (auto simp: recovery_step_def io_of_def split: option.splits leaf_phase.splits)
      then show ?thesis by simp
    qed
  qed (use e in simp)
  moreover have "r \<noteq> Err (engine_policy_error p)" for p
  proof
    assume "r = Err (engine_policy_error p)"
    then obtain recovered available policy_err where "authentic_quorum M net' env deadline available recovered"
        "recover_network (d_policy d) recovered = Some (Err policy_err)"
      using step(2) policy_error_no_deadline [of p] by (auto simp: step_allowed_def d)
    then show False using enrolled_quorum [OF libs honest enrolled] by fastforce
  qed
  ultimately show ?thesis using step by (auto simp: step_allowed_def)
qed

text \<open>What is left of the round robin: the leaves before \<open>k\<close> are finished.\<close>

definition still_served :: "nat \<Rightarrow> schedule_event list \<Rightarrow> 'cli recovery \<Rightarrow> bool" where
  "still_served n todo st \<longleftrightarrow> (\<exists>k\<le>n. (\<forall>j<k. j \<notin> set (open_leaves st))
     \<and> (todo = round_robin k n \<or> k < n \<and> todo = Answer k # round_robin (Suc k) n \<and> leaf_ready k st))"

lemma still_servedI:
  "k \<le> n \<Longrightarrow> \<forall>j<k. j \<notin> set (open_leaves st) \<Longrightarrow> still_served n (round_robin k n) st"
  "k < n \<Longrightarrow> \<forall>j<k. j \<notin> set (open_leaves st) \<Longrightarrow> leaf_ready k st \<Longrightarrow> still_served n (Answer k # round_robin (Suc k) n) st"
  by (auto simp: still_served_def intro: exI [of _ k])

lemma still_served_step:
  assumes "still_served n todo st" "queue_inv networks st" "\<forall>f\<in>set (rec_pending st). lf_index f < length networks"
    and "recovery_step M net env deadline e st s = Some (Ok (Inr st'), s')"
  shows "still_served n todo st'" "todo = e # todo' \<Longrightarrow> still_served n todo' st'"
proof -
  have "distinct (open_leaves st)" using assms(2) by (simp add: queue_inv_def)
  note p = step_progress [OF this assms(4)]
  obtain k where k: "k \<le> n" "\<forall>j<k. j \<notin> set (open_leaves st)"
    "todo = round_robin k n \<or> k < n \<and> todo = Answer k # round_robin (Suc k) n \<and> leaf_ready k st"
    using assms(1) by (auto simp: still_served_def)
  have k': "\<forall>j<k. j \<notin> set (open_leaves st')" using k(2) p(1) by blast
  show "still_served n todo st'"
    using k(3) still_servedI(1) [OF k(1) k'] still_servedI(2) [OF _ k' p(2)] by (elim disjE conjE) simp_all
  show "still_served n todo' st'" if todo: "todo = e # todo'"
  proof (cases "todo = round_robin k n")
    case True
    have "k < n" using True todo k(1) round_robin_simps(1) [of n] by (cases "k = n") auto
    then have "e = Poll k" "todo' = Answer k # round_robin (Suc k) n" using True todo by (simp_all add: round_robin_simps)
    then show ?thesis
      using still_servedI(2) [OF \<open>k < n\<close> k' p(3)] first_open_started [OF assms(2) k(2) assms(3)] by simp
  next
    case False
    then have "k < n" "e = Answer k" "todo' = round_robin (Suc k) n" "leaf_ready k st" using k(3) todo by auto
    then have "\<forall>j<Suc k. j \<notin> set (open_leaves st')" using p(4) k' less_Suc_eq by metis
    then show ?thesis using still_servedI(1) [of "Suc k" n st'] \<open>k < n\<close> \<open>todo' = _\<close> by simp
  qed
qed

lemma still_served_done:
  assumes "still_served (length networks) [] st" "queue_inv networks st"
    and "\<forall>f\<in>set (rec_pending st). lf_index f < length networks"
  shows "rec_pending st = []"
proof -
  obtain k where "k \<le> length networks" "\<forall>j<k. j \<notin> set (open_leaves st)" "round_robin k (length networks) = []"
    using assms(1) by (auto simp: still_served_def)
  then have "\<forall>j<length networks. j \<notin> set (open_leaves st)"
    by (cases "k = length networks") (auto simp: round_robin_simps)
  then show ?thesis using assms(3) by (cases "rec_pending st") (auto simp: open_leaves_def)
qed

lemma served_loop:
  assumes libs: "libraries_correct M F" and coop: "cooperative M t" "t + OPERATION_BUDGET \<le> deadline"
    and honest: "honest_network M net srv (d_networks d)" "honest_network M net' srv (d_networks d)"
    and enrolled: "enrolled M net tpm d env seed tpm_share network_share shares credential"
    and responsive: "responsive M net' (d_networks d)"
    and "recovery_good M net' env deadline st" "queue_inv (d_networks d) st" "rec_failures st = []"
    and "still_served (length (d_networks d)) todo st" "subseq todo (takeWhile (\<lambda>e. e \<noteq> Deadline_Fires) schedule)"
  shows "\<exists>out s'. recovery_loop M net' env deadline schedule st s = Some (Ok out, s')"
  using assms(8-12)
proof (induction schedule arbitrary: todo st s)
  case Nil
  have d: "eb_descriptor (ae_body env) = d" and valid: "valid_descriptor M (eb_descriptor (ae_body env))"
    using enrolled by (simp_all add: enrolled_def)
  have "\<forall>f\<in>set (rec_pending st). lf_index f < length (d_networks d)"
    using Nil(1) by (auto simp: recovery_good_def recovery_inv_def d)
  moreover have "todo = []" using Nil(5) by (cases todo) auto
  ultimately show ?case
    using still_served_done [of "d_networks d" st] leaf_pending [OF valid Nil(1)] Nil(2-4) d by auto
next
  case (Cons e schedule)
  have d: "eb_descriptor (ae_body env) = d" and valid: "valid_descriptor M (eb_descriptor (ae_body env))"
    using enrolled by (simp_all add: enrolled_def)
  have index: "\<forall>f\<in>set (rec_pending st). lf_index f < length (d_networks d)"
    using Cons.prems(1) by (auto simp: recovery_good_def recovery_inv_def d)
  have pending: "rec_pending st \<noteq> []" using leaf_pending [OF valid Cons.prems(1)] Cons.prems(2,3) d by simp
  then have "todo \<noteq> []" using still_served_done [OF _ Cons.prems(2) index] Cons.prems(4) by blast
  then have e: "e \<noteq> Deadline_Fires" using Cons.prems(5) by auto
  obtain r s1 where step: "recovery_step M net' env deadline e st s = Some (Ok r, s1)"
      "\<And>st'. r = Inr st' \<Longrightarrow> recovery_good M net' env deadline st' \<and> rec_failures st' = rec_failures st"
    using served_step [OF libs coop honest enrolled responsive Cons.prems(1) e] by blast
  show ?case
  proof (cases r)
    case (Inl out)
    then show ?thesis using step(1) pending by (cases out) (simp add: io_then_def io_of_def)
  next
    case (Inr st')
    note step' = step(1) [unfolded Inr]
    note kept = still_served_step [OF Cons.prems(4,2) index step']
    obtain todo' where "subseq todo' (takeWhile (\<lambda>e. e \<noteq> Deadline_Fires) schedule)" "still_served (length (d_networks d)) todo' st'"
      using Cons.prems(5) e kept by (cases todo) (auto split: if_splits)
    then have "\<exists>out s'. recovery_loop M net' env deadline schedule st' s1 = Some (Ok out, s')"
      using Cons.IH step(2) [OF Inr] queue_inv_step [OF Cons.prems(2) step'] Cons.prems(3) by metis
    then show ?thesis using step' pending by (simp add: io_then_def)
  qed
qed

lemma recovery_succeeds:
  assumes libs: "libraries_correct M F" and coop: "cooperative M t" "t + OPERATION_BUDGET \<le> deadline"
    and honest: "honest_network M net srv (d_networks d)" "honest_network M net' srv (d_networks d)"
    and enrolled: "enrolled M net tpm d env seed tpm_share network_share shares credential"
    and responsive: "responsive M net' (d_networks d)" and served: "served (length (d_networks d)) schedule"
  shows "\<exists>out s'. recover_network_observed M net' env deadline schedule s = Some (Ok out, s')"
proof -
  have d: "eb_descriptor (ae_body env) = d" and valid: "valid_descriptor M (eb_descriptor (ae_body env))"
    using enrolled by (simp_all add: enrolled_def)
  obtain st where st: "recovery_start (d_networks d) = Some st" "recovery_good M net' env deadline st"
    using recovery_start_good [OF valid] d by auto
  note queue = recovery_start_queue [OF st(1)]
  have "still_served (length (d_networks d)) (round_robin 0 (length (d_networks d))) st"
    by (rule still_servedI(1)) simp_all
  then show ?thesis
    using served_loop [OF libs coop honest enrolled responsive st(2)] queue valid_descriptor_facts(5) [OF valid] served st(1)
    by (simp add: recover_network_observed_def d served_def)
qed

section \<open>The phases\<close>

lemma io_then_step: "m s = Some (Ok x, s') \<Longrightarrow> io_then m f s = f x s'"
  by (simp add: io_then_def)

lemma check_deadline_succeeds:
  assumes "cooperative M t" "t + OPERATION_BUDGET \<le> deadline"
  shows "\<exists>s'. check_deadline M deadline s = Some (Ok (), s')"
proof -
  obtain now w where now: "clock M (op_world s) = (now, w)" by fastforce
  then have "now < deadline" using assms unfolding cooperative_def by (metis fst_conv order_less_le_trans)
  then show ?thesis using now by (simp add: check_deadline_def io_then_def io_world_def io_of_def)
qed

lemma runtime_succeeds: "cooperative M t \<Longrightarrow> \<exists>s'. runtime M s = Some (Ok (), s')"
  by (cases "build_runtime M (op_world s)")
     (auto simp: cooperative_def runtime_def io_then_def io_world_def io_of_def dest!: spec [of _ "op_world s"])

lemma io_stage_succeeds: "\<exists>s'. io_stage clk stage s = Some (Ok (), s')"
  by (auto simp: io_stage_def split: prod.splits)

lemma io_begin_succeeds: "\<exists>s'. io_begin clk p s = Some (Ok (), s')"
  by (auto simp: io_begin_def split: prod.splits)

lemma accept_all_run:
  "run_steps session_step session (map Accept_Network ids) = (map (\<lambda>i. (Accept_Network i, Ok ())) ids, session')
     \<Longrightarrow> accept_all ids session = Ok session'"
  by (induction ids arbitrary: session) (auto simp: session_try_def split: prod.splits)

text \<open>A session that has accepted a quorum: only the TPM, the live authorization and the root are missing.\<close>

definition quorum_session :: "bool \<Rightarrow> policy_session \<Rightarrow> bool" where
  "quorum_session require_live session \<longleftrightarrow> session_require_live session = require_live
     \<and> envelope_authenticated (session_state session) \<and> network_satisfied_flag (session_state session)
     \<and> \<not> released (session_state session)"

lemma accept_quorum:
  assumes "production_policy_new mode tpm network = Ok policy" "wf_node network"
    and "session_authenticate_envelope (session_new policy) = (Ok (), session)"
    and "distinct available" "set available \<subseteq> set (network_leaf_ids policy)"
    and "satisfied (\<lambda>i. i \<in> set available) network" "available \<noteq> []"
  shows "\<exists>session'. accept_all available session = Ok session' \<and> quorum_session (policy_mode policy = Attested) session'"
proof -
  note facts = new_policy [OF assms(1,2)]
  have s: "session_plan session = policy_plan policy" "\<not> released (session_state session)"
      "envelope_authenticated (session_state session)" "session_require_live session = (policy_mode policy = Attested)"
      "session_responses session = map ((\<lambda>_. False) \<circ> fst) (plan_leaves (session_plan session))"
    using assms(3) by (auto simp: session_authenticate_envelope_def session_new_def comp_def map_replicate_const)
  have "evaluate_network (plan_gates (session_plan session))
      (map ((\<lambda>i. False \<or> i \<in> set available) \<circ> fst) (plan_leaves (session_plan session)))"
    using evaluate_network_admitted [OF facts(1), of "\<lambda>i. i \<in> set available"] assms(6) s(1)
    by (simp add: facts(4,5))
  then show ?thesis
    using accept_run [OF _ s(5,2,3) assms(4)] assms(5,7) s facts(3,6)
    by (auto simp: facts(5) quorum_session_def intro!: exI conjI accept_all_run)
qed

lemma confirm_succeeds:
  assumes "quorum_session require_live session" "require_live \<longrightarrow> live"
  shows "\<exists>session1 session2. (if live then session_try (confirm_live_authorization session) else Ok session) = Ok session1
    \<and> session_try (confirm_tpm session1) = Ok session2
    \<and> quorum_session require_live session2 \<and> tpm_authenticated (session_state session2)
    \<and> (require_live \<longrightarrow> live_authorized (session_state session2))"
  using assms
  by (auto simp: quorum_session_def session_try_def confirm_live_authorization_def confirm_tpm_def require_authenticated_def)

lemma release_succeeds:
  assumes coop: "cooperative M t" "t + OPERATION_BUDGET \<le> uo_deadline uo"
    and "quorum_session (gate_require_live gate) session" "tpm_authenticated (session_state session)"
      "gate_require_live gate \<longrightarrow> live_authorized (session_state session)"
    and "gate_phase gate = 2" "gate_context gate = pay_context payload"
  shows "\<exists>s'. run_release M uo payload session gate s = Some (Ok (), s')"
proof -
  obtain session1 where root: "session_try (session_authenticate_root session) = Ok session1"
      "\<exists>session2. session_try (session_release session1) = Ok session2"
    using assms(3-5)
    by (auto simp: quorum_session_def session_try_def session_authenticate_root_def require_authenticated_def
        can_reconstruct_def session_release_def try_release_def can_release_def)
  have gate: "gate_try (gate_payload (pay_context payload) gate) = Ok (gate\<lparr>gate_phase := 3\<rparr>)"
    using assms(6,7) by (simp add: gate_try_def gate_payload_def gate_advance_def)
  obtain s1 where s1: "check_deadline M (uo_deadline uo) s = Some (Ok (), s1)"
    using check_deadline_succeeds [OF coop] by blast
  obtain now w where now: "clock M (op_world s1) = (now, w)" by fastforce
  then have "now < uo_deadline uo" using coop unfolding cooperative_def by (metis fst_conv order_less_le_trans)
  then show ?thesis
    using root gate s1 now assms(7)
    by (auto simp: run_release_def io_then_def io_of_def io_world_def gate_release_def gate_advance_def)
qed

section \<open>Unlocking an enrolled volume\<close>

definition tpm_unseals :: "'w tpm_provider \<Rightarrow> authenticated_envelope \<Rightarrow> bool" where
  "tpm_unseals tpm env \<longleftrightarrow> supports_mode tpm (policy_mode (env_policy env))
     \<and> (\<forall>w. \<exists>unsealed w'. tpm_unseal tpm env w = (Ok unsealed, w')
          \<and> (policy_mode (env_policy env) = Attested \<longrightarrow> us_authorization unsealed = FreshSessionAuthorization))"

lemma enrolled_tpm_evidence:
  assumes "enrolled M net tpm d env seed tpm_share network_share shares credential" "tpm_faithful tpm tpm'"
    and "tpm_unseal tpm' env w = (Ok unsealed, w')"
    and "policy_mode (env_policy env) = Attested \<longrightarrow> us_authorization unsealed = FreshSessionAuthorization"
  shows "tpm_evidence_authenticate M unsealed env = Some (Ok \<lparr>te_context = ae_context env, te_share = tpm_share,
    te_live = (us_authorization unsealed = FreshSessionAuthorization)\<rparr>)"
proof -
  note e = assms(1) [unfolded enrolled_def]
  have "us_seed unsealed = seed" using e assms(2,3) unfolding tpm_faithful_def by metis
  then show ?thesis
    using e assms(4) by (cases "us_authorization unsealed") (auto simp: tpm_evidence_authenticate_def Let_def)
qed

lemma run_tpm_succeeds:
  assumes coop: "cooperative M t" "t + OPERATION_BUDGET \<le> uo_deadline uo"
    and enrolled: "enrolled M net tpm d (uo_envelope uo) seed tpm_share network_share shares credential"
    and tpm: "tpm_faithful tpm tpm'" "tpm_unseals tpm' (uo_envelope uo)"
    and session: "quorum_session (policy_mode (env_policy (uo_envelope uo)) = Attested) session"
    and gate: "gate = \<lparr>gate_context = ae_context (uo_envelope uo), gate_phase = 1,
        gate_require_live = (policy_mode (env_policy (uo_envelope uo)) = Attested)\<rparr>"
  shows "\<exists>ev session' s'. run_tpm M tpm' uo session gate s = Some (Ok (ev, session', gate\<lparr>gate_phase := 2\<rparr>), s')
    \<and> te_share ev = tpm_share \<and> quorum_session (gate_require_live gate) session'
    \<and> tpm_authenticated (session_state session')
    \<and> (gate_require_live gate \<longrightarrow> live_authorized (session_state session'))"
proof -
  obtain s1 where s1: "check_deadline M (uo_deadline uo) s = Some (Ok (), s1)"
    using check_deadline_succeeds [OF coop] by blast
  obtain s2 where s2: "io_stage (clock M) TpmUnseal s1 = Some (Ok () :: (unit, engine_error) result, s2)"
    using io_stage_succeeds by blast
  obtain unsealed w where u: "tpm_unseal tpm' (uo_envelope uo) (op_world s2) = (Ok unsealed, w)"
    "policy_mode (env_policy (uo_envelope uo)) = Attested \<longrightarrow> us_authorization unsealed = FreshSessionAuthorization"
    using tpm(2) unfolding tpm_unseals_def by blast
  note ev = enrolled_tpm_evidence [OF enrolled tpm(1) u]
  let ?live = "us_authorization unsealed = FreshSessionAuthorization"
  obtain s3 where s3: "check_deadline M (uo_deadline uo) (s2\<lparr>op_world := w\<rparr>) = Some (Ok (), s3)"
    using check_deadline_succeeds [OF coop] by blast
  obtain s4 where s4: "io_stage (clock M) AuthenticatePayload s3 = Some (Ok () :: (unit, engine_error) result, s4)"
    using io_stage_succeeds by blast
  obtain session1 session2 where c: "(if ?live then session_try (confirm_live_authorization session) else Ok session) = Ok session1"
    "session_try (confirm_tpm session1) = Ok session2" "quorum_session (gate_require_live gate) session2"
    "tpm_authenticated (session_state session2)" "gate_require_live gate \<longrightarrow> live_authorized (session_state session2)"
    using confirm_succeeds [of "gate_require_live gate" session ?live] session u(2) gate by auto
  have "gate_try (gate_tpm (ae_context (uo_envelope uo)) ?live gate) = Ok (gate\<lparr>gate_phase := 2\<rparr>)"
    using u(2) gate by (simp add: gate_try_def gate_tpm_def gate_advance_def)
  then show ?thesis
    using s1 s2 u(1) s3 s4 ev c
    by (simp add: run_tpm_def io_then_def io_attempt_def io_run_def io_of_def)
qed

lemma run_network_succeeds:
  assumes libs: "libraries_correct M F" and coop: "cooperative M t" "t + OPERATION_BUDGET \<le> uo_deadline uo"
    and honest: "honest_network M net srv (d_networks d)" "honest_network M net' srv (d_networks d)"
    and enrolled: "enrolled M net tpm d (uo_envelope uo) seed tpm_share network_share shares credential"
    and responsive: "responsive M net' (d_networks d)" "served (length (d_networks d)) schedule"
    and uo: "session_authenticate_envelope (session_new (d_policy d)) = (Ok (), uo_policy uo)"
      "uo_release uo = gate_new (ae_context (uo_envelope uo)) (policy_mode (d_policy d) = Attested)"
  shows "\<exists>ev session s'. run_network M net' schedule uo s = Some (Ok (ev, session,
      \<lparr>gate_context = ae_context (uo_envelope uo), gate_phase = 1,
       gate_require_live = (policy_mode (d_policy d) = Attested)\<rparr>), s')
    \<and> ne_share ev = network_share \<and> quorum_session (policy_mode (d_policy d) = Attested) session"
proof -
  have d: "eb_descriptor (ae_body (uo_envelope uo)) = d" and valid: "valid_descriptor M d"
    using enrolled by (simp_all add: enrolled_def)
  note facts = valid_descriptor_facts [OF valid]
  obtain s1 where s1: "runtime M s = Some (Ok (), s1)" using runtime_succeeds [OF coop(1)] by blast
  obtain s2 where s2: "io_stage (clock M) Network s1 = Some (Ok () :: (unit, engine_error) result, s2)"
    using io_stage_succeeds by blast
  obtain share failures available s3 where s3: "recover_network_observed M net' (uo_envelope uo) (uo_deadline uo) schedule s2 =
      Some (Ok (share, failures, available), s3)"
    using recovery_succeeds [OF libs coop honest enrolled responsive] by (metis surj_pair)
  obtain recovered where quorum: "authentic_quorum M net' (uo_envelope uo) (uo_deadline uo) available recovered"
      "recover_network (d_policy d) recovered = Some (Ok share)"
    using recover_network_observed_Ok [OF valid [folded d] s3] unfolding d by blast
  have share: "share = network_share" using enrolled_quorum [OF libs honest enrolled quorum(1)] quorum(2) by simp
  have q: "distinct available" "set available \<subseteq> set (network_leaf_ids (d_policy d))"
      "satisfied (\<lambda>i. i \<in> set available) (policy_network (d_policy d))"
    using quorum(1) unfolding authentic_quorum_def d by blast+
  then have "available \<noteq> []" using satisfied_none [OF facts(6)] by auto
  then obtain session where "accept_all available (uo_policy uo) = Ok session"
      "quorum_session (policy_mode (d_policy d) = Attested) session"
    using accept_quorum [OF facts(1,2) uo(1) q] by blast
  moreover have "gate_try (gate_network (ae_context (uo_envelope uo)) (uo_release uo)) =
      Ok \<lparr>gate_context = ae_context (uo_envelope uo), gate_phase = 1,
        gate_require_live = (policy_mode (d_policy d) = Attested)\<rparr>"
    by (simp add: uo(2) gate_try_def gate_network_def gate_advance_def gate_new_def)
  ultimately show ?thesis
    using s1 s2 s3 share by (simp add: run_network_def io_then_def io_of_def)
qed

lemma unlock_run_succeeds:
  assumes libs: "libraries_correct M F" and coop: "cooperative M t" "t + OPERATION_BUDGET \<le> uo_deadline uo"
    and honest: "honest_network M net srv (d_networks d)" "honest_network M net' srv (d_networks d)"
    and enrolled: "enrolled M net tpm d (uo_envelope uo) seed tpm_share network_share shares credential"
    and responsive: "responsive M net' (d_networks d)" "served (length (d_networks d)) schedule"
    and tpm: "tpm_faithful tpm tpm'" "tpm_unseals tpm' (uo_envelope uo)"
    and uo: "session_authenticate_envelope (session_new (d_policy d)) = (Ok (), uo_policy uo)"
      "uo_release uo = gate_new (ae_context (uo_envelope uo)) (policy_mode (d_policy d) = Attested)"
  shows "\<exists>res s'. unlock_run M net' tpm' schedule uo s = Some (Ok res, s')"
proof -
  have d: "eb_descriptor (ae_body (uo_envelope uo)) = d" using enrolled by (simp add: enrolled_def)
  define gate where "gate = \<lparr>gate_context = ae_context (uo_envelope uo), gate_phase = 1,
        gate_require_live = (policy_mode (env_policy (uo_envelope uo)) = Attested)\<rparr>"
  obtain net_ev session s3 where network:
      "run_network M net' schedule uo s = Some (Ok (net_ev, session, gate), s3)"
      "ne_share net_ev = network_share" "quorum_session (policy_mode (env_policy (uo_envelope uo)) = Attested) session"
    using run_network_succeeds [OF libs coop honest enrolled responsive uo] unfolding gate_def d by blast
  obtain tpm_ev session' s4 where tpm': "run_tpm M tpm' uo session gate s3 = Some (Ok (tpm_ev, session', gate\<lparr>gate_phase := 2\<rparr>), s4)"
      "te_share tpm_ev = tpm_share" "quorum_session (gate_require_live gate) session'"
      "tpm_authenticated (session_state session')" "gate_require_live gate \<longrightarrow> live_authorized (session_state session')"
    using run_tpm_succeeds [OF coop enrolled tpm network(3) gate_def] by blast
  obtain root key where root: "combine_shares tpm_share network_share = Ok root"
      "derive M root (ae_context (uo_envelope uo)) (ascii ''leelo/v1/luks-slot'') = Ok key"
      "open_key (prims M) key (eb_payload (ae_body (uo_envelope uo))) (ae_context (uo_envelope uo)) = Ok credential"
    using enrolled unfolding enrolled_def by blast
  let ?payload = "\<lparr>pay_context = ae_context (uo_envelope uo), pay_credential = credential\<rparr>"
  have payload: "payload_evidence_authenticate M root (uo_envelope uo) = Ok ?payload"
    using root by (simp add: payload_evidence_authenticate_def)
  obtain s5 where "run_release M uo ?payload session' (gate\<lparr>gate_phase := 2\<rparr>) s4 = Some (Ok (), s5)"
    using release_succeeds [OF coop, of "gate\<lparr>gate_phase := 2\<rparr>" session' ?payload s4] tpm'(3-5) by (auto simp: gate_def)
  then show ?thesis
    using network(1,2) tpm'(1,2) root(1) payload by (auto simp: unlock_run_def io_then_def io_of_def)
qed

lemma unlock_begin_succeeds:
  assumes "cooperative M t" "t + OPERATION_BUDGET \<le> deadline"
    and "authenticate (prims M) (voprf M) (cbor_lib M) (eddsa M) raw signer = Ok env"
    and "eb_descriptor (ae_body env) = d" "supports_mode tpm (policy_mode (d_policy d))"
  shows "\<exists>uo s'. unlock_begin M raw signer (d_volume_uuid d) (d_slot d) tpm deadline s = Some (Ok uo, s')
    \<and> uo_envelope uo = env \<and> uo_deadline uo = deadline
    \<and> session_authenticate_envelope (session_new (d_policy d)) = (Ok (), uo_policy uo)
    \<and> uo_release uo = gate_new (ae_context env) (policy_mode (d_policy d) = Attested)"
proof -
  let ?s = "s\<lparr>op_report := configure (policy_mode (d_policy d)) (d_networks d) (op_report s)\<rparr>"
  obtain s' where s': "check_deadline M deadline ?s = Some (Ok (), s')"
    using check_deadline_succeeds [OF assms(1,2)] by blast
  obtain session where session: "session_authenticate_envelope (session_new (d_policy d)) = (Ok (), session)"
    by (simp add: session_authenticate_envelope_def session_new_def)
  show ?thesis
    using assms(3-5) s' session
    by (simp add: unlock_begin_def io_then_def io_report_def io_of_def session_try_def Let_def)
qed

lemma unlock_observed_start:
  assumes "cooperative M t"
  obtains started s1 where "t + OPERATION_BUDGET \<le> started + OPERATION_BUDGET"
    "\<forall>r s2. unlock_before_observed M raw signer volume slot net tpm (started + OPERATION_BUDGET) schedule s1 = Some (r, s2)
       \<longrightarrow> (\<exists>s'. unlock_observed M raw signer volume slot net tpm schedule s = Some (r, s'))"
proof -
  obtain started w where started: "clock M (op_world s) = (started, w)" by fastforce
  have "t + OPERATION_BUDGET \<le> started + OPERATION_BUDGET"
    using assms started unfolding cooperative_def by (metis fst_conv add_le_mono1)
  moreover obtain s1 where "io_begin (clock M) Recover (s\<lparr>op_world := w\<rparr>) = Some (Ok () :: (unit, engine_error) result, s1)"
    using io_begin_succeeds by blast
  ultimately show ?thesis
    using that [of started s1] started
    by (auto simp: unlock_observed_def io_then_def io_world_def io_finish_def split: prod.splits)
qed

lemma enrolled_unlocks:
  assumes libs: "libraries_correct M F" and coop: "cooperative M t"
    and honest: "honest_network M net srv (d_networks d)" "honest_network M net' srv (d_networks d)"
    and auth: "authenticate (prims M) (voprf M) (cbor_lib M) (eddsa M) raw signer = Ok env"
    and enrolled: "enrolled M net tpm d env seed tpm_share network_share shares credential"
    and responsive: "responsive M net' (d_networks d)" "served (length (d_networks d)) schedule"
    and tpm: "tpm_faithful tpm tpm'" "tpm_unseals tpm' env"
  shows "\<exists>res s'. unlock_observed M raw signer (d_volume_uuid d) (d_slot d) net' tpm' schedule s = Some (Ok res, s')"
proof -
  have d: "eb_descriptor (ae_body env) = d" using enrolled by (simp add: enrolled_def)
  obtain started s1 where deadline: "t + OPERATION_BUDGET \<le> started + OPERATION_BUDGET"
    and observed: "\<forall>r s2. unlock_before_observed M raw signer (d_volume_uuid d) (d_slot d) net' tpm' (started + OPERATION_BUDGET) schedule s1 = Some (r, s2)
       \<longrightarrow> (\<exists>s'. unlock_observed M raw signer (d_volume_uuid d) (d_slot d) net' tpm' schedule s = Some (r, s'))"
    by (rule unlock_observed_start [OF coop])
  have mode: "supports_mode tpm' (policy_mode (d_policy d))" using tpm(2) d by (simp add: tpm_unseals_def)
  obtain uo s2 where uo: "unlock_begin M raw signer (d_volume_uuid d) (d_slot d) tpm' (started + OPERATION_BUDGET) s1 = Some (Ok uo, s2)"
      "uo_envelope uo = env" "uo_deadline uo = started + OPERATION_BUDGET"
      "session_authenticate_envelope (session_new (d_policy d)) = (Ok (), uo_policy uo)"
      "uo_release uo = gate_new (ae_context env) (policy_mode (d_policy d) = Attested)"
    using unlock_begin_succeeds [OF coop deadline auth d mode] by blast
  have "\<exists>res s3. unlock_run M net' tpm' schedule uo s2 = Some (Ok res, s3)"
    by (rule unlock_run_succeeds [OF libs coop _ honest _ responsive tpm(1)])
       (use deadline enrolled tpm(2) uo in \<open>simp_all\<close>)
  then obtain res s3 where "unlock_run M net' tpm' schedule uo s2 = Some (Ok res, s3)" by blast
  then have "unlock_before_observed M raw signer (d_volume_uuid d) (d_slot d) net' tpm' (started + OPERATION_BUDGET)
      schedule s1 = Some (Ok res, s3)"
    using uo(1) by (simp add: unlock_before_observed_def io_then_def)
  then show ?thesis using observed by blast
qed

section \<open>A timer that fires too early\<close>

text \<open>If the timer fires after the first poll, the operation ends with that error.\<close>

lemma timer_ends_unlock:
  assumes coop: "cooperative M t"
    and auth: "authenticate (prims M) (voprf M) (cbor_lib M) (eddsa M) raw signer = Ok env"
    and d: "eb_descriptor (ae_body env) = d" and mode: "supports_mode tpm (policy_mode (d_policy d))"
  shows "\<exists>failures s'. unlock_observed M raw signer (d_volume_uuid d) (d_slot d) net tpm [Poll i, Deadline_Fires] s
    = Some (Err (DeadlineExceeded failures), s')"
proof -
  note valid = authenticated_valid(1) [OF auth]
  obtain started s1 where deadline: "t + OPERATION_BUDGET \<le> started + OPERATION_BUDGET"
    and observed: "\<forall>r s2. unlock_before_observed M raw signer (d_volume_uuid d) (d_slot d) net tpm (started + OPERATION_BUDGET) [Poll i, Deadline_Fires] s1 = Some (r, s2)
       \<longrightarrow> (\<exists>s'. unlock_observed M raw signer (d_volume_uuid d) (d_slot d) net tpm [Poll i, Deadline_Fires] s = Some (r, s'))"
    by (rule unlock_observed_start [OF coop])
  let ?deadline = "started + OPERATION_BUDGET"
  obtain uo s2 where uo: "unlock_begin M raw signer (d_volume_uuid d) (d_slot d) tpm ?deadline s1 = Some (Ok uo, s2)"
      "uo_envelope uo = env" "uo_deadline uo = ?deadline"
    using unlock_begin_succeeds [OF coop deadline auth d mode] by blast
  obtain s3 where s3: "runtime M s2 = Some (Ok (), s3)" using runtime_succeeds [OF coop(1)] by blast
  obtain s4 where s4: "io_stage (clock M) Network s3 = Some (Ok () :: (unit, engine_error) result, s4)"
    using io_stage_succeeds by blast
  obtain st where st: "recovery_start (env_networks env) = Some st" "recovery_good M net env ?deadline st"
    using recovery_start_good [OF valid] by blast
  note queue = recovery_start_queue [OF st(1)]
  have wf: "wf_descriptor (eb_descriptor (ae_body env))" using valid by (simp add: valid_descriptor_def)
  obtain st' s5 where poll: "recovery_step M net env ?deadline (Poll i) st s4 = Some (Ok (Inr st'), s5)"
      "rec_failures st' = rec_failures st"
    using served_poll [OF coop wf st(2)] by blast
  have good: "recovery_good M net env ?deadline st'"
    using recovery_step_allowed [OF valid st(2), of "Poll i" s4] poll(1) by (auto simp: step_allowed_def)
  have small: "length (env_networks env) \<le> MAX_PROVIDER_OBSERVATIONS" using valid_descriptor_facts(5) [OF valid] by simp
  have "rec_pending st \<noteq> []" "rec_pending st' \<noteq> []"
    using leaf_pending [OF valid st(2)] leaf_pending [OF valid good] queue [OF small] queue_inv_step [OF _ poll(1)] poll(2)
    by simp_all
  moreover obtain failures s6 where "recovery_step M net env ?deadline Deadline_Fires st' s5 = Some (Err (DeadlineExceeded failures), s6)"
    using recovery_step_deadline by blast
  ultimately have "recover_network_observed M net env ?deadline [Poll i, Deadline_Fires] s4 = Some (Err (DeadlineExceeded failures), s6)"
    using st(1) poll(1) by (simp add: recover_network_observed_def io_then_def)
  then have "unlock_before_observed M raw signer (d_volume_uuid d) (d_slot d) net tpm ?deadline [Poll i, Deadline_Fires] s1
      = Some (Err (DeadlineExceeded failures), s6)"
    using uo s3 s4 by (simp add: unlock_before_observed_def unlock_run_def run_network_def io_then_def)
  then show ?thesis using observed by blast
qed

end
