(* ===== verification/Enrollment_Liveness.thy ===== *)
theory Enrollment_Liveness
  imports Unlock_Liveness
begin

text \<open>
  Enrollment succeeds when nothing outside refuses: entropy, timer, key derivation, encryption, the TPM and
  the providers. With \<open>Unlock_Liveness\<close> this gives the whole life of a volume, and a concrete platform on
  which all the hypotheses hold at once.
\<close>

section \<open>Enrollment succeeds\<close>

definition able_to_enroll :: "('p, 'f, 'srv, 'cli, 'st, 'k, 'w) platform \<Rightarrow> ('srv \<Rightarrow> bytes \<Rightarrow> bytes) \<Rightarrow> bool" where
  "able_to_enroll M F \<longleftrightarrow>
     (\<forall>deadline w. \<not> fst (timer_fires M deadline w))
     \<and> (\<forall>salt ikm infos n. hkdf_expand_multi_info (prims M) salt ikm infos n \<noteq> None)
     \<and> (\<forall>key nonce aad body. aead_encrypt (prims M) key nonce aad body \<noteq> None)
     \<and> (\<forall>bs. length (sha384 (prims M) bs) = 48)
     \<and> (\<forall>srv input. length (F srv input) = OUTPUT_BYTES)"

definition tpm_seals :: "'w tpm_provider \<Rightarrow> descriptor \<Rightarrow> bool" where
  "tpm_seals tpm d \<longleftrightarrow> supports_mode tpm (policy_mode (d_policy d))
     \<and> (\<forall>seed w. length seed = 32 \<longrightarrow> (\<exists>blob w'. tpm_seal tpm d seed w = (Ok blob, w') \<and> tpm_in_bounds blob))"

text \<open>Every body with bounded TPM values and the right leaves can be signed.\<close>

lemma envelope_fits:
  assumes "libraries_correct M F" "valid_descriptor M (eb_descriptor b)" "wf_body b" "tpm_in_bounds (eb_tpm b)"
    and "map wl_node_id (eb_leaves b) = policy_tpm_node_id (d_policy (eb_descriptor b))
       # map nb_node_id (d_networks (eb_descriptor b))"
  shows "\<exists>raw. sign (prims M) (voprf M) (cbor_lib M) (eddsa M) b signer = Ok raw"
  by (rule cbor.sign_fits [OF cbor.intro assms(3) _ assms(4,5)])
     (use assms(1,2) in \<open>simp_all add: libraries_correct_def valid_descriptor_def\<close>)

lemma fresh_secret_succeeds:
  assumes "cooperative M t" "fills_buffer (os_rng M)"
  shows "\<exists>secret s'. fresh_secret M s = Some (Ok secret, s') \<and> length secret = 32"
proof -
  obtain bs w where "os_rng M (op_world s) 32 = (Some bs, w)"
    using assms(1) unfolding cooperative_def by (metis not_None_eq prod.collapse)
  then have "fresh_secret M s = Some (Ok bs, s\<lparr>op_world := w\<rparr>)"
    by (simp add: fresh_secret_def io_map_err_def io_attempt_def random_bytes_def)
  then show ?thesis using fresh_secret_Ok [OF assms(2)] by blast
qed

lemma derive_succeeds:
  assumes "able_to_enroll M F" "32 \<le> length ikm" "length ikm \<le> 48" "length context \<le> 100"
    and "purpose \<noteq> []" "length purpose \<le> 128"
  shows "\<exists>key. derive_secret_key (prims M) ikm context purpose = Ok key"
proof -
  obtain key where "hkdf_expand_multi_info (prims M) (ascii ''leelo/v1/hkdf-sha384'') ikm (key_info purpose context) 32 = Some key"
    using assms(1) unfolding able_to_enroll_def by blast
  then show ?thesis using assms(2-6) by (simp add: derive_secret_key_def)
qed

lemma seal_succeeds:
  assumes "cooperative M t" "able_to_enroll M F" "length aad \<le> 100"
  shows "\<exists>v w'. seal_key (prims M) (os_rng M) key plaintext aad w = (Ok v, w')"
proof -
  obtain nonce w1 where nonce: "os_rng M w 12 = (Some nonce, w1)"
    using assms(1) unfolding cooperative_def by (metis not_None_eq prod.collapse)
  obtain body tag where "aead_encrypt (prims M) key nonce aad plaintext = Some (body, tag)"
    using assms(2) unfolding able_to_enroll_def by (metis not_None_eq surj_pair)
  then show ?thesis using nonce assms(3) by (simp add: seal_key_def random_bytes_def)
qed

lemma leaf_context_length: "length context = 48 \<Longrightarrow> length (leaf_context context i) \<le> 100"
  by (simp add: leaf_context_def)

lemma timed_network_key_succeeds:
  assumes libs: "libraries_correct M F" and coop: "cooperative M t" "t + OPERATION_BUDGET \<le> deadline" and able: "able_to_enroll M F"
    and valid: "valid_descriptor M d" and honest: "honest_network M net srv (d_networks d)"
    and responsive: "responsive M net (d_networks d)" and b: "b \<in> set (d_networks d)" and ctx: "length context = 48"
  shows "\<exists>key w'. timed_network_key M net d b context deadline w = (Some (Ok key), w')"
proof -
  have wf: "length (d_binding_id d) = 32" "length (nb_input_seed b) = 32"
    using valid b by (auto simp: valid_descriptor_def wf_descriptor_def wf_binding_def)
  obtain state blinded w1 where started: "network_key_started M d b w = (Ok (state, blinded), w1)"
    using network_key_started_succeeds [OF coop(1) wf] by blast
  obtain w2 where timer: "timer_fires M deadline w1 = (False, w2)"
    using able unfolding able_to_enroll_def by (metis prod.collapse)
  obtain ev w3 where ev: "net b blinded deadline w2 = (Ok ev, w3)"
    using responsive_answers [OF responsive b started] cooperative_in_time [OF coop] by blast
  obtain fill :: "'g rng" and q q' where
    honest_ev: "evaluate_with_entropy (voprf M) (chacha M) fill (srv b) blinded q = (Ok ev, q')"
    using honest b ev unfolding honest_network_def by blast
  obtain v where "blind_with_entropy (voprf M) (chacha M) (os_rng M) (network_input d b) w = (Ok (state, blinded), v)"
    using started by (auto simp: network_key_started_def result_simps split: prod.splits)
  from voprf_agreement [OF _ this honest_ev] libs
  have final: "blind_finalize (voprf M) state ev (secret_server_public_key (voprf M) (srv b)) = Ok (F (srv b) (network_input d b))"
    by (simp add: libraries_correct_def)
  have pk: "nb_public_key b = secret_server_public_key (voprf M) (srv b)"
    "server_public_key_from_bytes (voprf M) (nb_public_key b) = Ok (nb_public_key b)"
    using honest b validate_descriptor_Ok(2) [of "prims M" "voprf M" d] valid
    by (simp_all add: honest_network_def valid_descriptor_def)
  have "length (F (srv b) (network_input d b)) = 48" using able by (simp add: able_to_enroll_def)
  then obtain key where "derive_wrap_key (prims M) (F (srv b) (network_input d b)) (leaf_context context (nb_node_id b)) = Ok key"
    using derive_succeeds [OF able, of "F (srv b) (network_input d b)" "leaf_context context (nb_node_id b)" "ascii ''voprf-leaf-wrap''"]
      leaf_context_length [OF ctx] by (auto simp: derive_wrap_key_def)
  then have "network_key_answered M b context state (Ok ev) = Ok key"
    using pk final by (simp add: network_key_answered_def)
  then show ?thesis using started timer ev by (simp add: timed_network_key_def)
qed

lemma prepare_leaf_succeeds:
  assumes libs: "libraries_correct M F" and coop: "cooperative M t" "t + OPERATION_BUDGET \<le> deadline" and able: "able_to_enroll M F"
    and valid: "valid_descriptor M d" and honest: "honest_network M net srv (d_networks d)"
    and responsive: "responsive M net (d_networks d)" and b: "b \<in> set (d_networks d)" and ctx: "length context = 48"
    and share: "fst share = nb_node_id b" "length (snd share) = 32"
  shows "\<exists>leaf s'. prepare_leaf M net d context deadline index share b s = Some (Ok leaf, s')"
proof -
  obtain started w where started: "clock M (op_world s) = (started, w)" by fastforce
  obtain key w1 where key: "timed_network_key M net d b context deadline w = (Some (Ok key), w1)"
    using timed_network_key_succeeds [OF libs coop able valid honest responsive b ctx] by blast
  obtain v w2 where sealed: "seal_key (prims M) (os_rng M) key (snd share) (leaf_context context (fst share)) w1 = (Ok v, w2)"
    using seal_succeeds [OF coop(1) able leaf_context_length [OF ctx]] by blast
  have "open_key (prims M) key v (leaf_context context (fst share)) = Ok (snd share)"
    using open_seal [OF _ share(2) sealed] libs by (simp add: libraries_correct_def)
  moreover obtain s' where "io_provider (clock M) index Authenticated started (s\<lparr>op_world := w2\<rparr>)
      = Some (Ok () :: (unit, engine_error) result, s')"
    using io_provider_total by blast
  ultimately show ?thesis
    using share(1) started key sealed
    by (simp add: prepare_leaf_def seal_leaf_def check_sealed_def io_then_def io_world_def io_of_def)
qed

lemma prepare_leaves_succeeds:
  assumes libs: "libraries_correct M F" and coop: "cooperative M t" "t + OPERATION_BUDGET \<le> deadline" and able: "able_to_enroll M F"
    and valid: "valid_descriptor M d" and honest: "honest_network M net srv (d_networks d)"
    and responsive: "responsive M net (d_networks d)" and ctx: "length context = 48"
    and "\<forall>(share, b)\<in>set pairs. b \<in> set (d_networks d) \<and> fst share = nb_node_id b \<and> length (snd share) = 32"
  shows "\<exists>out s'. prepare_leaves M net d context deadline index pairs leaves s = Some (Ok out, s')"
  using assms(9)
proof (induction pairs arbitrary: index leaves s)
  case (Cons pair pairs)
  obtain share b where pair: "pair = (share, b)" by fastforce
  obtain leaf s1 where leaf: "prepare_leaf M net d context deadline index share b s = Some (Ok leaf, s1)"
    using prepare_leaf_succeeds [OF libs coop able valid honest responsive _ ctx, of b share] Cons.prems pair by fastforce
  obtain out s' where "prepare_leaves M net d context deadline (index + 1) pairs (leaves @ [leaf]) s1 = Some (Ok out, s')"
    using Cons.IH [of "index + 1" "leaves @ [leaf]" s1] Cons.prems by auto
  then show ?case using leaf by (simp add: pair io_then_def)
qed (simp add: io_of_def)

lemma split_root_succeeds:
  assumes "cooperative M t" "fills_buffer (os_rng M)" "length root = 32"
  shows "\<exists>v1 v2 w'. split (os_rng M) root 2 2 w =
      (Ok [\<lparr>share_index = 1, share_value = v1\<rparr>, \<lparr>share_index = 2, share_value = v2\<rparr>], w')
    \<and> length v1 = 32 \<and> length v2 = 32"
proof -
  have "fst (os_rng M r n) \<noteq> None" for r n using assms(1) by (simp add: cooperative_def)
  then obtain all w' where all: "split (os_rng M) root 2 2 w = (Ok all, w')"
    using split_available [of "os_rng M" 2 2 root w] by (auto simp: word_le_nat_alt)
  show ?thesis using root_shares [OF all assms(2,3)] all by metis
qed

lemma split_leaves_succeeds:
  assumes "cooperative M t" "fills_buffer (os_rng M)" "valid_descriptor M d" "length secret = 32"
  shows "\<exists>shares w'. split_network (os_rng M) (d_policy d) secret w = Some (Ok shares, w')
    \<and> recover_network (d_policy d) shares = Some (Ok secret)"
proof -
  note facts = valid_descriptor_facts [OF assms(3)]
  have rng: "fst (os_rng M r n) \<noteq> None" for r n using assms(1) by (simp add: cooperative_def)
  obtain shares w' where shares: "split_network (os_rng M) (d_policy d) secret w = Some (Ok shares, w')"
    "map fst shares = network_leaf_ids (d_policy d)"
    using split_network_available [OF facts(2,1) assms(2) rng assms(4)] by blast
  then have "map fst shares = map nb_node_id (d_networks d)" using facts(3) by simp
  then have "distinct (map fst shares)" "fst ` set shares = set (map nb_node_id (d_networks d))"
    using facts(4) by (simp, metis set_map)
  then have "recover_network (d_policy d) shares = Some (Ok secret)"
    using recover_split [OF facts(2,1) assms(2,4) shares(1) subset_refl] all_available_satisfied [OF assms(3)]
    by (simp add: distinct_map)
  then show ?thesis using shares(1) by blast
qed

lemma enrollment_body:
  assumes lib: "aead_correct (prims M)" "fills_buffer (os_rng M)" and valid: "valid_descriptor M d"
    and tpm_leaf: "length v1 = 32" "seal_key (prims M) (os_rng M) tpm_key v1 tpm_context w1 = (Ok tpm_leaf, w1')"
    and shares: "length v2 = 32" "split_network (os_rng M) (d_policy d) v2 w2 = Some (Ok shares, w2')"
    and leaves: "prepare_leaves M net d context deadline 0 (zip shares (d_networks d))
      [\<lparr>wl_node_id = policy_tpm_node_id (d_policy d), wl_value = tpm_leaf\<rparr>] s = Some (Ok leaves, s')"
    and payload: "length credential = 32" "seal_key (prims M) (os_rng M) key credential context w3 = (Ok payload, w3')"
  shows "wf_body \<lparr>eb_descriptor = d, eb_tpm = blob, eb_leaves = leaves, eb_payload = payload\<rparr>"
    "map wl_node_id leaves = policy_tpm_node_id (d_policy d) # map nb_node_id (d_networks d)"
proof -
  obtain new where new: "leaves = \<lparr>wl_node_id = policy_tpm_node_id (d_policy d), wl_value = tpm_leaf\<rparr> # new"
    "list_all2 (\<lambda>(share, b) leaf. sealed_leaf M net d context deadline share b leaf) (zip shares (d_networks d)) new"
    using prepare_leaves_Ok [OF leaves] by auto
  note sh = split_network_shares [OF valid lib(2) shares]
  show "wf_body \<lparr>eb_descriptor = d, eb_tpm = blob, eb_leaves = leaves, eb_payload = payload\<rparr>"
    using valid new(1) sealed_lengths [OF lib tpm_leaf] sealed_lengths [OF lib payload]
      sealed_leaves_wf [OF lib sh(2) new(2)]
    by (simp add: wf_body_def wf_leaf_def wf_wrapped_def valid_descriptor_def)
  have "length shares = length (d_networks d)" using sh(1) by (metis length_map)
  then have "length new = length (d_networks d)" using list_all2_lengthD [OF new(2)] by simp
  then have "map wl_node_id new = map nb_node_id (d_networks d)"
    using sealed_leaf_nth(1) [OF new(2) sh(1)] by (auto simp: sealed_leaf_def intro: nth_equalityI)
  then show "map wl_node_id leaves = policy_tpm_node_id (d_policy d) # map nb_node_id (d_networks d)"
    using new(1) by simp
qed

lemma share_pairs:
  assumes "valid_descriptor M d" "fills_buffer fill" "length secret = 32"
    and "split_network fill (d_policy d) secret w = Some (Ok shares, w')"
  shows "\<forall>(share, b)\<in>set (zip shares (d_networks d)).
    b \<in> set (d_networks d) \<and> fst share = nb_node_id b \<and> length (snd share) = 32"
proof -
  note sh = split_network_shares [OF assms]
  have "length shares = length (d_networks d)" using sh(1) by (metis length_map)
  moreover have "fst (shares ! k) = nb_node_id (d_networks d ! k)" if "k < length shares" for k
    using sh(1) that calculation by (metis nth_map)
  ultimately show ?thesis using sh(2) by (auto simp: set_zip all_set_conv_all_nth) (metis fst_conv snd_conv)+
qed

lemma context_hash_length:
  assumes "able_to_enroll M F" "valid_descriptor M d"
  shows "\<exists>context. context_hash (prims M) (voprf M) (cbor_lib M) d = Ok context \<and> length context = 48"
  using assms by (simp add: context_hash_def descriptor_bytes_def valid_descriptor_def able_to_enroll_def)

lemma prepare_inner_succeeds:
  assumes libs: "libraries_correct M F" and coop: "cooperative M t" and able: "able_to_enroll M F"
    and valid: "valid_descriptor M d" and honest: "honest_network M net srv (d_networks d)"
    and responsive: "responsive M net (d_networks d)"
    and tpm: "tpm_seals tpm d"
  shows "\<exists>pe s'. prepare_inner M net tpm d signer s = Some (Ok pe, s')"
proof -
  have lib: "aead_correct (prims M)" "fills_buffer (os_rng M)" using libs by (simp_all add: libraries_correct_def)
  obtain now w0 where now: "clock M (op_world s) = (now, w0)" by fastforce
  have deadline: "t + OPERATION_BUDGET \<le> now + OPERATION_BUDGET"
    using coop now unfolding cooperative_def by (metis fst_conv add_le_mono1)
  obtain ctx where ctx: "context_hash (prims M) (voprf M) (cbor_lib M) d = Ok ctx" "length ctx = 48"
    using context_hash_length [OF able valid] by blast
  let ?s1 = "s\<lparr>op_world := w0, op_report := configure (policy_mode (d_policy d)) (d_networks d) (op_report s)\<rparr>"
  obtain s2 where s2: "runtime M ?s1 = Some (Ok (), s2)" using runtime_succeeds [OF coop] by blast
  obtain credential s3 where s3: "fresh_secret M s2 = Some (Ok credential, s3)" "length credential = 32"
    using fresh_secret_succeeds [OF coop lib(2)] by blast
  obtain root s4 where s4: "fresh_secret M s3 = Some (Ok root, s4)" "length root = 32"
    using fresh_secret_succeeds [OF coop lib(2)] by blast
  obtain v1 v2 w5 where split: "split (os_rng M) root 2 2 (op_world s4) =
      (Ok [\<lparr>share_index = 1, share_value = v1\<rparr>, \<lparr>share_index = 2, share_value = v2\<rparr>], w5)"
    "length v1 = 32" "length v2 = 32"
    using split_root_succeeds [OF coop lib(2) s4(2)] by blast
  obtain seed s6 where s6: "fresh_secret M (s4\<lparr>op_world := w5\<rparr>) = Some (Ok seed, s6)" "length seed = 32"
    using fresh_secret_succeeds [OF coop lib(2)] by blast
  obtain s7 where s7: "io_stage (clock M) TpmSeal s6 = Some (Ok () :: (unit, engine_error) result, s7)"
    using io_stage_succeeds by blast
  obtain blob w8 where blob: "tpm_seal tpm d seed (op_world s7) = (Ok blob, w8)" "tpm_in_bounds blob"
    using tpm s6(2) unfolding tpm_seals_def by blast
  obtain s9 where s9: "check_deadline M (now + OPERATION_BUDGET) (s7\<lparr>op_world := w8\<rparr>) = Some (Ok (), s9)"
    using check_deadline_succeeds [OF coop deadline] by blast
  obtain s10 where s10: "io_stage (clock M) ShareGeneration s9 = Some (Ok () :: (unit, engine_error) result, s10)"
    using io_stage_succeeds by blast
  let ?tpm_ctx = "leaf_context ctx (policy_tpm_node_id (d_policy d))"
  obtain tpm_key where tpm_key: "derive M seed ?tpm_ctx (ascii ''leelo/v1/tpm-wrap'') = Ok tpm_key"
    using derive_succeeds [OF able, of seed ?tpm_ctx "ascii ''leelo/v1/tpm-wrap''"] s6(2) leaf_context_length [OF ctx(2)]
    by (auto simp: derive_def)
  obtain tpm_leaf w11 where tpm_leaf: "seal_key (prims M) (os_rng M) tpm_key v1 ?tpm_ctx (op_world s10) = (Ok tpm_leaf, w11)"
    using seal_succeeds [OF coop able leaf_context_length [OF ctx(2)]] by blast
  obtain shares w12 where shares: "split_network (os_rng M) (d_policy d) v2 w11 = Some (Ok shares, w12)"
      "recover_network (d_policy d) shares = Some (Ok v2)"
    using split_leaves_succeeds [OF coop lib(2) valid split(3)] by blast
  obtain s13 where s13: "io_stage (clock M) Network (s10\<lparr>op_world := w12\<rparr>) = Some (Ok () :: (unit, engine_error) result, s13)"
    using io_stage_succeeds by blast
  obtain leaves s14 where leaves: "prepare_leaves M net d ctx (now + OPERATION_BUDGET) 0 (zip shares (d_networks d))
      [\<lparr>wl_node_id = policy_tpm_node_id (d_policy d), wl_value = tpm_leaf\<rparr>] s13 = Some (Ok leaves, s14)"
    using prepare_leaves_succeeds [OF libs coop deadline able valid honest responsive ctx(2)
        share_pairs [OF valid lib(2) split(3) shares(1)]] by blast
  obtain s15 where s15: "io_stage (clock M) PreparePayload s14 = Some (Ok () :: (unit, engine_error) result, s15)"
    using io_stage_succeeds by blast
  obtain payload_key where payload_key: "derive M root ctx (ascii ''leelo/v1/luks-slot'') = Ok payload_key"
    using derive_succeeds [OF able, of root ctx "ascii ''leelo/v1/luks-slot''"] s4(2) ctx(2) by (auto simp: derive_def)
  obtain payload w16 where payload: "seal_key (prims M) (os_rng M) payload_key credential ctx (op_world s15) = (Ok payload, w16)"
    using seal_succeeds [OF coop able, of ctx] ctx(2) by fastforce
  note body = enrollment_body [OF lib valid split(2) tpm_leaf split(3) shares(1) leaves s3(2) payload]
  obtain raw where raw: "sign (prims M) (voprf M) (cbor_lib M) (eddsa M)
      \<lparr>eb_descriptor = d, eb_tpm = blob, eb_leaves = leaves, eb_payload = payload\<rparr> signer = Ok raw"
    using envelope_fits [OF libs _ body(1) [where blob = blob]] valid body(2) blob(2) by auto
  obtain s17 where s17: "check_deadline M (now + OPERATION_BUDGET) (s15\<lparr>op_world := w16\<rparr>) = Some (Ok (), s17)"
    using check_deadline_succeeds [OF coop deadline] by blast
  have "supports_mode tpm (policy_mode (d_policy d))" using tpm by (simp add: tpm_seals_def)
  then show ?thesis
    using now ctx(1) s2 s3(1) s4(1) split(1) s6(1) s7 blob(1) s9 s10 tpm_key tpm_leaf shares s13 leaves s15
      payload_key payload raw s17
    by (simp add: prepare_inner_def io_then_def io_world_def io_of_def io_report_def io_map_err_def io_attempt_def
        io_run_def Let_def)
qed

lemma prepare_observed_succeeds:
  assumes "\<And>s. \<exists>pe s'. prepare_inner M net tpm d signer s = Some (Ok pe, s')"
  shows "\<exists>pe s'. prepare_observed M net tpm d signer s = Some (Ok pe, s')"
proof -
  obtain started w where started: "clock M (op_world s) = (started, w)" by fastforce
  obtain s1 where s1: "io_begin (clock M) Prepare (s\<lparr>op_world := w\<rparr>) = Some (Ok () :: (unit, engine_error) result, s1)"
    using io_begin_succeeds by blast
  obtain pe s2 where "prepare_inner M net tpm d signer s1 = Some (Ok pe, s2)" using assms by blast
  then show ?thesis
    using started s1 by (auto simp: prepare_observed_def io_then_def io_world_def io_finish_def split: prod.splits)
qed

lemma prepare_observed_inner:
  "prepare_observed M net tpm d signer s = Some (Ok pe, s') \<Longrightarrow> \<exists>s1 s2. prepare_inner M net tpm d signer s1 = Some (Ok pe, s2)"
  by (auto simp: prepare_observed_def io_simps dest!: io_finish_Ok)

section \<open>A concrete platform\<close>

definition example_platform :: "(unit, unit, unit, unit, bytes, bytes, unit) platform" where
  "example_platform =
     \<lparr>prims = plain_primitives, voprf = plain_voprf, chacha = plain_chacha, cbor_lib = rfc8949,
      eddsa = plain_ed25519, os_rng = zero_fill, clock = (\<lambda>w. (7, w)), inside_runtime = (\<lambda>_. False),
      build_runtime = (\<lambda>w. (True, w)), timer_fires = (\<lambda>deadline w. (False, w))\<rparr>"

definition example_network :: "unit network_provider" where
  "example_network b blinded deadline w =
     (case evaluate_with_entropy plain_voprf plain_chacha zero_fill () blinded w of
        (r, w') \<Rightarrow> (map_err (\<lambda>_. RemoteRejected) r, w'))"

definition example_tpm :: "unit tpm_provider" where
  "example_tpm =
     \<lparr>supports_mode = (\<lambda>_. True),
      tpm_seal = (\<lambda>d seed w. (Ok \<lparr>tpm_public = [1], tpm_private = 0 # seed, tpm_name = [2], tpm_parent_name = [3]\<rparr>, w)),
      tpm_unseal = (\<lambda>env w. (Ok \<lparr>us_seed = tl (tpm_private (eb_tpm (ae_body env))),
        us_authorization = FreshSessionAuthorization\<rparr>, w))\<rparr>"

lemma example_platform_simps [simp]:
  "prims example_platform = plain_primitives" "voprf example_platform = plain_voprf"
  "chacha example_platform = plain_chacha" "cbor_lib example_platform = rfc8949"
  "eddsa example_platform = plain_ed25519" "os_rng example_platform = zero_fill"
  "clock example_platform w = (7, w)" "inside_runtime example_platform w = False"
  "build_runtime example_platform w = (True, w)" "timer_fires example_platform deadline w = (False, w)"
  by (simp_all add: example_platform_def)

lemma example_libraries: "libraries_correct example_platform (\<lambda>_ _. replicate 48 5)"
  by (simp add: libraries_correct_def plain_correct rfc8949_correct zero_fill_ok)

lemma example_cooperative: "cooperative example_platform 7"
  by (simp add: cooperative_def zero_fill_def plain_voprf_def)

lemma example_able: "able_to_enroll example_platform (\<lambda>_ _. replicate 48 5)"
  by (auto simp: able_to_enroll_def plain_primitives_def)

lemma example_valid: "valid_descriptor example_platform example_descriptor"
  by (simp add: valid_descriptor_def example_descriptor_wf example_validates)

lemma example_honest: "honest_network example_platform example_network (\<lambda>_. ()) (d_networks example_descriptor)"
  unfolding honest_network_def
proof (intro ballI conjI allI impI)
  fix b assume "b \<in> set (d_networks example_descriptor)"
  then show "nb_public_key b = secret_server_public_key (voprf example_platform) ()"
    by (simp add: example_descriptor_def secret_server_public_key_def plain_voprf_def)
next
  fix b blinded deadline w ev w' assume "example_network b blinded deadline w = (Ok ev, w')"
  then have "evaluate_with_entropy plain_voprf plain_chacha zero_fill () blinded w = (Ok ev, w')"
    by (auto simp: example_network_def result_simps split: prod.splits)
  then show "\<exists>(fill :: unit rng) q q'. evaluate_with_entropy (voprf example_platform) (chacha example_platform) fill () blinded q = (Ok ev, q')"
    by (intro exI) simp
qed

lemma example_responsive: "responsive example_platform example_network (d_networks example_descriptor)"
  by (simp add: responsive_def example_network_def evaluate_with_entropy_def plain_voprf_def
      operation_rng_from_entropy_def zero_fill_def)

lemma example_tpm_seals: "tpm_seals example_tpm example_descriptor"
  by (simp add: tpm_seals_def example_tpm_def tpm_in_bounds_def)

lemma example_tpm_faithful: "tpm_faithful example_tpm example_tpm"
  by (auto simp: tpm_faithful_def example_tpm_def)

lemma example_tpm_unseals: "tpm_unseals example_tpm env"
  by (simp add: tpm_unseals_def example_tpm_def)

end
