(* ===== verification/Deployment.thy ===== *)
theory Deployment
  imports Leelo_Net Leelod_Frontend Enrollment_Liveness
begin

text \<open>
  Client and server together: the HTTPS provider of leelo-net, the frontend and the worker of leelod. The engine's
  theorems ask for a network that answers only with evaluations under the pinned keys; here this is proved for the
  deployed network. What lies between the processes is stated as what it delivers: TLS and HTTP carry a request to
  the frontend and its response back, and the Unix socket carries bytes in order and may cut them off.
\<close>

section \<open>What lies between the processes\<close>

text \<open>The bytes that the frontend reads from the socket were written by a connection of the worker that read what the
  frontend had sent; the worker may also close the connection at once.\<close>

definition worker_behind :: "('s, 'u) service_env \<Rightarrow> string \<Rightarrow> ('t, 'v) service_env \<Rightarrow> ('t \<Rightarrow> 'v \<Rightarrow> bytes)
      \<Rightarrow> ('p, 'f, 'srv, 'cli, 'st) voprf_lib \<Rightarrow> 'st chacha20 \<Rightarrow> 'srv \<Rightarrow> bytes \<Rightarrow> bool" where
  "worker_behind F socket W written V Ch srv kid \<longleftrightarrow>
     (\<forall>w stream w1 request w2 w3 bs w4.
        sv_connect F socket w = (Ready (Ok stream), w1) \<longrightarrow> sv_write F stream request w1 = (Ready (Ok ()), w2) \<longrightarrow>
        sv_shutdown F stream w2 = (Ready (Ok ()), w3) \<longrightarrow>
        sv_read F stream (RESPONSE_BYTES + 2) w3 = (Ready (Ok bs), w4) \<longrightarrow>
        bs = [] \<or> (\<exists>peer s started v v' r s'.
          stream_logs W peer (written peer) \<and> written peer (sd_world s) = [] \<and> sv_now W (sd_world s) = (started, v)
          \<and> sv_read W peer (REQUEST_BYTES + 1) v = (Ready (Ok (take (REQUEST_BYTES + 1) request)), v')
          \<and> handle W V Ch srv kid peer s = Some (r, s') \<and> prefix bs (written peer (sd_world s'))))"

text \<open>A successful response that the client gets from an endpoint is the frontend's response to the client's body.\<close>

definition frontend_behind :: "('u, 'cert, 'c, 'w) http_lib \<Rightarrow> ('u, 'c) configured_endpoint \<Rightarrow> ('s, 'x) service_env \<Rightarrow> string \<Rightarrow> bool" where
  "frontend_behind L ce F socket \<longleftrightarrow>
     (\<forall>body d w response w'.
        post L (ce_client ce) (ce_url ce) CONTENT_TYPE body d w = (Some (Ok response), w') \<longrightarrow> hp_status response = 200 \<longrightarrow>
        (\<exists>request s answer s'.
          (\<forall>bs. fr_body request REQUEST_BYTES = Some bs \<longrightarrow> bs = body)
          \<and> frontend_evaluate F socket request s = Some (Ok answer :: (http_response, unit) result, s') \<and> rs_status answer = 200
          \<and> (\<forall>parts. hp_chunks response = map (\<lambda>part. Some (Ok part)) parts \<longrightarrow> concat parts = rs_body answer)))"

section \<open>Through the socket and through TLS\<close>

lemma evaluate_other_world:
  assumes "evaluate_with_entropy V Ch (fill :: 'v rng) srv point q = (Ok ev, q')"
  shows "\<exists>(fill' :: 'w rng) r r'. evaluate_with_entropy V Ch fill' srv point r = (Ok ev, r')"
proof -
  obtain seed where "fst (fill q 32) = Some seed"
    using assms by (auto simp: evaluate_with_entropy_def operation_rng_from_entropy_def split: option.splits prod.splits result.splits)
  then have "evaluate_with_entropy V Ch (\<lambda>r n. (Some seed, r)) srv point r = (Ok ev, r)" for r :: 'w
    using assms by (auto simp: evaluate_with_entropy_def operation_rng_from_entropy_def split: option.splits prod.splits result.splits)
  then show ?thesis by (intro exI)
qed

lemma reply_prefix:
  assumes "voprf_correct V G" "prefix (0 # response) (worker_reply V Ch fill srv kid input q)" "length response = RESPONSE_BYTES"
  shows "\<exists>request ev q'. decode_request input = Ok request \<and> rq_key_id request = kid
    \<and> evaluate_with_entropy V Ch fill srv (rq_point request) q = (Ok ev, q') \<and> response = encode_response ev \<and> wf_evaluation ev"
proof -
  have "worker_reply V Ch fill srv kid input q \<noteq> [1]" using assms(2) by auto
  then obtain request where request: "decode_request input = Ok request" "rq_key_id request = kid"
    by (auto simp: worker_reply_def split: result.splits if_splits)
  obtain r q' where r: "evaluate_with_entropy V Ch fill srv (rq_point request) q = (r, q')"
    by (cases "evaluate_with_entropy V Ch fill srv (rq_point request) q")
  obtain ev where ev: "r = Ok ev" using assms(2) request r by (cases r) (auto simp: worker_reply_def reply_bytes_def)
  have wf: "wf_evaluation ev" by (rule evaluation_wf [OF assms(1) r [unfolded ev]])
  have "prefix response (encode_response ev)"
    using assms(2) request r ev by (simp add: worker_reply_def reply_bytes_def)
  moreover have "length (encode_response ev) = RESPONSE_BYTES"
    using wf by (simp add: encode_response_def wf_evaluation_def)
  ultimately have "response = encode_response ev" using assms(3) by (auto simp: prefix_def)
  then show ?thesis using request r ev wf by blast
qed

lemma frontend_answer:
  assumes "voprf_correct V G" "worker_behind F socket W written V Ch srv kid"
    and "frontend_evaluate F socket request s = Some (Ok answer, s')" "rs_status answer = 200"
  shows "\<exists>bs q ev q' r. fr_body request REQUEST_BYTES = Some bs \<and> decode_request bs = Ok r \<and> rq_key_id r = kid
    \<and> evaluate_with_entropy V Ch (sv_fill W) srv (rq_point r) q = (Ok ev, q')
    \<and> rs_body answer = encode_response ev \<and> wf_evaluation ev"
proof -
  obtain bs s1 s2 where body: "fr_body request REQUEST_BYTES = Some bs"
    and exch: "exchange F socket bs s1 = Some (Ok (rs_body answer), s2)" and ok: "is_ok (decode_request bs)"
    using evaluate_success [OF assms(3,4)] by blast
  obtain stream w1 w2 w3 where sent:
    "sv_connect F socket (sd_world s1) = (Ready (Ok stream), w1)" "sv_write F stream bs w1 = (Ready (Ok ()), w2)"
    "sv_shutdown F stream w2 = (Ready (Ok ()), w3)"
    "sv_read F stream (RESPONSE_BYTES + 2) w3 = (Ready (Ok (0 # rs_body answer)), sd_world s2)"
    and len: "length (rs_body answer) = RESPONSE_BYTES"
    using exchange_Ok [OF exch] by metis
  have "length bs = 89" using ok by (auto simp: is_ok_iff decode_request_def split: if_splits)
  then have whole: "take (REQUEST_BYTES + 1) bs = bs" by simp
  from assms(2) [unfolded worker_behind_def, rule_format, OF sent, unfolded whole]
  obtain peer t started v v' r t' where
    logs: "stream_logs W peer (written peer)" and empty: "written peer (sd_world t) = []"
    and now: "sv_now W (sd_world t) = (started, v)"
    and input: "sv_read W peer (REQUEST_BYTES + 1) v = (Ready (Ok bs), v')"
    and run: "handle W V Ch srv kid peer t = Some (r, t')"
    and got: "prefix (0 # rs_body answer) (written peer (sd_world t'))"
    by blast
  obtain q pre where "written peer (sd_world t') = pre" "prefix pre (worker_reply V Ch (sv_fill W) srv kid bs q)"
    using handle_writes [OF logs now input run] empty by auto
  then have "prefix (0 # rs_body answer) (worker_reply V Ch (sv_fill W) srv kid bs q)"
    using got prefix_order.trans by blast
  from reply_prefix [OF assms(1) this len] show ?thesis using body by blast
qed

lemma decoded_request:
  assumes "decode_request (encode_request kid point) = Ok r" "rq_key_id r = kid"
  shows "rq_point r = point"
proof -
  have "encode_request kid point = encode_request (rq_key_id r) (rq_point r)"
    using assms(1) by (simp add: request.decode_iff)
  then show ?thesis using assms(2) by (simp add: encode_request_def)
qed

lemma deployed_answer:
  assumes voprf: "voprf_correct V G"
    and key: "nb_public_key b = secret_server_public_key V srv"
    and between: "\<And>ce. endpoints (nb_provider_id b) = Some ce \<Longrightarrow> frontend_behind L ce F socket"
    and worker: "worker_behind F socket W written V Ch srv (key_id P (secret_server_public_key V srv))"
    and answer: "https_network P clk L endpoints b blinded deadline w = (Ok ev, w')"
  shows "\<exists>q q'. evaluate_with_entropy V Ch (sv_fill W) srv blinded q = (Ok ev, q')"
proof -
  from https_network_Ok [OF answer] obtain ce d w1 response where kid: "nb_key_id b = key_id P (nb_public_key b)"
    and ce: "endpoints (nb_provider_id b) = Some ce"
    and sent: "post L (ce_client ce) (ce_url ce) CONTENT_TYPE (encode_request (nb_key_id b) blinded) d w1 = (Some (Ok response), w')"
    and ok: "check_reply response = Ok ev" by blast
  from check_reply_Ok [OF ok] obtain parts where status: "hp_status response = 200"
    and parts: "hp_chunks response = map (\<lambda>part. Some (Ok part)) parts" "decode_response (concat parts) = Ok ev" by blast
  from between [OF ce, unfolded frontend_behind_def, rule_format, OF sent status] parts(1)
  obtain request s answer s' where body: "\<And>bs. fr_body request REQUEST_BYTES = Some bs \<Longrightarrow> bs = encode_request (nb_key_id b) blinded"
    and run: "frontend_evaluate F socket request s = Some (Ok answer :: (http_response, unit) result, s')" "rs_status answer = 200"
    and same: "concat parts = rs_body answer" by metis
  from frontend_answer [OF voprf worker run] body obtain r q ev' q' where
    r: "decode_request (encode_request (nb_key_id b) blinded) = Ok r" "rq_key_id r = nb_key_id b"
    and ev': "evaluate_with_entropy V Ch (sv_fill W) srv (rq_point r) q = (Ok ev', q')" "rs_body answer = encode_response ev'" "wf_evaluation ev'"
    using kid key by metis
  have "ev = ev'" using parts(2) same ev'(2,3) response.decode_encode by simp
  then show ?thesis using ev'(1) decoded_request [OF r] by auto
qed

text \<open>Every configured endpoint of the client leads to a leelod deployment whose worker has the pinned key.\<close>

definition leelod_deployed :: "('p, 'f, 'srv, 'cli, 'st, 'k, 'w) platform \<Rightarrow> (network_binding \<Rightarrow> 'srv) \<Rightarrow> network_binding list
      \<Rightarrow> ('u, 'cert, 'c, 'w) http_lib \<Rightarrow> (bytes \<rightharpoonup> ('u, 'c) configured_endpoint) \<Rightarrow> (network_binding \<Rightarrow> ('s, 'x) service_env)
      \<Rightarrow> (network_binding \<Rightarrow> string) \<Rightarrow> (network_binding \<Rightarrow> ('t, 'v) service_env) \<Rightarrow> ('t \<Rightarrow> 'v \<Rightarrow> bytes) \<Rightarrow> bool" where
  "leelod_deployed M srv networks L endpoints F socket W written \<longleftrightarrow> (\<forall>b\<in>set networks.
     nb_public_key b = secret_server_public_key (voprf M) (srv b)
     \<and> (\<forall>ce. endpoints (nb_provider_id b) = Some ce \<longrightarrow> frontend_behind L ce (F b) (socket b))
     \<and> worker_behind (F b) (socket b) (W b) written (voprf M) (chacha M) (srv b)
          (key_id (prims M) (secret_server_public_key (voprf M) (srv b))))"

lemma deployed_honest:
  fixes M :: "('p, 'f, 'srv, 'cli, 'st, 'k, 'w) platform"
  assumes "voprf_correct (voprf M) G" "leelod_deployed M srv networks L endpoints F socket W written"
  shows "honest_network M (https_network (prims M) (clock M) L endpoints) srv networks"
  unfolding honest_network_def
proof (intro ballI conjI allI impI)
  fix b blinded deadline w ev w'
  assume b: "b \<in> set networks" and answer: "https_network (prims M) (clock M) L endpoints b blinded deadline w = (Ok ev, w')"
  from assms(2) b have key: "nb_public_key b = secret_server_public_key (voprf M) (srv b)"
    and "\<And>ce. endpoints (nb_provider_id b) = Some ce \<Longrightarrow> frontend_behind L ce (F b) (socket b)"
    and "worker_behind (F b) (socket b) (W b) written (voprf M) (chacha M) (srv b)
          (key_id (prims M) (secret_server_public_key (voprf M) (srv b)))"
    unfolding leelod_deployed_def by blast+
  from deployed_answer [OF assms(1) this answer]
  show "\<exists>(fill :: 'w rng) q q'. evaluate_with_entropy (voprf M) (chacha M) fill (srv b) blinded q = (Ok ev, q')"
    by (metis evaluate_other_world)
qed (use assms(2) in \<open>simp add: leelod_deployed_def\<close>)

section \<open>A concrete deployment\<close>

text \<open>The client posts to a frontend whose socket leads to a worker on a pipe: every process runs its own code.\<close>

definition example_kid :: bytes where
  "example_kid = key_id plain_primitives (secret_server_public_key plain_voprf ())"

definition example_answer :: "bytes \<Rightarrow> bytes" where
  "example_answer request =
     (case handle example_pipe plain_voprf plain_chacha () example_kid ()
         \<lparr>sd_world = (request, []), sd_metrics = metrics_new Worker 8 0\<rparr> of
        None \<Rightarrow> [] | Some (r, s') \<Rightarrow> snd (sd_world s'))"

definition example_frontend :: "(unit, bytes) service_env" where
  "example_frontend =
     \<lparr>sv_now = (\<lambda>w. (0, w)), sv_raced = (\<lambda>w. (False, w)), sv_sleep = (\<lambda>d w. w),
      sv_fill = (\<lambda>w n. (Some (replicate n 0), w)), sv_connect = (\<lambda>path w. (Ready (Ok ()), [])),
      sv_read = (\<lambda>_ n w. (Ready (Ok (take n (example_answer w))), w)),
      sv_write = (\<lambda>_ bs w. (Ready (Ok ()), w @ bs)), sv_shutdown = (\<lambda>_ w. (Ready (Ok ()), w))\<rparr>"

definition example_http_request :: "bytes \<Rightarrow> http_request" where
  "example_http_request body =
     \<lparr>fr_path = ''/v1/evaluate'', fr_query = None, fr_content_types = [Some CONTENT_TYPE], fr_encoded = False,
      fr_body = (\<lambda>n. if length body \<le> n then Some body else None)\<rparr>"

definition example_http :: "(unit, unit, unit, unit) http_lib" where
  "example_http =
     \<lparr>url_parse = (\<lambda>_. Some ()), url_scheme = (\<lambda>_. ''https''), url_host_str = (\<lambda>_. Some ''host''), url_username = (\<lambda>_. []),
      url_password = (\<lambda>_. None), url_query = (\<lambda>_. None), url_fragment = (\<lambda>_. None), url_path = (\<lambda>_. ''/''),
      url_set_path = (\<lambda>_ u. u), from_pem_bundle = (\<lambda>_. Some [()]), build_client = (\<lambda>_. Some ()),
      post = (\<lambda>_ _ _ body _ w.
        (case frontend_evaluate example_frontend ''worker.sock'' (example_http_request body)
            \<lparr>sd_world = [], sd_metrics = metrics_new Frontend 64 0\<rparr> :: ((http_response, unit) result \<times> bytes served) option of
           Some (Ok answer, s') \<Rightarrow>
             (Some (Ok \<lparr>hp_status = rs_status answer, hp_content_types = [rs_content_type answer], hp_encoded = False,
                hp_content_length = None, hp_chunks = [Some (Ok (rs_body answer))]\<rparr>), w)
         | _ \<Rightarrow> (None, w)))\<rparr>"

lemma example_worker_behind:
  "worker_behind example_frontend ''worker.sock'' example_pipe (\<lambda>_. snd) plain_voprf plain_chacha () example_kid"
  unfolding worker_behind_def
proof (intro allI impI disjI2)
  fix w stream w1 request w2 w3 bs w4
  assume "sv_connect example_frontend ''worker.sock'' w = (Ready (Ok stream), w1)"
    "sv_write example_frontend stream request w1 = (Ready (Ok ()), w2)"
    "sv_shutdown example_frontend stream w2 = (Ready (Ok ()), w3)"
    "sv_read example_frontend stream (RESPONSE_BYTES + 2) w3 = (Ready (Ok bs), w4)"
  then have bs: "bs = take (RESPONSE_BYTES + 2) (example_answer request)"
    by (auto simp: example_frontend_def)
  let ?s = "\<lparr>sd_world = (request, [] :: bytes), sd_metrics = metrics_new Worker 8 0\<rparr>"
  obtain r s' where run: "handle example_pipe plain_voprf plain_chacha () example_kid () ?s = Some (r, s')"
    using handle_returns [of example_pipe plain_voprf plain_chacha "()" example_kid "()" ?s] unfolding io_returns_def by auto
  have "prefix bs (snd (sd_world s'))" using bs run by (simp add: example_answer_def take_is_prefix)
  moreover have "snd (sd_world ?s) = []" "sv_now example_pipe (sd_world ?s) = (0, (request, []))"
    "sv_read example_pipe () (REQUEST_BYTES + 1) (request, []) = (Ready (Ok (take (REQUEST_BYTES + 1) request)), (drop (REQUEST_BYTES + 1) request, []))"
    by (simp_all add: example_pipe_def)
  ultimately show "\<exists>peer s started v v' r s'. stream_logs example_pipe peer snd \<and> snd (sd_world s) = []
      \<and> sv_now example_pipe (sd_world s) = (started, v)
      \<and> sv_read example_pipe peer (REQUEST_BYTES + 1) v = (Ready (Ok (take (REQUEST_BYTES + 1) request)), v')
      \<and> handle example_pipe plain_voprf plain_chacha () example_kid peer s = Some (r, s') \<and> prefix bs (snd (sd_world s'))"
    using run example_pipe_logs
    by blast
qed

lemma example_frontend_behind: "frontend_behind example_http ce example_frontend ''worker.sock''"
  unfolding frontend_behind_def
proof (intro allI impI)
  fix body d w response w'
  assume sent: "post example_http (ce_client ce) (ce_url ce) CONTENT_TYPE body d w = (Some (Ok response), w')"
    and ok: "hp_status response = 200"
  let ?s = "\<lparr>sd_world = [], sd_metrics = metrics_new Frontend 64 0\<rparr>"
  obtain answer s' where run: "frontend_evaluate example_frontend ''worker.sock'' (example_http_request body) ?s
      = Some (Ok answer :: (http_response, unit) result, s')"
    and response: "response = \<lparr>hp_status = rs_status answer, hp_content_types = [rs_content_type answer], hp_encoded = False,
                hp_content_length = None, hp_chunks = [Some (Ok (rs_body answer))]\<rparr>"
    using sent by (auto simp: example_http_def split: option.splits prod.splits result.splits)
  have "concat parts = rs_body answer" if "hp_chunks response = map (\<lambda>part. Some (Ok part)) parts" for parts
    using that response by (auto simp: map_eq_Cons_conv)
  moreover have "fr_body (example_http_request body) REQUEST_BYTES = Some bs \<Longrightarrow> bs = body" for bs
    by (simp add: example_http_request_def split: if_splits)
  ultimately show "\<exists>request s answer s'. (\<forall>bs. fr_body request REQUEST_BYTES = Some bs \<longrightarrow> bs = body)
      \<and> frontend_evaluate example_frontend ''worker.sock'' request s = Some (Ok answer :: (http_response, unit) result, s')
      \<and> rs_status answer = 200
      \<and> (\<forall>parts. hp_chunks response = map (\<lambda>part. Some (Ok part)) parts \<longrightarrow> concat parts = rs_body answer)"
    using run ok response
    by (intro exI [of _ "example_http_request body"] exI [of _ ?s] exI [of _ answer] exI [of _ s']) simp
qed

lemma example_kid_length: "length example_kid = 32"
  by (simp add: example_kid_def key_id_def hash_context_def plain_primitives_def)

lemma example_request_decodes:
  "decode_request (encode_request example_kid (replicate 49 2)) = Ok \<lparr>rq_key_id = example_kid, rq_point = replicate 49 2\<rparr>"
  using request.decode_encode [of "\<lparr>rq_key_id = example_kid, rq_point = replicate 49 2\<rparr>"] example_kid_length
  by (simp add: wf_request_def)

definition example_evaluation :: evaluation where
  "example_evaluation = \<lparr>ev_element = replicate 49 2, ev_proof = replicate 96 3\<rparr>"

lemma example_evaluates:
  "evaluate_with_entropy plain_voprf plain_chacha (sv_fill example_pipe) () (replicate 49 2) w = (Ok example_evaluation, w)"
  by (simp add: evaluate_with_entropy_def operation_rng_from_entropy_def plain_voprf_def example_pipe_def example_evaluation_def)

lemma example_answers: "example_answer (encode_request example_kid (replicate 49 2)) = 0 # encode_response example_evaluation"
proof -
  let ?request = "encode_request example_kid (replicate 49 2)"
  have "length ?request = 89" by (simp add: encode_request_def example_kid_length)
  then have read: "sv_read example_pipe () (REQUEST_BYTES + 1) (?request, []) = (Ready (Ok ?request), ([], []))"
    by (simp add: example_pipe_def)
  have calls: "sv_now example_pipe w = (0, w)" "sv_write example_pipe () bs (i, out) = (Ready (Ok ()), (i, out @ bs))"
    "sv_shutdown example_pipe () w = (Ready (Ok ()), w)" for w bs i out
    by (simp_all add: example_pipe_def)
  show ?thesis
    unfolding example_answer_def
    by (subst handle_reads [of _ _ 0 "(?request, [])", OF _ read])
      (simp_all add: calls example_request_decodes io_then_def timer_finish_def on_service_def count_def evaluate_request_def
        example_evaluates evaluation_outcome_def reply_def await_def io_of_def)
qed

lemma example_response_decodes: "decode_response (encode_response example_evaluation) = Ok example_evaluation"
  "length (encode_response example_evaluation) = RESPONSE_BYTES"
  using response.decode_encode [of example_evaluation]
  by (simp_all add: example_evaluation_def wf_evaluation_def encode_response_def)

lemma example_posts:
  "post example_http c u ct (encode_request example_kid (replicate 49 2)) deadline w =
     (Some (Ok \<lparr>hp_status = 200, hp_content_types = [Some CONTENT_TYPE], hp_encoded = False, hp_content_length = None,
        hp_chunks = [Some (Ok (encode_response example_evaluation))]\<rparr>), w)"
proof -
  let ?request = "encode_request example_kid (replicate 49 2)"
  have "length ?request = 89" by (simp add: encode_request_def example_kid_length)
  then have valid: "\<not> headers_invalid (example_http_request ?request)" "fr_body (example_http_request ?request) REQUEST_BYTES = Some ?request"
    by (simp_all add: headers_invalid_def example_http_request_def)
  have calls: "sv_now example_frontend w = (0, w)" "sv_write example_frontend s bs w = (Ready (Ok ()), w @ bs)"
    "sv_shutdown example_frontend s w = (Ready (Ok ()), w)" "sv_connect example_frontend path w = (Ready (Ok ()), [])"
    "sv_read example_frontend s n w = (Ready (Ok (take n (example_answer w))), w)" for w bs s path n
    by (simp_all add: example_frontend_def)
  have "exchange example_frontend ''worker.sock'' ?request s = Some (Ok (encode_response example_evaluation), s\<lparr>sd_world := ?request\<rparr>)" for s
    using example_response_decodes
    by (simp add: exchange_def io_then_def await_def calls example_answers io_of_def)
  then show ?thesis
    using example_request_decodes valid
    by (simp add: example_http_def frontend_evaluate_def forward_def io_then_def on_service_def timer_finish_def count_def calls io_of_def)
qed

abbreviation example_endpoints :: "bytes \<rightharpoonup> (unit, unit) configured_endpoint" where
  "example_endpoints \<equiv> (\<lambda>_. Some \<lparr>ce_url = (), ce_client = ()\<rparr>)"

abbreviation example_https :: "unit network_provider" where
  "example_https \<equiv> https_network plain_primitives (clock example_platform) example_http example_endpoints"

lemma example_bindings:
  "b \<in> set (d_networks example_descriptor) \<Longrightarrow> nb_public_key b = secret_server_public_key plain_voprf () \<and> nb_key_id b = example_kid"
  by (simp add: example_descriptor_def secret_server_public_key_def plain_voprf_def example_kid_def key_id_def hash_context_def
      plain_primitives_def)

lemma example_deployed:
  "leelod_deployed example_platform (\<lambda>_. ()) (d_networks example_descriptor) example_http endpoints (\<lambda>_. example_frontend)
     (\<lambda>_. ''worker.sock'') (\<lambda>_. example_pipe) (\<lambda>_. snd)"
  using example_bindings example_frontend_behind example_worker_behind
  by (simp add: leelod_deployed_def example_kid_def)

lemma example_https_responsive:
  assumes "\<forall>b\<in>set (d_networks example_descriptor). endpoints (nb_provider_id b) \<noteq> None"
  shows "responsive example_platform (https_network plain_primitives (clock example_platform) example_http endpoints) (d_networks example_descriptor)"
  unfolding responsive_def
proof (intro ballI allI impI)
  fix b message deadline w assume b: "b \<in> set (d_networks example_descriptor)"
  then have "nb_public_key b = secret_server_public_key plain_voprf ()" "nb_key_id b = example_kid" using example_bindings by blast+
  moreover have "blinded_serialize (voprf example_platform) message = replicate 49 2" by (simp add: plain_voprf_def)
  moreover obtain ce where "endpoints (nb_provider_id b) = Some ce" using assms b by blast
  ultimately show "\<exists>ev w'. https_network plain_primitives (clock example_platform) example_http endpoints b
      (blinded_serialize (voprf example_platform) message) deadline w = (Ok ev, w')"
    using example_response_decodes
    by (simp add: https_network_def evaluate_before_def net_exchange_def example_kid_def [symmetric] example_posts check_reply_def)
qed

section \<open>Properties\<close>

text \<open>C13. The deployed network is honest: if every configured endpoint leads over TLS to a leelod frontend whose socket
  leads to a worker with the pinned key, then every answer that the HTTPS provider accepts for a binding is an
  evaluation of exactly the client's blinded element under the key that the binding pins, whatever the sockets cut
  off and whatever fails. This is what enrollment and unlock ask of the network.\<close>

theorem deployed_network_honest:
  assumes "voprf_correct (voprf M) G" "leelod_deployed M srv networks L endpoints F socket W written"
  shows "honest_network M (https_network (prims M) (clock M) L endpoints) srv networks"
  using assms by (rule deployed_honest)

theorem deployed_network_honest_witness:
  "honest_network example_platform example_https (\<lambda>_. ()) (d_networks example_descriptor)
    \<and> responsive example_platform example_https (d_networks example_descriptor)"
  using deployed_network_honest [OF _ example_deployed] plain_correct(3) example_https_responsive [of example_endpoints] by simp

end
