(* ===== verification/Tpm_Adapter.thy ===== *)
theory Tpm_Adapter
  imports Enrollment_Liveness
begin

text \<open>
  The TPM adapter of crates/leelo-tpm/src/linux.rs: PCR snapshots, sealing a seed under a PCR policy, and unsealing it.
  The TPM2-TSS library and the TPM behind it are the record \<open>tss\<close>: \<open>'c\<close> is a context, \<open>'h\<close> a loaded object, \<open>'s\<close> a
  session, \<open>'sel\<close> a PCR selection, \<open>'q\<close> the parameters of a public area that the adapter does not look into and \<open>'e\<close>
  an error of the library. A call inside \<open>execute_with_session\<close> takes its session as an argument. What the
  theorems rely on is stated as three contracts: the TPM gives back what was sealed into a loaded object, it releases an
  object that demands a policy only in a state that satisfies this policy, and its update counter tells PCR states apart.
\<close>

section \<open>The library\<close>

datatype hashing_algorithm = Sha256 | OtherHash nat

record object_attributes =
  oa_fixed_tpm :: bool
  oa_st_clear :: bool
  oa_fixed_parent :: bool
  oa_sensitive_data_origin :: bool
  oa_user_with_auth :: bool
  oa_admin_with_policy :: bool
  oa_no_da :: bool
  oa_encrypted_duplication :: bool
  oa_restricted :: bool
  oa_decrypt :: bool
  oa_sign_encrypt :: bool
  oa_x509_sign :: bool

datatype 'q keyed_hash_scheme = SchemeNull | OtherScheme 'q

datatype 'q tss_public =
    KeyedHash (public_attributes: object_attributes) (name_hashing_algorithm: hashing_algorithm) (auth_policy: bytes)
      "'q keyed_hash_scheme" bytes
  | Ecc (public_attributes: object_attributes) (name_hashing_algorithm: hashing_algorithm) (auth_policy: bytes) 'q "bytes \<times> bytes"
  | OtherPublic (public_attributes: object_attributes) (name_hashing_algorithm: hashing_algorithm) (auth_policy: bytes) 'q

datatype session_type = Hmac | PolicyType | Trial

datatype 's auth_session = Password | Session 's

record ('c, 'h, 's, 'sel, 'slot, 'q, 'e, 'w) tss =
  ts_debug :: "'e \<Rightarrow> string"
  ts_tcti :: "string \<Rightarrow> (string, 'e) result"
  ts_sha256 :: "bytes \<Rightarrow> bytes"
  ts_attributes_build :: "object_attributes \<Rightarrow> (object_attributes, 'e) result"
  ts_ecc_parameters :: "string \<Rightarrow> string \<Rightarrow> ('q, 'e) result"
  ts_public_build :: "'q tss_public \<Rightarrow> ('q tss_public, 'e) result"
  ts_marshall :: "'q tss_public \<Rightarrow> (bytes, 'e) result"
  ts_unmarshall :: "bytes \<Rightarrow> ('q tss_public, 'e) result"
  ts_digest :: "bytes \<Rightarrow> (bytes, 'e) result"
  ts_private :: "bytes \<Rightarrow> (bytes, 'e) result"
  ts_sensitive :: "bytes \<Rightarrow> (bytes, 'e) result"
  ts_pcr_slot :: "u32 \<Rightarrow> ('slot, 'e) result"
  ts_selection :: "hashing_algorithm \<Rightarrow> 'slot list \<Rightarrow> ('sel, 'e) result"
  ts_policy_session :: "'s auth_session \<Rightarrow> ('s, 'e) result"
  ts_context :: "string \<Rightarrow> 'w \<Rightarrow> ('c, 'e) result \<times> 'w"
  ts_drop :: "'c \<Rightarrow> 'w \<Rightarrow> 'w"
  ts_pcr_read :: "'c \<Rightarrow> 'sel \<Rightarrow> 'w \<Rightarrow> (nat \<times> 'sel \<times> bytes list, 'e) result \<times> 'w"
  ts_create_primary :: "'c \<Rightarrow> 's auth_session \<Rightarrow> 'q tss_public \<Rightarrow> 'w \<Rightarrow> ('h \<times> 'q tss_public, 'e) result \<times> 'w"
  ts_tr_get_name :: "'c \<Rightarrow> 'h \<Rightarrow> 'w \<Rightarrow> (bytes, 'e) result \<times> 'w"
  ts_start_auth_session :: "'c \<Rightarrow> 'h option \<Rightarrow> session_type \<Rightarrow> string \<Rightarrow> hashing_algorithm \<Rightarrow> 'w
    \<Rightarrow> ('s auth_session option, 'e) result \<times> 'w"
  ts_set_attributes :: "'c \<Rightarrow> 's auth_session \<Rightarrow> bool \<Rightarrow> bool \<Rightarrow> bool \<Rightarrow> 'w \<Rightarrow> (unit, 'e) result \<times> 'w"
  ts_policy_pcr :: "'c \<Rightarrow> 's \<Rightarrow> bytes \<Rightarrow> 'sel \<Rightarrow> 'w \<Rightarrow> (unit, 'e) result \<times> 'w"
  ts_policy_command_code_unseal :: "'c \<Rightarrow> 's \<Rightarrow> 'w \<Rightarrow> (unit, 'e) result \<times> 'w"
  ts_policy_get_digest :: "'c \<Rightarrow> 's \<Rightarrow> 'w \<Rightarrow> (bytes, 'e) result \<times> 'w"
  ts_flush_context :: "'c \<Rightarrow> 's auth_session \<Rightarrow> 'w \<Rightarrow> (unit, 'e) result \<times> 'w"
  ts_create :: "'c \<Rightarrow> 's auth_session \<Rightarrow> 'h \<Rightarrow> 'q tss_public \<Rightarrow> bytes \<Rightarrow> 'w \<Rightarrow> ('q tss_public \<times> bytes, 'e) result \<times> 'w"
  ts_load :: "'c \<Rightarrow> 's auth_session \<Rightarrow> 'h \<Rightarrow> bytes \<Rightarrow> 'q tss_public \<Rightarrow> 'w \<Rightarrow> ('h, 'e) result \<times> 'w"
  ts_unseal :: "'c \<Rightarrow> 's auth_session \<Rightarrow> 'h \<Rightarrow> 'w \<Rightarrow> (bytes, 'e) result \<times> 'w"

text \<open>Operations on the TPM return a result and the state after it. \<open>try_then\<close> is \<open>?\<close>, \<open>tried\<close> lifts a result.\<close>

definition try_then :: "('w \<Rightarrow> ('a, 'e) result \<times> 'w) \<Rightarrow> ('a \<Rightarrow> 'w \<Rightarrow> ('b, 'e) result \<times> 'w) \<Rightarrow> 'w \<Rightarrow> ('b, 'e) result \<times> 'w" where
  "try_then m f w = (case m w of (Ok x, w') \<Rightarrow> f x w' | (Err e, w') \<Rightarrow> (Err e, w'))"

definition tried :: "('a, 'e) result \<Rightarrow> 'w \<Rightarrow> ('a, 'e) result \<times> 'w" where
  "tried r w = (r, w)"

lemma try_then_Ok_iff [result_simps]:
  "try_then m f w = (Ok y, w') \<longleftrightarrow> (\<exists>x v. m w = (Ok x, v) \<and> f x v = (Ok y, w'))"
  by (auto simp: try_then_def split: prod.splits result.splits)

lemma tried_iff [result_simps]: "tried r w = (r', w') \<longleftrightarrow> r = r' \<and> w' = w"
  by (auto simp: tried_def)

section \<open>The adapter\<close>

definition tss_error :: "('c, 'h, 's, 'sel, 'slot, 'q, 'e, 'w) tss \<Rightarrow> string \<Rightarrow> 'e \<Rightarrow> engine_error" where
  "tss_error T operation e = Tpm operation (ts_debug T e)"

definition tss_result :: "('c, 'h, 's, 'sel, 'slot, 'q, 'e, 'w) tss \<Rightarrow> string \<Rightarrow> ('a, 'e) result \<Rightarrow> ('a, engine_error) result" where
  "tss_result T operation r = map_err (tss_error T operation) r"

definition tss_call :: "('c, 'h, 's, 'sel, 'slot, 'q, 'e, 'w) tss \<Rightarrow> string \<Rightarrow> ('w \<Rightarrow> ('a, 'e) result \<times> 'w)
      \<Rightarrow> 'w \<Rightarrow> ('a, engine_error) result \<times> 'w" where
  "tss_call T operation f w = (case f w of (r, w') \<Rightarrow> (tss_result T operation r, w'))"

text \<open>\<open>Tpm2Provider::new\<close> parses the transport and keeps it.\<close>

definition tpm2_new :: "('c, 'h, 's, 'sel, 'slot, 'q, 'e, 'w) tss \<Rightarrow> string \<Rightarrow> (string, engine_error) result" where
  "tpm2_new T tcti = tss_result T ''new'' (ts_tcti T tcti)"

text \<open>\<open>self.context()?\<close> and the drop of the context when the operation leaves.\<close>

definition with_context :: "('c, 'h, 's, 'sel, 'slot, 'q, 'e, 'w) tss \<Rightarrow> string
      \<Rightarrow> ('c \<Rightarrow> 'w \<Rightarrow> ('a, engine_error) result \<times> 'w) \<Rightarrow> 'w \<Rightarrow> ('a, engine_error) result \<times> 'w" where
  "with_context T tcti body =
     try_then (tss_call T ''context'' (ts_context T tcti)) (\<lambda>c w. case body c w of (r, w') \<Rightarrow> (r, ts_drop T c w'))"

definition validate_mask :: "u32 \<Rightarrow> (unit, engine_error) result" where
  "validate_mask pcr_mask =
     (if pcr_mask = 0 \<or> pcr_mask AND 0xff000000 \<noteq> 0 then Err (Provider ''PCR selection must use SHA256 PCRs 0 through 23'') else Ok ())"

fun pcr_slots :: "('c, 'h, 's, 'sel, 'slot, 'q, 'e, 'w) tss \<Rightarrow> nat list \<Rightarrow> ('slot list, 'e) result" where
  "pcr_slots T [] = Ok []"
| "pcr_slots T (index # rest) =
     and_then (ts_pcr_slot T (push_bit index 1)) (\<lambda>slot. map_ok ((#) slot) (pcr_slots T rest))"

definition selected_pcrs :: "u32 \<Rightarrow> nat list" where
  "selected_pcrs pcr_mask = filter (\<lambda>index. pcr_mask AND push_bit index 1 \<noteq> 0) [0..<24]"

definition selection :: "('c, 'h, 's, 'sel, 'slot, 'q, 'e, 'w) tss \<Rightarrow> u32 \<Rightarrow> ('sel, engine_error) result" where
  "selection T pcr_mask =
     and_then (validate_mask pcr_mask) (\<lambda>_.
     and_then (tss_result T ''selection'' (pcr_slots T (selected_pcrs pcr_mask))) (\<lambda>slots.
     tss_result T ''selection'' (ts_selection T Sha256 slots)))"

text \<open>The loop of \<open>pcr_digest\<close>: the counter of the first read, and the bytes hashed so far.\<close>

fun pcr_loop :: "('c, 'h, 's, 'sel, 'slot, 'q, 'e, 'w) tss \<Rightarrow> 'c \<Rightarrow> u32 \<Rightarrow> nat list \<Rightarrow> nat option \<Rightarrow> bytes
      \<Rightarrow> 'w \<Rightarrow> (bytes, engine_error) result \<times> 'w" where
  "pcr_loop T c pcr_mask [] counter hashed w = (Ok hashed, w)"
| "pcr_loop T c pcr_mask (index # rest) counter hashed w =
     (if pcr_mask AND push_bit index 1 = 0 then pcr_loop T c pcr_mask rest counter hashed w
      else
        try_then (tried (selection T (push_bit index 1))) (\<lambda>selected.
        try_then (tss_call T ''pcr_digest'' (ts_pcr_read T c selected)) (\<lambda>(current, returned, digests).
          if returned \<noteq> selected \<or> length digests \<noteq> 1 \<or> length (digests ! 0) \<noteq> 32
          then tried (Err (Provider ''selected SHA256 PCR is unavailable''))
          else if (case counter of None \<Rightarrow> False | Some previous \<Rightarrow> previous \<noteq> current)
          then tried (Err (Provider ''PCR state changed during snapshot''))
          else pcr_loop T c pcr_mask rest (Some current) (hashed @ digests ! 0))) w)"

definition pcr_digest :: "('c, 'h, 's, 'sel, 'slot, 'q, 'e, 'w) tss \<Rightarrow> string \<Rightarrow> u32 \<Rightarrow> 'w \<Rightarrow> (bytes, engine_error) result \<times> 'w" where
  "pcr_digest T tcti pcr_mask =
     try_then (tried (validate_mask pcr_mask)) (\<lambda>_.
     with_context T tcti (\<lambda>c.
       try_then (pcr_loop T c pcr_mask [0..<24] None []) (\<lambda>hashed. tried (Ok (ts_sha256 T hashed)))))"

definition no_attributes :: object_attributes where
  "no_attributes =
     \<lparr>oa_fixed_tpm = False, oa_st_clear = False, oa_fixed_parent = False, oa_sensitive_data_origin = False,
      oa_user_with_auth = False, oa_admin_with_policy = False, oa_no_da = False, oa_encrypted_duplication = False,
      oa_restricted = False, oa_decrypt = False, oa_sign_encrypt = False, oa_x509_sign = False\<rparr>"

definition sealed_attributes :: "('c, 'h, 's, 'sel, 'slot, 'q, 'e, 'w) tss \<Rightarrow> (object_attributes, engine_error) result" where
  "sealed_attributes T =
     tss_result T ''sealed_attributes'' (ts_attributes_build T
       (no_attributes\<lparr>oa_fixed_tpm := True, oa_fixed_parent := True, oa_no_da := True, oa_admin_with_policy := True,
          oa_user_with_auth := False, oa_sensitive_data_origin := False, oa_restricted := False, oa_decrypt := False,
          oa_sign_encrypt := False\<rparr>))"

definition sealed_public :: "('c, 'h, 's, 'sel, 'slot, 'q, 'e, 'w) tss \<Rightarrow> bytes \<Rightarrow> ('q tss_public, engine_error) result" where
  "sealed_public T policy =
     and_then (sealed_attributes T) (\<lambda>attributes.
     tss_result T ''sealed_public'' (ts_public_build T (KeyedHash attributes Sha256 policy SchemeNull [])))"

definition parent_public :: "('c, 'h, 's, 'sel, 'slot, 'q, 'e, 'w) tss \<Rightarrow> ('q tss_public, engine_error) result" where
  "parent_public T =
     and_then (tss_result T ''parent_public'' (ts_attributes_build T
       (no_attributes\<lparr>oa_fixed_tpm := True, oa_fixed_parent := True, oa_sensitive_data_origin := True,
          oa_user_with_auth := True, oa_no_da := True, oa_restricted := True, oa_decrypt := True,
          oa_sign_encrypt := False\<rparr>))) (\<lambda>attributes.
     and_then (tss_result T ''parent_public'' (ts_ecc_parameters T ''AES_128_CFB'' ''NistP256'')) (\<lambda>parameters.
     tss_result T ''parent_public'' (ts_public_build T (Ecc attributes Sha256 [] parameters ([], [])))))"

definition sha256_name :: "('c, 'h, 's, 'sel, 'slot, 'q, 'e, 'w) tss \<Rightarrow> 'q tss_public \<Rightarrow> (bytes, engine_error) result" where
  "sha256_name T public =
     (if name_hashing_algorithm public \<noteq> Sha256 then Err (Provider ''TPM object Name must use SHA256'')
      else and_then (tss_result T ''sha256_name'' (ts_marshall T public)) (\<lambda>bs. Ok ([0x00, 0x0b] @ ts_sha256 T bs)))"

definition create_parent :: "('c, 'h, 's, 'sel, 'slot, 'q, 'e, 'w) tss \<Rightarrow> 'c \<Rightarrow> 'w \<Rightarrow> ('h \<times> bytes, engine_error) result \<times> 'w" where
  "create_parent T c =
     try_then (tried (parent_public T)) (\<lambda>template.
     try_then (tss_call T ''create_parent'' (ts_create_primary T c Password template)) (\<lambda>(key_handle, out_public).
     try_then (tried (sha256_name T out_public)) (\<lambda>name.
     try_then (tss_call T ''create_parent'' (ts_tr_get_name T c key_handle)) (\<lambda>actual.
       if actual \<noteq> name then tried (Err (Provider ''primary object Name mismatch''))
       else tried (Ok (key_handle, name))))))"

definition start_session :: "('c, 'h, 's, 'sel, 'slot, 'q, 'e, 'w) tss \<Rightarrow> 'c \<Rightarrow> 'h option \<Rightarrow> session_type
      \<Rightarrow> 'w \<Rightarrow> ('s auth_session, engine_error) result \<times> 'w" where
  "start_session T c parent kind =
     try_then (tss_call T ''start_session'' (ts_start_auth_session T c parent kind ''AES_128_CFB'' Sha256)) (\<lambda>session.
       tried (ok_or (Provider ''TPM returned no session'') session))"

definition set_protection :: "('c, 'h, 's, 'sel, 'slot, 'q, 'e, 'w) tss \<Rightarrow> 'c \<Rightarrow> 's auth_session \<Rightarrow> bool \<Rightarrow> bool
      \<Rightarrow> 'w \<Rightarrow> (unit, engine_error) result \<times> 'w" where
  "set_protection T c session decrypt encrypt =
     tss_call T ''set_protection'' (ts_set_attributes T c session True decrypt encrypt)"

definition apply_policy :: "('c, 'h, 's, 'sel, 'slot, 'q, 'e, 'w) tss \<Rightarrow> 'c \<Rightarrow> 's auth_session \<Rightarrow> descriptor
      \<Rightarrow> 'w \<Rightarrow> ('s, engine_error) result \<times> 'w" where
  "apply_policy T c session d =
     try_then (tried (tss_result T ''apply_policy'' (ts_policy_session T session))) (\<lambda>policy.
     try_then (tried (tss_result T ''apply_policy'' (ts_digest T (d_tpm_pcr_digest d)))) (\<lambda>digest.
     try_then (tried (selection T (d_tpm_pcr_mask d))) (\<lambda>selected.
     try_then (tss_call T ''apply_policy'' (ts_policy_pcr T c policy digest selected)) (\<lambda>_.
     try_then (tss_call T ''apply_policy'' (ts_policy_command_code_unseal T c policy)) (\<lambda>_.
     tried (Ok policy))))))"

definition expected_policy :: "('c, 'h, 's, 'sel, 'slot, 'q, 'e, 'w) tss \<Rightarrow> 'c \<Rightarrow> descriptor
      \<Rightarrow> 'w \<Rightarrow> (bytes, engine_error) result \<times> 'w" where
  "expected_policy T c d =
     try_then (start_session T c None Trial) (\<lambda>session.
     try_then (apply_policy T c session d) (\<lambda>policy.
     try_then (tss_call T ''expected_policy'' (ts_policy_get_digest T c policy)) (\<lambda>digest.
     try_then (tss_call T ''expected_policy'' (ts_flush_context T c session)) (\<lambda>_.
     tried (Ok digest)))))"

definition validate_public :: "('c, 'h, 's, 'sel, 'slot, 'q, 'e, 'w) tss \<Rightarrow> 'q tss_public \<Rightarrow> bytes \<Rightarrow> (unit, engine_error) result" where
  "validate_public T public expected =
     (case public of
        KeyedHash attributes name_algorithm policy parameters unique \<Rightarrow>
          and_then (sealed_attributes T) (\<lambda>wanted.
            if attributes = wanted \<and> name_algorithm = Sha256 \<and> policy = expected \<and> parameters = SchemeNull \<and> length unique = 32
            then Ok () else Err (Provider ''sealed object has unexpected policy or attributes''))
      | _ \<Rightarrow> Err (Provider ''sealed object has unexpected policy or attributes''))"

definition require_network_bound :: "primitives \<Rightarrow> ('p, 'f, 'srv, 'cli, 'st) voprf_lib \<Rightarrow> minicbor \<Rightarrow> descriptor
      \<Rightarrow> (unit, engine_error) result" where
  "require_network_bound P V C d =
     (if policy_mode (d_policy d) \<noteq> NetworkBound then Err UnsupportedMode
      else and_then (map_err engine_error.Envelope (descriptor_bytes P V C d)) (\<lambda>_. Ok ()))"

definition tpm2_seal :: "primitives \<Rightarrow> ('p, 'f, 'srv, 'cli, 'st) voprf_lib \<Rightarrow> minicbor \<Rightarrow> ('c, 'h, 's, 'sel, 'slot, 'q, 'e, 'w) tss
      \<Rightarrow> string \<Rightarrow> descriptor \<Rightarrow> bytes \<Rightarrow> 'w \<Rightarrow> (tpm_blob, engine_error) result \<times> 'w" where
  "tpm2_seal P V C T tcti d seed =
     try_then (tried (require_network_bound P V C d)) (\<lambda>_.
     with_context T tcti (\<lambda>c.
     try_then (expected_policy T c d) (\<lambda>policy.
     try_then (create_parent T c) (\<lambda>(parent, parent_name).
     try_then (start_session T c (Some parent) Hmac) (\<lambda>session.
     try_then (set_protection T c session True True) (\<lambda>_.
     try_then (tried (sealed_public T policy)) (\<lambda>public.
     try_then (tried (tss_result T ''seal'' (ts_sensitive T seed))) (\<lambda>sensitive.
     try_then (tss_call T ''seal'' (ts_create T c session parent public sensitive)) (\<lambda>(out_public, out_private).
     try_then (tried (validate_public T out_public policy)) (\<lambda>_.
     try_then (tried (sha256_name T out_public)) (\<lambda>name.
     try_then (tried (tss_result T ''seal'' (ts_marshall T out_public))) (\<lambda>public_bytes.
     tried (Ok \<lparr>tpm_public = public_bytes, tpm_private = out_private, tpm_name = name, tpm_parent_name = parent_name\<rparr>)))))))))))))"

definition tpm2_unseal :: "primitives \<Rightarrow> ('p, 'f, 'srv, 'cli, 'st) voprf_lib \<Rightarrow> minicbor \<Rightarrow> ('c, 'h, 's, 'sel, 'slot, 'q, 'e, 'w) tss
      \<Rightarrow> string \<Rightarrow> authenticated_envelope \<Rightarrow> 'w \<Rightarrow> (unsealed_seed, engine_error) result \<times> 'w" where
  "tpm2_unseal P V C T tcti env =
     (let d = eb_descriptor (ae_body env); blob = eb_tpm (ae_body env);
          mismatch = Provider ''noncanonical TPM public or mismatched object Name'' in
      try_then (tried (require_network_bound P V C d)) (\<lambda>_.
      try_then (tried (tss_result T ''unseal'' (ts_unmarshall T (tpm_public blob)))) (\<lambda>public.
      try_then (tried (tss_result T ''unseal'' (ts_marshall T public))) (\<lambda>canonical.
      if canonical \<noteq> tpm_public blob then tried (Err mismatch) else
      try_then (tried (sha256_name T public)) (\<lambda>name.
      if name \<noteq> tpm_name blob \<or> length (tpm_parent_name blob) \<noteq> 34 then tried (Err mismatch) else
      try_then (tried (tss_result T ''unseal'' (ts_private T (tpm_private blob)))) (\<lambda>private.
      with_context T tcti (\<lambda>c.
      try_then (expected_policy T c d) (\<lambda>policy.
      try_then (tried (validate_public T public policy)) (\<lambda>_.
      try_then (create_parent T c) (\<lambda>(parent, parent_name).
      if parent_name \<noteq> tpm_parent_name blob then tried (Err (Provider ''TPM storage parent identity changed'')) else
      try_then (tss_call T ''unseal'' (ts_load T c Password parent private public)) (\<lambda>object.
      try_then (tss_call T ''unseal'' (ts_tr_get_name T c object)) (\<lambda>loaded_name.
      if loaded_name \<noteq> tpm_name blob then tried (Err (Provider ''loaded TPM object Name mismatch'')) else
      try_then (start_session T c (Some parent) PolicyType) (\<lambda>session.
      try_then (apply_policy T c session d) (\<lambda>_.
      try_then (set_protection T c session False True) (\<lambda>_.
      try_then (tss_call T ''unseal'' (ts_unseal T c session object)) (\<lambda>sensitive.
      if length sensitive \<noteq> 32 then tried (Err (Provider ''unsealed seed has unexpected length''))
      else tried (Ok \<lparr>us_seed = sensitive, us_authorization = LocalMeasuredBoot\<rparr>)))))))))))))))))"

definition tpm2_provider :: "primitives \<Rightarrow> ('p, 'f, 'srv, 'cli, 'st) voprf_lib \<Rightarrow> minicbor \<Rightarrow> ('c, 'h, 's, 'sel, 'slot, 'q, 'e, 'w) tss
      \<Rightarrow> string \<Rightarrow> 'w tpm_provider" where
  "tpm2_provider P V C T tcti =
     \<lparr>supports_mode = (\<lambda>m. m = NetworkBound), tpm_seal = tpm2_seal P V C T tcti, tpm_unseal = tpm2_unseal P V C T tcti\<rparr>"

section \<open>Contracts of the library and of the TPM\<close>

text \<open>The conversions of the library keep the bytes, and parsing a public area inverts its encoding.\<close>

definition tss_conversions :: "('c, 'h, 's, 'sel, 'slot, 'q, 'e, 'w) tss \<Rightarrow> bool" where
  "tss_conversions T \<longleftrightarrow>
     (\<forall>bs bs'. ts_digest T bs = Ok bs' \<longrightarrow> bs' = bs) \<and> (\<forall>bs bs'. ts_private T bs = Ok bs' \<longrightarrow> bs' = bs)
     \<and> (\<forall>bs bs'. ts_sensitive T bs = Ok bs' \<longrightarrow> bs' = bs) \<and> (\<forall>a a'. ts_attributes_build T a = Ok a' \<longrightarrow> a' = a)
     \<and> (\<forall>p bs. ts_marshall T p = Ok bs \<longrightarrow> ts_unmarshall T bs = Ok p)"

text \<open>\<open>sealed pub priv data\<close>: the two parts are an object that was created with \<open>data\<close>. \<open>holds w c h\<close>: the object loaded
  at a handle. Loading and the commands between it and the unseal keep it, and unsealing gives back its data.\<close>

definition tpm_storage :: "('c, 'h, 's, 'sel, 'slot, 'q, 'e, 'w) tss \<Rightarrow> ('q tss_public \<Rightarrow> bytes \<Rightarrow> bytes \<Rightarrow> bool)
      \<Rightarrow> ('w \<Rightarrow> 'c \<Rightarrow> 'h \<Rightarrow> ('q tss_public \<times> bytes) option) \<Rightarrow> bool" where
  "tpm_storage T sealed holds \<longleftrightarrow>
     (\<forall>c session parent pub data w pub' priv w'.
        ts_create T c session parent pub data w = (Ok (pub', priv), w') \<longrightarrow> sealed pub' priv data)
     \<and> (\<forall>c session parent priv pub w h w'.
        ts_load T c session parent priv pub w = (Ok h, w') \<longrightarrow> holds w' c h = Some (pub, priv))
     \<and> (\<forall>c h h' w. holds (snd (ts_tr_get_name T c h' w)) c h = holds w c h)
     \<and> (\<forall>c h parent kind alg hash w. holds (snd (ts_start_auth_session T c parent kind alg hash w)) c h = holds w c h)
     \<and> (\<forall>c h session a b e w. holds (snd (ts_set_attributes T c session a b e w)) c h = holds w c h)
     \<and> (\<forall>c h p digest sel w. holds (snd (ts_policy_pcr T c p digest sel w)) c h = holds w c h)
     \<and> (\<forall>c h p w. holds (snd (ts_policy_command_code_unseal T c p w)) c h = holds w c h)
     \<and> (\<forall>c session h w data w' pub priv data'.
        ts_unseal T c session h w = (Ok data, w') \<longrightarrow> holds w c h = Some (pub, priv) \<longrightarrow> sealed pub priv data' \<longrightarrow> data = data')"

text \<open>\<open>policy_of digest sel\<close>: the digest of the policy that asks for these PCR values and for the unseal command; a trial
  session computes it. An object without user authorization and with this policy is released only while the PCRs
  have these values.\<close>

definition policy_enforced :: "('c, 'h, 's, 'sel, 'slot, 'q, 'e, 'w) tss \<Rightarrow> ('w \<Rightarrow> 'c \<Rightarrow> 'h \<Rightarrow> ('q tss_public \<times> bytes) option)
      \<Rightarrow> (bytes \<Rightarrow> 'sel \<Rightarrow> bytes) \<Rightarrow> ('w \<Rightarrow> 'sel \<Rightarrow> bytes) \<Rightarrow> bool" where
  "policy_enforced T holds policy_of pcrs \<longleftrightarrow>
     (\<forall>c alg hash w session w1 p digest sel w2 w3 policy w4.
        ts_start_auth_session T c None Trial alg hash w = (Ok (Some session), w1) \<longrightarrow> ts_policy_session T session = Ok p \<longrightarrow>
        ts_policy_pcr T c p digest sel w1 = (Ok (), w2) \<longrightarrow> ts_policy_command_code_unseal T c p w2 = (Ok (), w3) \<longrightarrow>
        ts_policy_get_digest T c p w3 = (Ok policy, w4) \<longrightarrow> policy = policy_of digest sel)
     \<and> (\<forall>c session h w data w' pub priv digest sel.
        ts_unseal T c session h w = (Ok data, w') \<longrightarrow> holds w c h = Some (pub, priv) \<longrightarrow>
        \<not> oa_user_with_auth (public_attributes pub) \<longrightarrow> auth_policy pub = policy_of digest sel \<longrightarrow> pcrs w sel = digest)"

text \<open>The update counter determines the value of the PCR.\<close>

definition counter_tells :: "('c, 'h, 's, 'sel, 'slot, 'q, 'e, 'w) tss \<Rightarrow> (nat \<Rightarrow> nat \<Rightarrow> bytes) \<Rightarrow> nat \<Rightarrow> bool" where
  "counter_tells T pcr_value index \<longleftrightarrow>
     (\<forall>c sel w counter digests w'. selection T (push_bit index 1) = Ok sel \<longrightarrow>
        ts_pcr_read T c sel w = (Ok (counter, sel, digests), w') \<longrightarrow> length digests = 1 \<longrightarrow> digests ! 0 = pcr_value counter index)"

section \<open>Snapshots of the PCRs\<close>

lemma tss_result_Ok_iff [result_simps]: "tss_result T operation r = Ok x \<longleftrightarrow> r = Ok x"
  by (simp add: tss_result_def result_simps)

lemma tss_call_Ok_iff [result_simps]: "tss_call T operation f w = (Ok x, w') \<longleftrightarrow> f w = (Ok x, w')"
  by (auto simp: tss_call_def result_simps split: prod.splits)

lemma with_context_Ok_iff [result_simps]:
  "with_context T tcti body w = (Ok x, w') \<longleftrightarrow>
     (\<exists>c v v'. ts_context T tcti w = (Ok c, v) \<and> body c v = (Ok x, v') \<and> w' = ts_drop T c v')"
proof -
  have "(case body c v of (r, v') \<Rightarrow> (r, ts_drop T c v')) = (Ok x, w') \<longleftrightarrow> (\<exists>v'. body c v = (Ok x, v') \<and> w' = ts_drop T c v')" for c v
    by (cases "body c v") auto
  then show ?thesis by (simp add: with_context_def result_simps)
qed

lemma pcr_loop_snapshot:
  assumes "pcr_loop T c pcr_mask indices counter hashed w = (Ok bs, w')"
    and "\<And>index. index \<in> set indices \<Longrightarrow> pcr_mask AND push_bit index 1 \<noteq> 0 \<Longrightarrow> counter_tells T pcr_value index"
  shows "\<exists>n. (\<forall>m. counter = Some m \<longrightarrow> n = m)
    \<and> bs = hashed @ concat (map (pcr_value n) (filter (\<lambda>index. pcr_mask AND push_bit index 1 \<noteq> 0) indices))
    \<and> (\<forall>index\<in>set indices. pcr_mask AND push_bit index 1 \<noteq> 0 \<longrightarrow> length (pcr_value n index) = 32)"
  using assms
proof (induction indices arbitrary: counter hashed w)
  case Nil
  then show ?case by auto
next
  case (Cons index rest)
  show ?case
  proof (cases "pcr_mask AND push_bit index 1 = 0")
    case True
    then show ?thesis using Cons by simp
  next
    case False
    obtain sel current digests v where
      sel: "selection T (push_bit index 1) = Ok sel" "ts_pcr_read T c sel w = (Ok (current, sel, digests), v)"
      and one: "length digests = 1" "length (digests ! 0) = 32" and same: "\<And>m. counter = Some m \<Longrightarrow> current = m"
      and rest: "pcr_loop T c pcr_mask rest (Some current) (hashed @ digests ! 0) v = (Ok bs, w')"
      using Cons.prems(1) False by (auto simp: result_simps split: if_splits option.splits)
    have "digests ! 0 = pcr_value current index"
      using Cons.prems(2) [OF list.set_intros(1) False] sel one(1) unfolding counter_tells_def by blast
    then show ?thesis
      using Cons.IH [OF rest] Cons.prems(2) False same one(2) by auto
  qed
qed

section \<open>Sealing and unsealing\<close>

lemma tpm2_seal_Ok:
  assumes "tpm2_seal P V C T tcti d seed w = (Ok blob, w')" "tss_conversions T"
  shows "\<exists>c session parent public v out_public v'.
    ts_create T c session parent public seed v = (Ok (out_public, tpm_private blob), v')
    \<and> ts_marshall T out_public = Ok (tpm_public blob)"
  using assms unfolding tpm2_seal_def tss_conversions_def
  by (clarsimp simp: result_simps split: prod.splits) blast

text \<open>What was true when a seed was released.\<close>

lemma tpm2_unseal_Ok:
  assumes "tpm2_unseal P V C T tcti env w = (Ok u, w')" "tss_conversions T"
  shows "\<exists>public c policy parent object session v0 v1 v2 v3 v4 v5 v6 v7 v8 vp.
    require_network_bound P V C (eb_descriptor (ae_body env)) = Ok ()
    \<and> ts_unmarshall T (tpm_public (eb_tpm (ae_body env))) = Ok public
    \<and> expected_policy T c (eb_descriptor (ae_body env)) v0 = (Ok policy, v1) \<and> validate_public T public policy = Ok ()
    \<and> ts_load T c Password parent (tpm_private (eb_tpm (ae_body env))) public v2 = (Ok object, v3)
    \<and> ts_tr_get_name T c object v3 = (Ok (tpm_name (eb_tpm (ae_body env))), v4)
    \<and> start_session T c (Some parent) PolicyType v4 = (Ok session, v5)
    \<and> apply_policy T c session (eb_descriptor (ae_body env)) v5 = (Ok vp, v6)
    \<and> set_protection T c session False True v6 = (Ok (), v7)
    \<and> ts_unseal T c session object v7 = (Ok (us_seed u), v8) \<and> w' = ts_drop T c v8
    \<and> length (us_seed u) = 32 \<and> us_authorization u = LocalMeasuredBoot"
  using assms unfolding tpm2_unseal_def tss_conversions_def Let_def
  by (clarsimp simp: result_simps split: prod.splits if_splits) blast

lemma expected_policy_digest:
  assumes "expected_policy T c d w = (Ok policy, w')" "tss_conversions T" "policy_enforced T holds policy_of pcrs"
  shows "\<exists>sel. selection T (d_tpm_pcr_mask d) = Ok sel \<and> policy = policy_of (d_tpm_pcr_digest d) sel"
proof -
  obtain session w1 p digest sel w2 w3 w4 where
    "ts_start_auth_session T c None Trial ''AES_128_CFB'' Sha256 w = (Ok (Some session), w1)" "ts_policy_session T session = Ok p"
    "ts_digest T (d_tpm_pcr_digest d) = Ok digest" and sel: "selection T (d_tpm_pcr_mask d) = Ok sel"
    and "ts_policy_pcr T c p digest sel w1 = (Ok (), w2)" "ts_policy_command_code_unseal T c p w2 = (Ok (), w3)"
    "ts_policy_get_digest T c p w3 = (Ok policy, w4)"
    using assms(1) unfolding expected_policy_def start_session_def apply_policy_def by (auto simp: result_simps)
  moreover from this(3) have "digest = d_tpm_pcr_digest d" using assms(2) by (simp add: tss_conversions_def)
  ultimately have "policy = policy_of (d_tpm_pcr_digest d) sel"
    using assms(3) unfolding policy_enforced_def by blast
  then show ?thesis using sel by blast
qed

lemma sealed_attributes_Ok:
  assumes "sealed_attributes T = Ok a" "tss_conversions T"
  shows "\<not> oa_user_with_auth a"
proof -
  obtain wanted where "ts_attributes_build T wanted = Ok a" "\<not> oa_user_with_auth wanted"
    using assms(1) by (auto simp: sealed_attributes_def result_simps)
  moreover from this(1) have "a = wanted" using assms(2) unfolding tss_conversions_def by blast
  ultimately show ?thesis by simp
qed

lemma validate_public_Ok:
  assumes "validate_public T public policy = Ok ()" "tss_conversions T"
  shows "auth_policy public = policy" "\<not> oa_user_with_auth (public_attributes public)"
  using assms(1) sealed_attributes_Ok [OF _ assms(2)]
  by (auto simp: validate_public_def result_simps split: tss_public.splits if_splits)

lemma tpm_storage_unseal:
  assumes "tpm_storage T sealed holds" "ts_create T c session parent pub data w = (Ok (pub', priv), w')"
    and "ts_unseal T c' session' h v = (Ok data', v')" "holds v c' h = Some (pub', priv)"
  shows "data' = data"
proof -
  note storage = assms(1) [unfolded tpm_storage_def]
  have "sealed pub' priv data" by (rule storage [THEN conjunct1, rule_format, OF assms(2)])
  with storage [THEN conjunct2, THEN conjunct2, THEN conjunct2, THEN conjunct2, THEN conjunct2, THEN conjunct2, THEN conjunct2,
      rule_format, OF assms(3,4)]
  show ?thesis by blast
qed

text \<open>The loaded object is still loaded when it is unsealed.\<close>

lemma held_until_unseal:
  assumes "tpm_storage T sealed holds"
    and "ts_load T c Password parent priv public v2 = (Ok object, v3)" "ts_tr_get_name T c object v3 = (Ok name, v4)"
    and "start_session T c (Some parent) PolicyType v4 = (Ok session, v5)" "apply_policy T c session d v5 = (Ok vp, v6)"
    and "set_protection T c session False True v6 = (Ok (), v7)"
  shows "holds v7 c object = Some (public, priv)"
proof -
  have loaded: "holds v3 c object = Some (public, priv)"
    by (rule assms(1) [unfolded tpm_storage_def, THEN conjunct2, THEN conjunct1, rule_format, OF assms(2)])
  have name: "\<And>h' w. holds (snd (ts_tr_get_name T c h' w)) c object = holds w c object"
    and start: "\<And>par kind alg hash w. holds (snd (ts_start_auth_session T c par kind alg hash w)) c object = holds w c object"
    and attr: "\<And>s a b e w. holds (snd (ts_set_attributes T c s a b e w)) c object = holds w c object"
    and pcr: "\<And>p digest sel w. holds (snd (ts_policy_pcr T c p digest sel w)) c object = holds w c object"
    and code: "\<And>p w. holds (snd (ts_policy_command_code_unseal T c p w)) c object = holds w c object"
    using assms(1) unfolding tpm_storage_def by simp_all
  have "holds v4 c object = holds v3 c object" using name [of object v3] assms(3) by simp
  moreover have "holds v5 c object = holds v4 c object"
    using assms(4) start [of "Some parent" PolicyType "''AES_128_CFB''" Sha256 v4] by (auto simp: start_session_def result_simps)
  moreover obtain p digest sel u where "ts_policy_pcr T c p digest sel v5 = (Ok (), u)" "ts_policy_command_code_unseal T c p u = (Ok (), v6)"
    using assms(5) by (auto simp: apply_policy_def result_simps)
  then have "holds v6 c object = holds v5 c object" using pcr [of p digest sel v5] code [of p u] by simp
  moreover have "holds v7 c object = holds v6 c object"
    using assms(6) attr [of session True False True v6] by (simp add: set_protection_def result_simps)
  ultimately show ?thesis using loaded by simp
qed

lemma tpm2_unseal_released:
  assumes "tpm2_unseal P V C T tcti env w = (Ok u, w')" "tss_conversions T" "tpm_storage T sealed holds"
  shows "\<exists>public c v0 policy v1 session object v v'.
    ts_unmarshall T (tpm_public (eb_tpm (ae_body env))) = Ok public
    \<and> expected_policy T c (eb_descriptor (ae_body env)) v0 = (Ok policy, v1) \<and> validate_public T public policy = Ok ()
    \<and> holds v c object = Some (public, tpm_private (eb_tpm (ae_body env))) \<and> ts_unseal T c session object v = (Ok (us_seed u), v')"
  using tpm2_unseal_Ok [OF assms(1,2)]
proof (elim exE conjE)
  fix public c policy parent object session v0 v1 v2 v3 v4 v5 v6 v7 v8 vp
  assume area: "ts_unmarshall T (tpm_public (eb_tpm (ae_body env))) = Ok public"
    and policy: "expected_policy T c (eb_descriptor (ae_body env)) v0 = (Ok policy, v1)" "validate_public T public policy = Ok ()"
    and load: "ts_load T c Password parent (tpm_private (eb_tpm (ae_body env))) public v2 = (Ok object, v3)"
      "ts_tr_get_name T c object v3 = (Ok (tpm_name (eb_tpm (ae_body env))), v4)"
      "start_session T c (Some parent) PolicyType v4 = (Ok session, v5)"
      "apply_policy T c session (eb_descriptor (ae_body env)) v5 = (Ok vp, v6)" "set_protection T c session False True v6 = (Ok (), v7)"
    and out: "ts_unseal T c session object v7 = (Ok (us_seed u), v8)"
  show ?thesis using area policy held_until_unseal [OF assms(3) load] out by metis
qed

lemma adapter_faithful:
  assumes "tss_conversions T" "tpm_storage T sealed holds"
  shows "tpm_faithful (tpm2_provider P V C T tcti) (tpm2_provider P V C T tcti')"
  unfolding tpm_faithful_def
proof (intro allI impI)
  fix d seed w blob w' env v u v'
  assume sealed: "tpm_seal (tpm2_provider P V C T tcti) d seed w = (Ok blob, w')" and blob: "eb_tpm (ae_body env) = blob"
    and unsealed: "tpm_unseal (tpm2_provider P V C T tcti') env v = (Ok u, v')"
  obtain c session parent public x out_public x' where
    created: "ts_create T c session parent public seed x = (Ok (out_public, tpm_private blob), x')"
    and bytes: "ts_marshall T out_public = Ok (tpm_public blob)"
    using tpm2_seal_Ok [OF sealed [unfolded tpm2_provider_def tpm_provider.simps] assms(1)] by blast
  obtain area c' ses object x1 x2 where area: "ts_unmarshall T (tpm_public blob) = Ok area"
    and held: "holds x1 c' object = Some (area, tpm_private blob)" and out: "ts_unseal T c' ses object x1 = (Ok (us_seed u), x2)"
    using tpm2_unseal_released [OF unsealed [unfolded tpm2_provider_def tpm_provider.simps] assms, unfolded blob] by metis
  have "ts_unmarshall T (tpm_public blob) = Ok out_public" using bytes assms(1) unfolding tss_conversions_def by blast
  then have "area = out_public" using area by simp
  then have "holds x1 c' object = Some (out_public, tpm_private blob)" using held by simp
  from tpm_storage_unseal [OF assms(2) created out this] show "us_seed u = seed" .
qed

lemma adapter_release:
  assumes "tss_conversions T" "tpm_storage T sealed holds" "policy_enforced T holds policy_of pcrs"
    and "tpm_unseal (tpm2_provider P V C T tcti) env w = (Ok u, w')"
  shows "length (us_seed u) = 32 \<and> policy_mode (d_policy (eb_descriptor (ae_body env))) = NetworkBound
    \<and> (\<exists>sel c session object v v'. selection T (d_tpm_pcr_mask (eb_descriptor (ae_body env))) = Ok sel
      \<and> ts_unseal T c session object v = (Ok (us_seed u), v')
      \<and> pcrs v sel = d_tpm_pcr_digest (eb_descriptor (ae_body env)))"
proof -
  have run: "tpm2_unseal P V C T tcti env w = (Ok u, w')" using assms(4) by (simp add: tpm2_provider_def)
  obtain public c v0 policy v1 session object v v' where
    policy: "expected_policy T c (eb_descriptor (ae_body env)) v0 = (Ok policy, v1)" "validate_public T public policy = Ok ()"
    and held: "holds v c object = Some (public, tpm_private (eb_tpm (ae_body env)))"
    and out: "ts_unseal T c session object v = (Ok (us_seed u), v')"
    using tpm2_unseal_released [OF run assms(1,2)] by metis
  obtain sel where sel: "selection T (d_tpm_pcr_mask (eb_descriptor (ae_body env))) = Ok sel"
    "policy = policy_of (d_tpm_pcr_digest (eb_descriptor (ae_body env))) sel"
    using expected_policy_digest [OF policy(1) assms(1,3)] by blast
  have "pcrs v sel = d_tpm_pcr_digest (eb_descriptor (ae_body env))"
    using assms(3) [unfolded policy_enforced_def, THEN conjunct2, rule_format, OF out held]
      validate_public_Ok [OF policy(2) assms(1)] sel(2) by blast
  moreover have "length (us_seed u) = 32" "require_network_bound P V C (eb_descriptor (ae_body env)) = Ok ()"
    using tpm2_unseal_Ok [OF run assms(1)] by auto
  moreover from this(2) have "policy_mode (d_policy (eb_descriptor (ae_body env))) = NetworkBound"
    by (simp add: require_network_bound_def split: if_splits)
  ultimately show ?thesis using sel(1) out by metis
qed

section \<open>A concrete TPM\<close>

text \<open>A TPM whose PCRs never change. A handle is the object itself.\<close>

definition example_pcr :: bytes where
  "example_pcr = d_tpm_pcr_digest example_descriptor"

definition example_sealed_public :: "unit tss_public" where
  "example_sealed_public =
     KeyedHash (no_attributes\<lparr>oa_fixed_tpm := True, oa_fixed_parent := True, oa_no_da := True, oa_admin_with_policy := True\<rparr>)
       Sha256 example_pcr SchemeNull (replicate 32 0)"

definition example_parent_public :: "unit tss_public" where
  "example_parent_public = Ecc no_attributes Sha256 [] () ([], [])"

definition example_name :: bytes where
  "example_name = [0x00, 0x0b] @ replicate 32 6"

definition example_tss :: "(unit, unit tss_public \<times> bytes, unit, u32 list, u32, unit, unit, unit) tss" where
  "example_tss =
     \<lparr>ts_debug = (\<lambda>_. ''error''), ts_tcti = Ok, ts_sha256 = (\<lambda>_. replicate 32 6), ts_attributes_build = Ok, ts_ecc_parameters = (\<lambda>_ _. Ok ()),
      ts_public_build = Ok,
      ts_marshall = (\<lambda>p. if p = example_sealed_public then Ok [1] else if p = example_parent_public then Ok [2] else Err ()),
      ts_unmarshall = (\<lambda>bs. if bs = [1] then Ok example_sealed_public else if bs = [2] then Ok example_parent_public else Err ()),
      ts_digest = Ok, ts_private = Ok, ts_sensitive = (\<lambda>bs. if length bs = 32 then Ok bs else Err ()), ts_pcr_slot = Ok, ts_selection = (\<lambda>_. Ok),
      ts_policy_session = (\<lambda>_. Ok ()), ts_context = (\<lambda>_ w. (Ok (), w)), ts_drop = (\<lambda>_ w. w),
      ts_pcr_read = (\<lambda>_ sel w. (Ok (5, sel, [replicate 32 (ucast (hd sel))]), w)),
      ts_create_primary = (\<lambda>_ _ _ w. (Ok ((example_parent_public, []), example_parent_public), w)),
      ts_tr_get_name = (\<lambda>_ _ w. (Ok example_name, w)),
      ts_start_auth_session = (\<lambda>_ _ _ _ _ w. (Ok (Some (Session ())), w)),
      ts_set_attributes = (\<lambda>_ _ _ _ _ w. (Ok (), w)),
      ts_policy_pcr = (\<lambda>_ _ digest _ w. (if digest = example_pcr then Ok () else Err (), w)),
      ts_policy_command_code_unseal = (\<lambda>_ _ w. (Ok (), w)), ts_policy_get_digest = (\<lambda>_ _ w. (Ok example_pcr, w)),
      ts_flush_context = (\<lambda>_ _ w. (Ok (), w)),
      ts_create = (\<lambda>_ _ _ _ data w. (Ok (example_sealed_public, 0 # data), w)),
      ts_load = (\<lambda>_ _ _ priv pub w. (Ok (pub, priv), w)),
      ts_unseal = (\<lambda>_ _ h w. (if auth_policy (fst h) = example_pcr then Ok (tl (snd h)) else Err (), w))\<rparr>"

definition example_pcr_value :: "nat \<Rightarrow> nat \<Rightarrow> bytes" where
  "example_pcr_value counter index = replicate 32 (ucast (push_bit index 1 :: u32))"

definition example_adapter :: "unit tpm_provider" where
  "example_adapter = tpm2_provider plain_primitives plain_voprf rfc8949 example_tss ''device:/dev/tpmrm0''"

lemma example_pcr_nonempty: "example_pcr \<noteq> []"
  by (simp add: example_pcr_def example_descriptor_def)

lemma example_publics: "example_sealed_public \<noteq> example_parent_public"
  by (simp add: example_sealed_public_def example_parent_public_def)

lemma example_conversions: "tss_conversions example_tss"
  using example_publics by (auto simp: tss_conversions_def example_tss_def)

lemma example_storage: "tpm_storage example_tss (\<lambda>pub priv data. priv = 0 # data) (\<lambda>w c h. Some h)"
  by (auto simp: tpm_storage_def example_tss_def split: if_splits)

lemma example_enforced:
  "policy_enforced example_tss (\<lambda>w c h. Some h) (\<lambda>digest sel. if digest = example_pcr then example_pcr else []) (\<lambda>w sel. example_pcr)"
  using example_pcr_nonempty by (auto simp: policy_enforced_def example_tss_def split: if_splits)

lemma example_tss_simps:
  "ts_attributes_build example_tss a = Ok a" "ts_ecc_parameters example_tss x y = Ok ()" "ts_public_build example_tss p = Ok p"
  "ts_sha256 example_tss bs = replicate 32 6" "ts_digest example_tss bs = Ok bs" "ts_private example_tss bs = Ok bs"
  "ts_sensitive example_tss bs = (if length bs = 32 then Ok bs else Err ())" "ts_pcr_slot example_tss n = Ok n" "ts_selection example_tss alg sel = Ok sel"
  "ts_policy_session example_tss s = Ok ()" "ts_context example_tss tcti w = (Ok (), w)" "ts_drop example_tss c w = w"
  "ts_marshall example_tss example_sealed_public = Ok [1]" "ts_marshall example_tss example_parent_public = Ok [2]"
  "ts_unmarshall example_tss [1] = Ok example_sealed_public"
  "ts_pcr_read example_tss c sel w = (Ok (5, sel, [replicate 32 (ucast (hd sel))]), w)"
  "ts_create_primary example_tss c s p w = (Ok ((example_parent_public, []), example_parent_public), w)"
  "ts_tr_get_name example_tss c h w = (Ok example_name, w)"
  "ts_start_auth_session example_tss c parent kind x alg w = (Ok (Some (Session ())), w)"
  "ts_set_attributes example_tss c s b1 b2 b3 w = (Ok (), w)"
  "ts_policy_pcr example_tss c u example_pcr sel w = (Ok (), w)" "ts_policy_command_code_unseal example_tss c u w = (Ok (), w)"
  "ts_policy_get_digest example_tss c u w = (Ok example_pcr, w)" "ts_flush_context example_tss c s w = (Ok (), w)"
  "ts_create example_tss c s h p data w = (Ok (example_sealed_public, 0 # data), w)"
  "ts_load example_tss c s h priv p w = (Ok (p, priv), w)"
  "ts_unseal example_tss c s (example_sealed_public, priv) w = (Ok (tl priv), w)"
  using example_publics by (simp_all add: example_tss_def) (simp add: example_sealed_public_def)

lemmas example_run = example_tss_simps try_then_def tried_def tss_call_def tss_result_def

lemma example_bound: "require_network_bound plain_primitives plain_voprf rfc8949 example_descriptor = Ok ()"
  using example_validates
  by (simp add: require_network_bound_def descriptor_bytes_def) (simp add: example_descriptor_def admitted_def)

lemma example_slots: "pcr_slots example_tss indices = Ok (map (\<lambda>index. push_bit index 1) indices)"
  by (induction indices) (simp_all add: example_tss_simps)

lemma example_applies: "apply_policy example_tss c session example_descriptor w = (Ok (), w)"
proof -
  have "validate_mask (d_tpm_pcr_mask example_descriptor) = Ok ()"
    by (simp add: validate_mask_def example_descriptor_def)
  then show ?thesis
    by (simp add: apply_policy_def selection_def example_slots example_run flip: example_pcr_def)
qed

lemma example_calls:
  "expected_policy example_tss c example_descriptor w = (Ok example_pcr, w)"
  "create_parent example_tss c w = (Ok ((example_parent_public, []), example_name), w)"
  "start_session example_tss c parent kind w = (Ok (Session ()), w)" "set_protection example_tss c session a b w = (Ok (), w)"
  "sha256_name example_tss example_sealed_public = Ok example_name"
  "validate_public example_tss example_sealed_public example_pcr = Ok ()"
proof -
  have name: "name_hashing_algorithm example_parent_public = Sha256" "name_hashing_algorithm example_sealed_public = Sha256"
    by (simp_all add: example_parent_public_def example_sealed_public_def)
  show "start_session example_tss c parent kind w = (Ok (Session ()), w)" "set_protection example_tss c session a b w = (Ok (), w)"
    by (simp_all add: start_session_def set_protection_def example_run)
  show "expected_policy example_tss c example_descriptor w = (Ok example_pcr, w)"
    by (simp add: expected_policy_def start_session_def example_applies example_run)
  show "create_parent example_tss c w = (Ok ((example_parent_public, []), example_name), w)"
    by (simp add: create_parent_def parent_public_def sha256_name_def example_run name) (simp add: example_name_def)
  show "sha256_name example_tss example_sealed_public = Ok example_name"
    by (simp add: sha256_name_def example_name_def example_run name)
  show "validate_public example_tss example_sealed_public example_pcr = Ok ()"
    by (simp add: validate_public_def sealed_attributes_def example_sealed_public_def example_run no_attributes_def)
qed

lemma example_adapter_seals:
  "tpm_seal example_adapter example_descriptor seed w =
     (if length seed = 32
      then Ok \<lparr>tpm_public = [1], tpm_private = 0 # seed, tpm_name = example_name, tpm_parent_name = example_name\<rparr>
      else Err (tss_error example_tss ''seal'' ()), w)"
  by (simp add: example_adapter_def tpm2_provider_def tpm2_seal_def with_context_def sealed_public_def sealed_attributes_def
      example_bound example_calls example_run)

lemma example_adapter_unseals:
  assumes "eb_descriptor (ae_body env) = example_descriptor" "length seed = 32"
    and "eb_tpm (ae_body env) = \<lparr>tpm_public = [1], tpm_private = 0 # seed, tpm_name = example_name, tpm_parent_name = example_name\<rparr>"
  shows "tpm_unseal example_adapter env w = (Ok \<lparr>us_seed = seed, us_authorization = LocalMeasuredBoot\<rparr>, w)"
proof -
  have "length example_name = 34" by (simp add: example_name_def)
  then show ?thesis
    using assms
    by (simp add: example_adapter_def tpm2_provider_def tpm2_unseal_def with_context_def Let_def
        example_bound example_calls example_applies example_run)
qed

section \<open>Properties\<close>

text \<open>C7. The TPM releases a seed only in the pinned state: whenever the adapter unseals a seed from an envelope, the seed
  has 32 bytes and the selected PCRs had, at the moment of the release, the values whose digest the signed
  descriptor pins. The envelope cannot supply a weaker object, because the adapter compares its policy and
  attributes with those it computes from the descriptor.\<close>

theorem tpm_releases_in_pinned_state:
  assumes "tss_conversions T" "tpm_storage T sealed holds" "policy_enforced T holds policy_of pcrs"
    and "tpm_unseal (tpm2_provider P V C T tcti) env w = (Ok u, w')"
  shows "length (us_seed u) = 32 \<and> policy_mode (d_policy (eb_descriptor (ae_body env))) = NetworkBound
    \<and> (\<exists>sel c session object v v'. selection T (d_tpm_pcr_mask (eb_descriptor (ae_body env))) = Ok sel
      \<and> ts_unseal T c session object v = (Ok (us_seed u), v')
      \<and> pcrs v sel = d_tpm_pcr_digest (eb_descriptor (ae_body env)))"
  using assms by (rule adapter_release)

theorem tpm_releases_in_pinned_state_witness:
  "\<exists>env u w'. tpm_unseal example_adapter env () = (Ok u, w') \<and> us_seed u = replicate 32 3 \<and> length (us_seed u) = 32
    \<and> d_tpm_pcr_digest (eb_descriptor (ae_body env)) = example_pcr"
proof -
  define env where "env = \<lparr>ae_body = example_body\<lparr>eb_descriptor := example_descriptor, eb_tpm := \<lparr>tpm_public = [1],
    tpm_private = 0 # replicate 32 3, tpm_name = example_name, tpm_parent_name = example_name\<rparr>\<rparr>, ae_context = []\<rparr>"
  have run: "tpm_unseal example_adapter env () = (Ok \<lparr>us_seed = replicate 32 3, us_authorization = LocalMeasuredBoot\<rparr>, ())"
    by (rule example_adapter_unseals) (simp_all add: env_def)
  from tpm_releases_in_pinned_state [OF example_conversions example_storage example_enforced run [unfolded example_adapter_def]] run
  show ?thesis by (intro exI [of _ env] exI [of _ "\<lparr>us_seed = replicate 32 3, us_authorization = LocalMeasuredBoot\<rparr>"] exI [of _ "()"]) simp
qed

text \<open>C38. A PCR digest is the digest of one state: if the update counter tells the values of the selected PCRs apart, then
  the digest that enrollment pins is the hash of the 32-byte values that all selected PCRs have at one and the
  same counter, in increasing order of their indices, although they are read one at a time.\<close>

theorem pcr_digest_is_snapshot:
  assumes "pcr_digest T tcti pcr_mask w = (Ok digest, w')" "\<forall>index\<in>set (selected_pcrs pcr_mask). counter_tells T pcr_value index"
  shows "\<exists>counter. digest = ts_sha256 T (concat (map (pcr_value counter) (selected_pcrs pcr_mask)))
    \<and> (\<forall>index\<in>set (selected_pcrs pcr_mask). length (pcr_value counter index) = 32)"
proof -
  obtain c v bs v' where "pcr_loop T c pcr_mask [0..<24] None [] v = (Ok bs, v')" "digest = ts_sha256 T bs"
    using assms(1) by (auto simp: pcr_digest_def result_simps)
  with pcr_loop_snapshot [OF this(1), of pcr_value] assms(2) show ?thesis
    by (auto simp: selected_pcrs_def)
qed

theorem pcr_digest_is_snapshot_witness:
  "\<exists>digest counter. pcr_digest example_tss ''device:/dev/tpmrm0'' 0x81 () = (Ok digest, ())
    \<and> digest = ts_sha256 example_tss (concat (map (example_pcr_value counter) [0, 7]))"
proof -
  have selected: "selected_pcrs 0x81 = [0, 7]" by (simp add: selected_pcrs_def upt_rec)
  have one: "selection example_tss 1 = Ok [1]" "selection example_tss 0x80 = Ok [0x80]"
    by (simp_all add: selection_def validate_mask_def selected_pcrs_def upt_rec example_slots example_run)
  have run: "pcr_digest example_tss ''device:/dev/tpmrm0'' 0x81 () = (Ok (replicate 32 6), ())"
    by (simp add: pcr_digest_def validate_mask_def with_context_def upt_rec one example_run)
  have "\<forall>index\<in>set (selected_pcrs 0x81). counter_tells example_tss example_pcr_value index"
    unfolding selected using one by (auto simp: counter_tells_def example_tss_simps example_pcr_value_def)
  from pcr_digest_is_snapshot [OF run this] show ?thesis using run unfolding selected by blast
qed

end
