(* ===== verification/Engine_Properties.thy ===== *)
theory Engine_Properties
  imports Enrollment_Liveness
begin

text \<open>
  The properties of crates/leelo-engine: what a returned credential rests on, that enrollment and unlock
  belong together, that both succeed when the parties outside do their part, and that unlock always
  returns once its deadline timer fires.
\<close>

section \<open>No phase of unlock panics\<close>

lemma io_steps_return [returns]:
  "io_returns (io_world f) s" "io_returns (io_attempt g) s" "io_returns (io_report h) s"
  "io_returns (io_stage clk stage) s" "io_returns (io_begin clk p) s" "io_returns (runtime M) s"
  "io_returns (check_deadline M deadline) s"
  by (auto simp: io_returns_def io_of_def io_world_def io_attempt_def io_report_def io_stage_def io_begin_def
      runtime_def check_deadline_def io_then_def split: prod.splits option.splits result.splits)

lemma unlock_begin_returns [returns]: "io_returns (unlock_begin M raw signer volume slot tpm deadline) s"
  unfolding unlock_begin_def Let_def by (intro returns)

lemma recovery_returns:
  assumes "valid_descriptor M (eb_descriptor (ae_body env))" "Deadline_Fires \<in> set schedule"
  shows "io_returns (recover_network_observed M net env deadline schedule) s"
proof -
  obtain st where "recovery_start (env_networks env) = Some st" "recovery_good M net env deadline st"
    using recovery_start_good [OF assms(1)] by blast
  then show ?thesis
    using recovery_loop_returns [OF assms(1) _ assms(2)] by (simp add: io_returns_def recover_network_observed_def)
qed

lemma run_network_returns:
  assumes "valid_descriptor M (eb_descriptor (ae_body (uo_envelope uo)))" "Deadline_Fires \<in> set schedule"
  shows "io_returns (run_network M net schedule uo) s"
  unfolding run_network_def Let_def by (intro returns recovery_returns assms)

lemma run_tpm_returns:
  assumes "eb_leaves (ae_body (uo_envelope uo)) \<noteq> []"
  shows "io_returns (run_tpm M tpm uo session gate) s"
proof -
  have "io_returns (io_run (tpm_evidence_authenticate M unsealed (uo_envelope uo))) s" for unsealed s
    using assms
    by (simp add: io_returns_def io_run_def tpm_evidence_authenticate_def Let_def run_then_def split: result.splits)
  then show ?thesis unfolding run_tpm_def by (intro returns)
qed

lemma unlock_run_returns:
  assumes "valid_descriptor M (eb_descriptor (ae_body (uo_envelope uo)))" "Deadline_Fires \<in> set schedule"
    and "eb_leaves (ae_body (uo_envelope uo)) \<noteq> []"
  shows "io_returns (unlock_run M net tpm schedule uo) s"
  unfolding unlock_run_def run_release_def
  by (intro returns run_network_returns [OF assms(1,2)] run_tpm_returns [OF assms(3)])

lemma unlock_before_returns:
  assumes "Deadline_Fires \<in> set schedule"
  shows "io_returns (unlock_before_observed M raw signer volume slot net tpm deadline schedule) s"
  unfolding unlock_before_observed_def
proof (intro io_returns_then unlock_begin_returns)
  fix uo s' assume "unlock_begin M raw signer volume slot tpm deadline s = Some (Ok uo, s')"
  note auth = unlock_begin_Ok(1) [OF this]
  have "eb_leaves (ae_body (uo_envelope uo)) \<noteq> []"
    using authenticated_valid(3) [OF auth] by (auto simp: body_bytes_def result_simps Let_def split: if_splits)
  then show "io_returns (unlock_run M net tpm schedule uo) s'"
    using unlock_run_returns [OF authenticated_valid(1) [OF auth] assms] by blast
qed

lemma io_finish_returns [returns]: "io_returns m s \<Longrightarrow> io_returns (io_finish clk started m) s"
  by (auto simp: io_returns_def io_finish_def split: option.splits prod.splits)

lemma unlock_observed_returns:
  "Deadline_Fires \<in> set schedule \<Longrightarrow> io_returns (unlock_observed M raw signer volume slot net tpm schedule) s"
  unfolding unlock_observed_def by (intro returns unlock_before_returns)

lemma prepare_observed_enrolls:
  assumes "libraries_correct M F" "wf_descriptor d" "prepare_observed M net tpm d signer s = Some (Ok pe, s')"
  shows "\<exists>env seed tpm_share network_share shares.
    authenticate (prims M) (voprf M) (cbor_lib M) (eddsa M) (pe_envelope pe) (signing_public_key (eddsa M) signer) = Ok env
    \<and> enrolled M net tpm d env seed tpm_share network_share shares (pe_credential pe)"
  using prepare_observed_inner [OF assms(3)] prepare_enrolls [OF assms(1,2)] by blast

section \<open>The concrete platform\<close>

abbreviation example_signer :: bytes where "example_signer \<equiv> replicate 32 0"
abbreviation example_start :: "unit op" where "example_start \<equiv> \<lparr>op_world = (), op_report = report_default\<rparr>"

lemma example_prepared:
  "\<exists>pe s'. prepare_observed example_platform example_network example_tpm example_descriptor example_signer example_start
     = Some (Ok pe, s')"
  by (rule prepare_observed_succeeds) (rule prepare_inner_succeeds [OF example_libraries example_cooperative example_able
        example_valid example_honest example_responsive example_tpm_seals])

lemma example_unlocked:
  obtains pe s' res t' where
    "prepare_observed example_platform example_network example_tpm example_descriptor example_signer example_start
      = Some (Ok pe, s')"
    "unlock_observed example_platform (pe_envelope pe) (signing_public_key plain_ed25519 example_signer)
      (d_volume_uuid example_descriptor) (d_slot example_descriptor) example_network example_tpm
      (round_robin 0 (length (d_networks example_descriptor))) example_start = Some (Ok res, t')"
proof -
  obtain pe s' where pe: "prepare_observed example_platform example_network example_tpm example_descriptor
      example_signer example_start = Some (Ok pe, s')"
    using example_prepared by blast
  obtain s1 s2 where "prepare_inner example_platform example_network example_tpm example_descriptor
      example_signer s1 = Some (Ok pe, s2)"
    using prepare_observed_inner [OF pe] by blast
  then obtain env seed tpm_share network_share shares where
    "authenticate plain_primitives plain_voprf rfc8949 plain_ed25519 (pe_envelope pe)
      (signing_public_key plain_ed25519 example_signer) = Ok env"
    and "enrolled example_platform example_network example_tpm example_descriptor env seed tpm_share network_share
      shares (pe_credential pe)"
    using prepare_enrolls [OF example_libraries example_descriptor_wf] by fastforce
  then show ?thesis
    using that [OF pe] enrolled_unlocks [OF example_libraries example_cooperative example_honest example_honest _ _
        example_responsive served_round_robin example_tpm_faithful example_tpm_unseals]
    by fastforce
qed

section \<open>Properties\<close>

text \<open>C1. A credential is returned only for an envelope that authenticates under the trusted signer and names
  the target volume and slot, and only with the full evidence: distinct authenticated leaf shares of a set
  that satisfies the network policy, a TPM share that opened under the unsealed seed (with a fresh session
  authorization in attested mode), and the payload that opened under the root both shares combine to. The last
  clock reading of the operation, after which it only closes its report, is less than the budget after the
  first one. This holds for every schedule of provider answers.\<close>

theorem unlock_requires_every_factor:
  assumes "unlock_observed M raw signer volume slot net tpm schedule s = Some (Ok res, s')"
  shows "\<exists>env recovered unsealed. authenticate (prims M) (voprf M) (cbor_lib M) (eddsa M) raw signer = Ok env
    \<and> d_volume_uuid (eb_descriptor (ae_body env)) = volume \<and> d_slot (eb_descriptor (ae_body env)) = slot
    \<and> unlock_evidence M net tpm (fst (clock M (op_world s)) + OPERATION_BUDGET) env recovered unsealed (ur_credential res)
    \<and> (\<exists>w now w' report. clock M w = (now, w') \<and> now < fst (clock M (op_world s)) + OPERATION_BUDGET
        \<and> op_world s' = snd (finish (clock M) (fst (clock M (op_world s))) None report w'))"
proof -
  obtain env recovered unsealed started now w w' report where
    "authenticate (prims M) (voprf M) (cbor_lib M) (eddsa M) raw signer = Ok env"
    "d_volume_uuid (eb_descriptor (ae_body env)) = volume" "d_slot (eb_descriptor (ae_body env)) = slot"
    "unlock_evidence M net tpm (started + OPERATION_BUDGET) env recovered unsealed (ur_credential res)"
    "started = fst (clock M (op_world s))" "clock M w = (now, w')" "now < started + OPERATION_BUDGET"
    "op_world s' = snd (finish (clock M) started None report w')"
    using unlock_observed_Ok [OF assms] .
  then show ?thesis by blast
qed

theorem unlock_requires_every_factor_witness:
  "\<exists>raw env recovered unsealed credential.
    authenticate plain_primitives plain_voprf rfc8949 plain_ed25519 raw (signing_public_key plain_ed25519 example_signer) = Ok env
    \<and> d_volume_uuid (eb_descriptor (ae_body env)) = d_volume_uuid example_descriptor
    \<and> unlock_evidence example_platform example_network example_tpm (7 + OPERATION_BUDGET) env recovered unsealed credential"
proof -
  obtain pe s' res t' where
    "prepare_observed example_platform example_network example_tpm example_descriptor example_signer example_start
      = Some (Ok pe, s')" and
    "unlock_observed example_platform (pe_envelope pe) (signing_public_key plain_ed25519 example_signer)
      (d_volume_uuid example_descriptor) (d_slot example_descriptor) example_network example_tpm
      (round_robin 0 (length (d_networks example_descriptor))) example_start = Some (Ok res, t')"
    by (rule example_unlocked)
  from unlock_requires_every_factor [OF this(2)] show ?thesis
    unfolding example_platform_simps fst_conv by blast
qed

text \<open>C2. The credential an unlock returns is the credential enrollment returned with the envelope, whichever
  leaves answered in whichever order, and whatever the entropy, if the libraries keep their contracts, the
  providers evaluate with the enrolled keys and the TPM unseals what it sealed.\<close>

theorem unlock_returns_enrolled_credential:
  assumes "libraries_correct M F" "wf_descriptor d"
    and "honest_network M net srv (d_networks d)" "honest_network M net' srv (d_networks d)" "tpm_faithful tpm tpm'"
    and "prepare_observed M net tpm d signer s = Some (Ok pe, s')"
    and "unlock_observed M (pe_envelope pe) (signing_public_key (eddsa M) signer) volume slot net' tpm' schedule t
      = Some (Ok res, t')"
  shows "ur_credential res = pe_credential pe"
proof -
  obtain env seed tpm_share network_share shares where auth:
    "authenticate (prims M) (voprf M) (cbor_lib M) (eddsa M) (pe_envelope pe) (signing_public_key (eddsa M) signer) = Ok env"
    and enrolled: "enrolled M net tpm d env seed tpm_share network_share shares (pe_credential pe)"
    using prepare_observed_enrolls [OF assms(1,2,6)] by blast
  obtain recovered unsealed deadline where
    "unlock_evidence M net' tpm' deadline env recovered unsealed (ur_credential res)"
    using unlock_observed_Ok [OF assms(7)] auth by (metis result.inject(1))
  then show ?thesis by (rule enrolled_credential [OF assms(1,3,4,5) enrolled])
qed

theorem unlock_returns_enrolled_credential_witness:
  "\<exists>pe s' res t'.
    prepare_observed example_platform example_network example_tpm example_descriptor example_signer example_start
      = Some (Ok pe, s')
    \<and> unlock_observed example_platform (pe_envelope pe) (signing_public_key plain_ed25519 example_signer)
      (d_volume_uuid example_descriptor) (d_slot example_descriptor) example_network example_tpm
      (round_robin 0 (length (d_networks example_descriptor))) example_start = Some (Ok res, t')
    \<and> ur_credential res = pe_credential pe"
proof -
  obtain pe s' res t' where *:
    "prepare_observed example_platform example_network example_tpm example_descriptor example_signer example_start
      = Some (Ok pe, s')"
    "unlock_observed example_platform (pe_envelope pe) (signing_public_key plain_ed25519 example_signer)
      (d_volume_uuid example_descriptor) (d_slot example_descriptor) example_network example_tpm
      (round_robin 0 (length (d_networks example_descriptor))) example_start = Some (Ok res, t')"
    by (rule example_unlocked)
  then have "ur_credential res = pe_credential pe"
    by (intro unlock_returns_enrolled_credential [OF example_libraries example_descriptor_wf example_honest
          example_honest example_tpm_faithful]) simp_all
  with * show ?thesis by blast
qed

text \<open>C3. An enrolled volume unlocks: if every provider answers what it is asked before the deadline, the TPM unseals
  the enrolled envelope and the clock stays within the budget, the unlock of the envelope that enrollment
  returned succeeds with the enrolled credential. This holds for every schedule that polls and then answers
  the leaves in order before the timer fires, with any other polls and answers in between.\<close>

theorem enrolled_volume_unlocks:
  assumes "libraries_correct M F" "cooperative M t0" "wf_descriptor d"
    and "honest_network M net srv (d_networks d)" "honest_network M net' srv (d_networks d)"
    and "responsive M net' (d_networks d)" "served (length (d_networks d)) schedule" "tpm_faithful tpm tpm'"
    and "prepare_observed M net tpm d signer s = Some (Ok pe, s')"
    and "\<forall>env. authenticate (prims M) (voprf M) (cbor_lib M) (eddsa M) (pe_envelope pe) (signing_public_key (eddsa M) signer) = Ok env
      \<longrightarrow> tpm_unseals tpm' env"
  shows "\<exists>res t'. unlock_observed M (pe_envelope pe) (signing_public_key (eddsa M) signer) (d_volume_uuid d) (d_slot d)
      net' tpm' schedule t = Some (Ok res, t')
    \<and> ur_credential res = pe_credential pe"
proof -
  obtain env seed tpm_share network_share shares where auth:
    "authenticate (prims M) (voprf M) (cbor_lib M) (eddsa M) (pe_envelope pe) (signing_public_key (eddsa M) signer) = Ok env"
    and enrolled: "enrolled M net tpm d env seed tpm_share network_share shares (pe_credential pe)"
    using prepare_observed_enrolls [OF assms(1,3,9)] by blast
  have "tpm_unseals tpm' env" using assms(10) auth by blast
  then obtain res t' where res: "unlock_observed M (pe_envelope pe) (signing_public_key (eddsa M) signer)
      (d_volume_uuid d) (d_slot d) net' tpm' schedule t = Some (Ok res, t')"
    using enrolled_unlocks [OF assms(1,2,4,5) auth enrolled assms(6-8)] by blast
  obtain recovered unsealed deadline where
    "unlock_evidence M net' tpm' deadline env recovered unsealed (ur_credential res)"
    using unlock_observed_Ok [OF res] auth by (metis result.inject(1))
  then show ?thesis using res enrolled_credential [OF assms(1,4,5,8) enrolled] by blast
qed

theorem enrolled_volume_unlocks_witness:
  "\<exists>(pe :: prepared_enrollment) res t'. unlock_observed example_platform (pe_envelope pe) (signing_public_key plain_ed25519 example_signer)
      (d_volume_uuid example_descriptor) (d_slot example_descriptor) example_network example_tpm
      [Answer 0, Poll 0, Poll 3, Answer 0, Deadline_Fires] example_start = Some (Ok res, t')
    \<and> ur_credential res = pe_credential pe"
proof -
  obtain pe s' where pe: "prepare_observed example_platform example_network example_tpm example_descriptor
      example_signer example_start = Some (Ok pe, s')"
    using example_prepared by blast
  have "served (length (d_networks example_descriptor)) [Answer 0, Poll 0, Poll 3, Answer 0, Deadline_Fires]"
    by (simp add: example_descriptor_def served_def round_robin_def)
  from enrolled_volume_unlocks [OF example_libraries example_cooperative example_descriptor_wf example_honest
        example_honest example_responsive this example_tpm_faithful pe, of example_start] example_tpm_unseals
  show ?thesis unfolding example_platform_simps by blast
qed

text \<open>C4. Enrollment succeeds for every valid descriptor when the providers answer with the pinned keys, the TPM
  seals within its size bounds and the generator, the timer and the libraries do not fail. No internal
  check refuses: not the self-test of the shares, not the size limit of the envelope.\<close>

theorem enrollment_succeeds:
  assumes "libraries_correct M F" "cooperative M t0" "able_to_enroll M F" "valid_descriptor M d"
    and "honest_network M net srv (d_networks d)" "responsive M net (d_networks d)" "tpm_seals tpm d"
  shows "\<exists>pe s'. prepare_observed M net tpm d signer s = Some (Ok pe, s')"
  by (rule prepare_observed_succeeds) (rule prepare_inner_succeeds [OF assms])

theorem enrollment_succeeds_witness:
  "\<exists>pe s'. prepare_observed example_platform example_network example_tpm example_descriptor example_signer example_start
     = Some (Ok pe, s')"
  by (rule enrollment_succeeds [OF example_libraries example_cooperative example_able example_valid example_honest
        example_responsive example_tpm_seals])

text \<open>C14. Unlock terminates: whatever the envelope holds and whatever the providers and the TPM answer, an
  operation whose deadline timer fires at some point of the schedule returns a result, and no step of it
  panics. Each single call of a provider or of the TPM is taken to return: the timer ends the wait for
  providers, but neither it nor this statement covers a TPM driver call that blocks.\<close>

theorem unlock_returns_by_deadline:
  assumes "Deadline_Fires \<in> set schedule"
  shows "\<exists>r s'. unlock_observed M raw signer volume slot net tpm schedule s = Some (r, s')"
  using unlock_observed_returns [OF assms, of M raw signer volume slot net tpm s] by (auto simp: io_returns_def)

theorem unlock_returns_by_deadline_witness:
  "\<exists>pe s' r t' failures.
    prepare_observed example_platform example_network example_tpm example_descriptor example_signer example_start
      = Some (Ok pe, s')
    \<and> unlock_observed example_platform (pe_envelope pe) (signing_public_key plain_ed25519 example_signer)
      (d_volume_uuid example_descriptor) (d_slot example_descriptor) example_network example_tpm
      [Poll 0, Deadline_Fires] example_start = Some (r, t')
    \<and> r = Err (DeadlineExceeded failures)"
proof -
  obtain pe s' where pe: "prepare_observed example_platform example_network example_tpm example_descriptor
      example_signer example_start = Some (Ok pe, s')"
    using example_prepared by blast
  obtain env where auth: "authenticate plain_primitives plain_voprf rfc8949 plain_ed25519 (pe_envelope pe)
      (signing_public_key plain_ed25519 example_signer) = Ok env" and d: "eb_descriptor (ae_body env) = example_descriptor"
    using prepare_observed_enrolls [OF example_libraries example_descriptor_wf pe] by (auto simp: enrolled_def)
  have mode: "supports_mode example_tpm (policy_mode (d_policy example_descriptor))" by (simp add: example_tpm_def)
  let ?unlock = "unlock_observed example_platform (pe_envelope pe) (signing_public_key plain_ed25519 example_signer)
      (d_volume_uuid example_descriptor) (d_slot example_descriptor) example_network example_tpm
      [Poll 0, Deadline_Fires] example_start"
  have "Deadline_Fires \<in> set [Poll 0, Deadline_Fires]" by simp
  from unlock_returns_by_deadline [OF this] obtain r t' where "?unlock = Some (r, t')" by blast
  moreover have "\<exists>failures t'. ?unlock = Some (Err (DeadlineExceeded failures), t')"
    by (rule timer_ends_unlock [OF example_cooperative _ d mode]) (simp add: auth)
  ultimately show ?thesis using pe by auto
qed



text \<open>C29. What enrollment returns is well typed: a credential of 32 bytes and an envelope that authenticates
  under the signer's public key to a well-formed body of the given descriptor, with exactly one wrapped leaf
  per factor in the order of the descriptor.\<close>

theorem prepared_enrollment_well_typed:
  assumes "libraries_correct M F" "wf_descriptor d" "prepare_observed M net tpm d signer s = Some (Ok pe, s')"
  shows "length (pe_credential pe) = 32 \<and> (\<exists>env.
    authenticate (prims M) (voprf M) (cbor_lib M) (eddsa M) (pe_envelope pe) (signing_public_key (eddsa M) signer) = Ok env
    \<and> wf_body (ae_body env) \<and> eb_descriptor (ae_body env) = d \<and> tpm_in_bounds (eb_tpm (ae_body env))
    \<and> map wl_node_id (eb_leaves (ae_body env)) = policy_tpm_node_id (d_policy d) # map nb_node_id (d_networks d))"
proof -
  obtain s1 s2 where prep: "prepare_inner M net tpm d signer s1 = Some (Ok pe, s2)"
    using prepare_observed_inner [OF assms(3)] by blast
  then obtain env seed tpm_share network_share shares where auth:
    "authenticate (prims M) (voprf M) (cbor_lib M) (eddsa M) (pe_envelope pe) (signing_public_key (eddsa M) signer) = Ok env"
    and "eb_descriptor (ae_body env) = d"
    using prepare_enrolls [OF assms(1,2)] by (fastforce simp: enrolled_def)
  moreover have "wf_body (ae_body env)" using auth by (rule authenticate_Ok)
  moreover have "tpm_in_bounds (eb_tpm (ae_body env))
      \<and> map wl_node_id (eb_leaves (ae_body env)) = policy_tpm_node_id (d_policy (eb_descriptor (ae_body env)))
          # map nb_node_id (d_networks (eb_descriptor (ae_body env)))"
    using authenticated_valid(3) [OF auth] by (auto simp: body_bytes_def result_simps Let_def split: if_splits)
  moreover have "length (pe_credential pe) = 32"
    using prepare_inner_Ok [OF prep] fresh_secret_Ok [of M] assms(1) by (auto simp: libraries_correct_def)
  ultimately show ?thesis by auto
qed

theorem prepared_enrollment_well_typed_witness:
  "\<exists>pe s'. prepare_observed example_platform example_network example_tpm example_descriptor example_signer example_start
     = Some (Ok pe, s') \<and> length (pe_credential pe) = 32"
  using example_prepared prepared_enrollment_well_typed [OF example_libraries example_descriptor_wf] by blast

end
