(* ===== verification/System.thy ===== *)
theory System
  imports Deployment Tpm_Adapter Engine_Properties
begin

text \<open>
  The whole path of a credential: the engine over the HTTPS provider, the leelod deployment behind it and the TPM
  adapter, at enrollment and at unlock. The contracts that the engine states for its two providers are discharged by
  the models of leelo-net, leelod and leelo-tpm, so what remains to be assumed is the behaviour of the cryptographic
  libraries, of the transports between the processes and of the TPM itself.
\<close>

section \<open>The providers of this repository\<close>

abbreviation tpm2 :: "('p, 'f, 'srv, 'cli, 'st, 'k, 'w) platform \<Rightarrow> ('c, 'h, 's, 'sel, 'slot, 'q, 'e, 'w) tss \<Rightarrow> string \<Rightarrow> 'w tpm_provider" where
  "tpm2 M T tcti \<equiv> tpm2_provider (prims M) (voprf M) (cbor_lib M) T tcti"

abbreviation https :: "('p, 'f, 'srv, 'cli, 'st, 'k, 'w) platform \<Rightarrow> ('u, 'cert, 'c, 'w) http_lib
      \<Rightarrow> (bytes \<rightharpoonup> ('u, 'c) configured_endpoint) \<Rightarrow> 'w network_provider" where
  "https M L endpoints \<equiv> https_network (prims M) (clock M) L endpoints"

section \<open>The concrete system\<close>

lemma example_adapter_in_bounds: "tpm_seals example_adapter example_descriptor"
  unfolding tpm_seals_def
proof (intro conjI allI impI)
  show "supports_mode example_adapter (policy_mode (d_policy example_descriptor))"
    by (simp add: example_adapter_def tpm2_provider_def example_descriptor_def admitted_def)
qed (simp add: example_adapter_seals tpm_in_bounds_def example_name_def)

lemma example_system_enrolls:
  "\<exists>pe s'. prepare_observed example_platform example_https example_adapter example_descriptor example_signer example_start
     = Some (Ok pe, s')"
proof -
  have "honest_network example_platform example_https (\<lambda>_. ()) (d_networks example_descriptor)"
    using deployed_honest [OF _ example_deployed] plain_correct(3) by simp
  then show ?thesis
    by (intro prepare_observed_succeeds prepare_inner_succeeds [OF example_libraries example_cooperative example_able example_valid _
          example_https_responsive example_adapter_in_bounds]) simp_all
qed

lemma example_enrolled_unseals:
  assumes "enrolled example_platform net example_adapter example_descriptor env seed tpm_share network_share shares credential"
  shows "tpm_unseals example_adapter env"
proof -
  have env: "eb_descriptor (ae_body env) = example_descriptor"
    and "\<exists>w w'. tpm_seal example_adapter example_descriptor seed w = (Ok (eb_tpm (ae_body env)), w')"
    using assms unfolding enrolled_def by blast+
  then have "length seed = 32" and blob: "eb_tpm (ae_body env) =
      \<lparr>tpm_public = [1], tpm_private = 0 # seed, tpm_name = example_name, tpm_parent_name = example_name\<rparr>"
    by (auto simp: example_adapter_seals split: if_splits)
  with example_adapter_unseals [OF env _ blob] show ?thesis
    using env by (simp add: tpm_unseals_def example_adapter_def tpm2_provider_def example_descriptor_def admitted_def)
qed

lemma example_system_unlocks:
  assumes "prepare_observed example_platform example_https example_adapter example_descriptor example_signer example_start
     = Some (Ok pe, s')"
    and "\<forall>b\<in>set (d_networks example_descriptor). endpoints (nb_provider_id b) \<noteq> None"
  shows "\<exists>res t'. unlock_observed example_platform (pe_envelope pe) (signing_public_key plain_ed25519 example_signer)
      (d_volume_uuid example_descriptor) (d_slot example_descriptor)
      (https_network plain_primitives (clock example_platform) example_http endpoints) example_adapter
      (round_robin 0 (length (d_networks example_descriptor))) start = Some (Ok res, t')"
proof -
  have honest: "honest_network example_platform (https_network plain_primitives (clock example_platform) example_http ends) (\<lambda>_. ())
      (d_networks example_descriptor)" for ends
    using deployed_honest [OF _ example_deployed, of _ ends] plain_correct(3) by simp
  have faithful: "tpm_faithful example_adapter example_adapter"
    unfolding example_adapter_def by (rule adapter_faithful [OF example_conversions example_storage])
  obtain env seed tpm_share network_share shares where
    auth: "authenticate plain_primitives plain_voprf rfc8949 plain_ed25519 (pe_envelope pe)
      (signing_public_key plain_ed25519 example_signer) = Ok env"
    and enrolled: "enrolled example_platform example_https example_adapter example_descriptor env seed tpm_share network_share
      shares (pe_credential pe)"
    using prepare_observed_enrolls [OF example_libraries example_descriptor_wf assms(1)] by fastforce
  show ?thesis
    using enrolled_unlocks [OF example_libraries example_cooperative honest honest _ enrolled example_https_responsive [OF assms(2)]
        served_round_robin faithful example_enrolled_unseals [OF enrolled]] auth by simp
qed

section \<open>Properties\<close>

text \<open>C5. The deployed system returns the enrolled credential: with enrollment and unlock over the HTTPS provider of this
  repository, leelod deployments with the pinned keys behind every endpoint and the TPM adapter of this repository,
  a credential that an unlock returns for the enrolled envelope is the enrolled one, and the TPM released its seed
  while the selected PCRs had the pinned values. Only the libraries, the transports and the TPM are assumed.\<close>

theorem deployed_system_returns_enrolled_credential:
  assumes libs: "libraries_correct M G" and wf: "wf_descriptor d"
    and deployed: "leelod_deployed M srv (d_networks d) L endpoints F socket W written"
      "leelod_deployed M srv (d_networks d) L' endpoints' F' socket' W' written'"
    and tpm: "tss_conversions T" "tpm_storage T sealed holds" "policy_enforced T holds policy_of pcrs"
    and enrollment: "prepare_observed M (https M L endpoints) (tpm2 M T tcti) d signer s = Some (Ok pe, s')"
    and unlock: "unlock_observed M (pe_envelope pe) (signing_public_key (eddsa M) signer) volume slot
      (https M L' endpoints') (tpm2 M T tcti') schedule t = Some (Ok res, t')"
  shows "ur_credential res = pe_credential pe
    \<and> (\<exists>sel c session object v seed v'. selection T (d_tpm_pcr_mask d) = Ok sel
      \<and> ts_unseal T c session object v = (Ok seed, v') \<and> pcrs v sel = d_tpm_pcr_digest d)"
proof -
  have voprf: "voprf_correct (voprf M) G" using libs by (simp add: libraries_correct_def)
  note honest = deployed_honest [OF voprf deployed(1)] deployed_honest [OF voprf deployed(2)]
  have faithful: "tpm_faithful (tpm2 M T tcti) (tpm2 M T tcti')" by (rule adapter_faithful [OF tpm(1,2)])
  obtain env seed tpm_share network_share shares where auth:
    "authenticate (prims M) (voprf M) (cbor_lib M) (eddsa M) (pe_envelope pe) (signing_public_key (eddsa M) signer) = Ok env"
    and enrolled: "enrolled M (https M L endpoints) (tpm2 M T tcti) d env seed tpm_share network_share shares (pe_credential pe)"
    using prepare_observed_enrolls [OF libs wf enrollment] by blast
  obtain recovered unsealed deadline where
    evidence: "unlock_evidence M (https M L' endpoints') (tpm2 M T tcti') deadline env recovered unsealed (ur_credential res)"
    using unlock_observed_Ok [OF unlock] auth by (metis result.inject(1))
  obtain w w' where unsealed: "tpm_unseal (tpm2 M T tcti') env w = (Ok unsealed, w')"
    using evidence unfolding unlock_evidence_def by blast
  have "eb_descriptor (ae_body env) = d" using enrolled by (simp add: enrolled_def)
  with adapter_release [OF tpm unsealed] enrolled_credential [OF libs honest faithful enrolled evidence]
  show ?thesis by metis
qed

theorem deployed_system_returns_enrolled_credential_witness:
  "\<exists>pe s' res t'.
    prepare_observed example_platform example_https example_adapter example_descriptor example_signer example_start = Some (Ok pe, s')
    \<and> unlock_observed example_platform (pe_envelope pe) (signing_public_key plain_ed25519 example_signer)
      (d_volume_uuid example_descriptor) (d_slot example_descriptor) example_https example_adapter
      (round_robin 0 (length (d_networks example_descriptor))) example_start = Some (Ok res, t')
    \<and> ur_credential res = pe_credential pe"
proof -
  obtain pe s' where enrollment: "prepare_observed example_platform example_https example_adapter example_descriptor example_signer
      example_start = Some (Ok pe, s')" using example_system_enrolls by blast
  obtain res t' where unlock: "unlock_observed example_platform (pe_envelope pe) (signing_public_key plain_ed25519 example_signer)
      (d_volume_uuid example_descriptor) (d_slot example_descriptor) example_https example_adapter
      (round_robin 0 (length (d_networks example_descriptor))) example_start = Some (Ok res, t')"
    using example_system_unlocks [OF enrollment, of example_endpoints example_start] by auto
  have "ur_credential res = pe_credential pe"
    using deployed_system_returns_enrolled_credential [OF example_libraries example_descriptor_wf example_deployed example_deployed
        example_conversions example_storage example_enforced] enrollment unlock
    unfolding example_adapter_def example_platform_simps by metis
  with enrollment unlock show ?thesis by blast
qed

end
