(* ===== verification/Cli_Commands.thy ===== *)
theory Cli_Commands
  imports Cli_Journal System
begin

text \<open>
  The commands of the tool, from crates/leelo-cli/src: reading files (main.rs), the provider configuration (providers.rs),
  enrollment and resume (enrollment.rs), unlock and the dispatch (linux.rs). A command composes the models of the other
  crates: the TPM adapter, the HTTPS provider, the engine, the storage adapter and the journal. The platform, the HTTP
  client, TPM2-TSS, libcryptsetup, the file operations and the printer are the parameters of those models; \<open>cli_files\<close> adds
  the opening of input files and the parser of the configuration. What a command prints on its terminal is left out.
\<close>

section \<open>Parameters and state\<close>

record provider_config =
  pc_provider_id :: string
  pc_key_id :: string
  pc_public_key :: string
  pc_url :: string
  pc_ca_file :: string

text \<open>An opened secret file: its kind and mode bits, if they can be read, and its first bytes.\<close>

record secret_file =
  sf_metadata :: "(bool \<times> u32) option"
  sf_take :: "nat \<Rightarrow> bytes option"

record 'w cli_files =
  cf_take :: "string \<Rightarrow> nat \<Rightarrow> 'w \<Rightarrow> bytes option \<times> 'w"
  cf_open_secret :: "string \<Rightarrow> 'w \<Rightarrow> secret_file option \<times> 'w"
  cf_config :: "bytes \<Rightarrow> provider_config list option"
  cf_hex_decode :: "string \<Rightarrow> bytes option"

datatype command =
    Enroll (cmd_device: string) (cmd_config: string) (cmd_existing_key_file: string) (cmd_signing_key: string) (cmd_journal: string)
      (cmd_tcti: string) (cmd_pcr_mask: u32) (cmd_threshold: u8)
  | ResumeEnrollment (cmd_device: string) (cmd_config: string) (cmd_trust_key: string) (cmd_pending_bundle: string) (cmd_tcti: string)
  | UnlockVolume (cmd_device: string) (cmd_config: string) (cmd_trust_key: string) (cmd_token: u8) (cmd_tcti: string)
      (cmd_mapping: "string option")
  | PcrDigest (cmd_tcti: string) (cmd_pcr_mask: u32)

type_synonym ('cd, 'file, 'w) command_state = "(('cd, 'file) luks2 option, 'w) cli"

abbreviation message :: "string \<Rightarrow> cli_error" where
  "message text \<equiv> Cli_Other text None"

text \<open>Calls of the components: a step on the world, the engine with its report, and the opened volume.\<close>

definition cli_call :: "('e \<Rightarrow> cli_error) \<Rightarrow> ('w \<Rightarrow> ('a, 'e) result \<times> 'w) \<Rightarrow> (('l, 'w) cli, 'a, cli_error) io" where
  "cli_call g f s = (case f (cl_world s) of (r, w) \<Rightarrow> Some (map_err g r, s\<lparr>cl_world := w\<rparr>))"

definition cli_engine :: "operation_report \<Rightarrow> ('w op, 'a, engine_error) io
      \<Rightarrow> (('l, 'w) cli, ('a, engine_error) result \<times> operation_report, cli_error) io" where
  "cli_engine report m s =
     (case m \<lparr>op_world = cl_world s, op_report = report\<rparr> of
        None \<Rightarrow> None
      | Some (r, t) \<Rightarrow> Some (Ok (r, op_report t), s\<lparr>cl_world := op_world t\<rparr>))"

definition on_luks :: "(('cd, 'file, 'w) luks_state, 'a, 'e) io \<Rightarrow> (('cd, 'file, 'w) command_state, 'a, 'e) io" where
  "on_luks m s =
     (case cl_luks s of
        None \<Rightarrow> None
      | Some dev \<Rightarrow>
          (case m \<lparr>ls_dev = dev, ls_world = cl_world s\<rparr> of
             None \<Rightarrow> None
           | Some (r, t) \<Rightarrow> Some (r, s\<lparr>cl_luks := Some (ls_dev t), cl_world := ls_world t\<rparr>)))"

definition open_luks :: "('cd, 'file, 'v, 'w) luks_lib \<Rightarrow> string \<Rightarrow> bool \<Rightarrow> (('cd, 'file, 'w) command_state, ('cd, 'file) luks2, cli_error) io" where
  "open_luks D device writable s =
     (case open_device D device writable (cl_world s) of
        None \<Rightarrow> None
      | Some (Ok dev, w) \<Rightarrow> Some (Ok dev, s\<lparr>cl_luks := Some dev, cl_world := w\<rparr>)
      | Some (Err e, w) \<Rightarrow> Some (Err (Cli_Luks e), s\<lparr>cl_world := w\<rparr>))"

text \<open>The volume is closed when the command leaves.\<close>

definition closing_luks :: "('cd, 'file, 'v, 'w) luks_lib \<Rightarrow> (('cd, 'file, 'w) command_state, 'a, 'e) io
      \<Rightarrow> (('cd, 'file, 'w) command_state, 'a, 'e) io" where
  "closing_luks D m s =
     (case m s of
        None \<Rightarrow> None
      | Some (r, s') \<Rightarrow>
          Some (r, case cl_luks s' of None \<Rightarrow> s'
                   | Some dev \<Rightarrow> s'\<lparr>cl_luks := None, cl_world := crypt_free D (dev_cd dev) (cl_world s')\<rparr>))"

section \<open>Files\<close>

definition cli_read_bounded :: "'w cli_files \<Rightarrow> string \<Rightarrow> nat \<Rightarrow> (('l, 'w) cli, bytes, cli_error) io" where
  "cli_read_bounded X path n =
     io_then (cli_call (\<lambda>_. Cli_Io) (\<lambda>w. case cf_take X path (n + 1) w of (r, w') \<Rightarrow> (ok_or () r, w'))) (\<lambda>bs.
       io_of (if length bs > n then Err (message ''input exceeds permitted size'') else Ok bs))"

definition read_array :: "'w cli_files \<Rightarrow> nat \<Rightarrow> string \<Rightarrow> (('l, 'w) cli, bytes, cli_error) io" where
  "read_array X n path =
     io_then (cli_read_bounded X path n) (\<lambda>bs.
       io_of (if length bs \<noteq> n then Err (message ''key file has incorrect length'') else Ok bs))"

definition read_secret :: "'w cli_files \<Rightarrow> string \<Rightarrow> nat \<Rightarrow> (('l, 'w) cli, bytes, cli_error) io" where
  "read_secret X path n =
     io_then (cli_call (\<lambda>_. Cli_Io) (\<lambda>w. case cf_open_secret X path w of (r, w') \<Rightarrow> (ok_or () r, w'))) (\<lambda>file.
     io_then (io_of (ok_or Cli_Io (sf_metadata file))) (\<lambda>(is_file, mode).
     if \<not> is_file \<or> mode AND 0x3f \<noteq> 0
     then io_of (Err (message ''secret file must be a regular file with mode 0600 or stricter''))
     else
       io_then (io_of (ok_or Cli_Io (sf_take file (n + 1)))) (\<lambda>bs.
       io_of (if bs = [] \<or> length bs > n then Err (message ''secret file has invalid size'') else Ok bs))))"

section \<open>Providers\<close>

record provider_identity =
  pi_provider_id :: bytes
  pi_key_id :: bytes
  pi_public_key :: bytes

record ('u, 'c) cli_providers =
  pv_network :: "bytes \<rightharpoonup> ('u, 'c) configured_endpoint"
  pv_identities :: "provider_identity list"

definition unhex :: "'w cli_files \<Rightarrow> nat \<Rightarrow> string \<Rightarrow> (bytes, cli_error) result" where
  "unhex X n text =
     and_then (ok_or (message ''hex'') (cf_hex_decode X text)) (\<lambda>bs.
       if length bs \<noteq> n then Err (message ''wrong hex field length'') else Ok bs)"

definition ca_path :: "string \<Rightarrow> string \<Rightarrow> string" where
  "ca_path path file =
     (if file \<noteq> [] \<and> hd file = CHR ''/'' then file
      else join_path (case parent_path path of None \<Rightarrow> ''.'' | Some dir \<Rightarrow> dir) file)"

primrec read_providers :: "primitives \<Rightarrow> 'w cli_files \<Rightarrow> string \<Rightarrow> provider_config list
      \<Rightarrow> (('l, 'w) cli, (provider_identity \<times> endpoint) list, cli_error) io" where
  "read_providers C X path [] = io_of (Ok [])"
| "read_providers C X path (p # rest) =
     io_then (io_of (unhex X 32 (pc_provider_id p))) (\<lambda>provider_id.
     io_then (io_of (unhex X 49 (pc_public_key p))) (\<lambda>public_key.
     io_then (io_of (unhex X 32 (pc_key_id p))) (\<lambda>kid.
     if key_id C public_key \<noteq> kid then io_of (Err (message ''provider key ID does not match public key''))
     else
       io_then (cli_read_bounded X (ca_path path (pc_ca_file p)) (64 * 1024)) (\<lambda>ca.
       io_then (read_providers C X path rest) (\<lambda>others.
       io_of (Ok ((\<lparr>pi_provider_id = provider_id, pi_key_id = kid, pi_public_key = public_key\<rparr>,
         \<lparr>ep_provider_id = provider_id, ep_url = pc_url p, ep_ca_pem = ca\<rparr>) # others)))))))"

definition providers_read :: "primitives \<Rightarrow> ('u, 'cert, 'c, 'w) http_lib \<Rightarrow> 'w cli_files \<Rightarrow> string
      \<Rightarrow> (('l, 'w) cli, ('u, 'c) cli_providers, cli_error) io" where
  "providers_read C L X path =
     io_then (cli_read_bounded X path (32 * 1024)) (\<lambda>bs.
     io_then (io_of (ok_or (message ''json'') (cf_config X bs))) (\<lambda>config.
     if config = [] \<or> length config > 27 then io_of (Err (message ''configure 1..27 independent network providers''))
     else
       io_then (read_providers C X path config) (\<lambda>read.
       io_then (io_of (map_err (\<lambda>_. message ''network'') (https_new L (map snd read)))) (\<lambda>network.
       io_of (Ok \<lparr>pv_network = network, pv_identities = map fst read\<rparr>)))))"

text \<open>\<open>enrollment_bindings\<close>: the leaves are numbered from two on, each with a fresh input seed.\<close>

primrec bindings_from :: "'w rng \<Rightarrow> nat \<Rightarrow> provider_identity list \<Rightarrow> (('l, 'w) cli, network_binding list, cli_error) io" where
  "bindings_from fill index [] = io_of (Ok [])"
| "bindings_from fill index (i # rest) =
     io_then (cli_call (\<lambda>_. message ''crypto'') (random_bytes fill 32)) (\<lambda>seed.
     io_then (bindings_from fill (index + 1) rest) (\<lambda>others.
     io_of (Ok (\<lparr>nb_node_id = word_of_nat (index + 2), nb_provider_id = pi_provider_id i, nb_key_id = pi_key_id i,
       nb_public_key = pi_public_key i, nb_input_seed = seed\<rparr> # others))))"

section \<open>Enrollment\<close>

definition enrollment_policy :: "network_binding list \<Rightarrow> u8 \<Rightarrow> (production_policy, policy_error) result" where
  "enrollment_policy networks threshold =
     production_policy_new NetworkBound 0 (Network_Threshold 1 threshold
       (map (\<lambda>network. Network_Leaf (nb_node_id network) (nb_provider_id network)) networks))"

text \<open>The engine's two operations as the commands call them: the report goes to the observed operation before an error does.\<close>

definition observed_engine :: "operation_report \<Rightarrow> ('w op, 'a, engine_error) io
      \<Rightarrow> (('l, 'w) cli, 'a \<times> operation_report, cli_error) io" where
  "observed_engine report m =
     io_then (cli_engine report m) (\<lambda>(r, report').
     io_then (observing (observe_engine report')) (\<lambda>_.
     io_of (map_ok (\<lambda>x. (x, report')) (map_err Cli_Engine r))))"

definition volume_uuid :: "(('cd, 'file, 'w) luks_state, bytes, luks_error) io" where
  "volume_uuid s = Some (Ok (luks_uuid (ls_dev s)), s)"

text \<open>The descriptor, from the selected PCRs to the first free slot.\<close>

definition enroll_descriptor where
  "enroll_descriptor M T D tcti pcr_mask threshold networks =
     io_then (cli_call Cli_Engine (pcr_digest T tcti pcr_mask)) (\<lambda>digest.
     io_then (io_of (map_err (\<lambda>_. message ''policy'') (enrollment_policy networks threshold))) (\<lambda>policy.
     io_then (cli_call (\<lambda>_. message ''crypto'') (random_bytes (os_rng M) 32)) (\<lambda>binding_id.
     io_then (io_map_err Cli_Luks (on_luks volume_uuid)) (\<lambda>uuid.
     io_then (io_map_err Cli_Luks (on_luks (first_free_slot D))) (\<lambda>slot.
     io_of (Ok \<lparr>d_binding_id = binding_id, d_volume_uuid = uuid, d_slot = slot, d_generation = 1, d_policy = policy,
       d_networks = networks, d_tpm_pcr_mask = pcr_mask, d_tpm_pcr_digest = digest\<rparr>))))))"

text \<open>Preparing the envelope and testing it with the actual providers, before any slot changes.\<close>

definition enroll_prepare where
  "enroll_prepare M net tpm d signer schedule =
     io_then (observe_stage (clock M) ''prepare'') (\<lambda>_.
     io_then (observed_engine report_default (prepare_observed M net tpm d signer)) (\<lambda>(prepared, report).
     io_then (observe_stage (clock M) ''recovery_test'') (\<lambda>_.
     io_then (observed_engine report (unlock_observed M (pe_envelope prepared) (signing_public_key (eddsa M) signer)
       (d_volume_uuid d) (d_slot d) net tpm schedule)) (\<lambda>(recovered, _).
     io_of (if ur_credential recovered \<noteq> pe_credential prepared then Err (message ''enrollment round-trip mismatch'')
            else Ok prepared)))))"

definition enroll where
  "enroll M L T D P J X schedule device config existing_key_file signing_key journal_path tcti pcr_mask threshold =
     io_then (providers_read (prims M) L X config) (\<lambda>providers.
     io_then (observing (configure_providers (map pi_provider_id (pv_identities providers)))) (\<lambda>_.
     io_then (bindings_from (os_rng M) 0 (pv_identities providers)) (\<lambda>networks.
     io_then (open_luks D device True) (\<lambda>_.
     io_then (read_secret X existing_key_file 8192) (\<lambda>old.
     io_then (io_map_err Cli_Luks (on_luks (test_credential D None old))) (\<lambda>_.
     io_then (read_secret X signing_key 32) (\<lambda>seed.
     if length seed \<noteq> 32 then io_of (Err (message ''signing seed must be 32 bytes''))
     else
       let signer = signing_key_from_seed (eddsa M) seed in
       io_then (io_of (map_err Cli_Engine (tpm2_new T tcti))) (\<lambda>transport.
       io_then (enroll_descriptor M T D transport pcr_mask threshold networks) (\<lambda>d.
       io_then (journal_begin P J (clock M) journal_path d) (\<lambda>jn.
       io_then (enroll_prepare M (https M L (pv_network providers)) (tpm2 M T transport) d signer schedule) (\<lambda>prepared.
       io_then (journal_commit (prims M) P J (clock M) jn d (pe_envelope prepared)
         (on_luks (add_enrollment D (d_slot d) old (pe_credential prepared) (pe_envelope prepared)))) (\<lambda>_.
       io_of (Ok ())))))))))))))"

section \<open>Resume\<close>

definition attach_recovered where
  "attach_recovered M D pending_path slot credential raw =
     io_then (observing (set_storage PendingReconciliation)) (\<lambda>_.
     io_then (observe_stage (clock M) ''storage_attach'') (\<lambda>_.
     io_then (io_map_err (\<lambda>e. Cli_Other (retain_message pending_path) (Some (Cli_Luks e)))
       (on_luks (attach_enrollment D slot credential raw))) (\<lambda>token.
     io_then (observe_at (clock M) committed) (\<lambda>_. io_of (Ok token)))))"

definition resume_enrollment where
  "resume_enrollment M L T D X schedule device config trust_key pending_path tcti =
     io_then (read_array X 32 trust_key) (\<lambda>trusted.
     io_then (cli_read_bounded X pending_path MAX_ENVELOPE) (\<lambda>raw.
     io_then (io_of (map_err Cli_Envelope (authenticate (prims M) (voprf M) (cbor_lib M) (eddsa M) raw trusted))) (\<lambda>env.
     let slot = d_slot (eb_descriptor (ae_body env)) in
     io_then (open_luks D device True) (\<lambda>_.
     io_then (providers_read (prims M) L X config) (\<lambda>providers.
     io_then (observing (configure_providers (map pi_provider_id (pv_identities providers)))) (\<lambda>_.
     io_then (io_of (map_err Cli_Engine (tpm2_new T tcti))) (\<lambda>transport.
     io_then (observe_stage (clock M) ''recover'') (\<lambda>_.
     io_then (io_map_err Cli_Luks (on_luks volume_uuid)) (\<lambda>uuid.
     io_then (observed_engine report_default (unlock_observed M raw trusted uuid slot (https M L (pv_network providers))
       (tpm2 M T transport) schedule)) (\<lambda>(recovered, _).
     io_then (attach_recovered M D pending_path slot (ur_credential recovered) raw) (\<lambda>_.
     io_of (Ok ()))))))))))))"

section \<open>Unlock and dispatch\<close>

definition use_credential where
  "use_credential M D mapping slot credential =
     (case mapping of
        Some name \<Rightarrow>
          io_then (observe_stage (clock M) ''activate'') (\<lambda>_. io_map_err Cli_Luks (on_luks (activate D slot credential name)))
      | None \<Rightarrow>
          io_then (observe_stage (clock M) ''check'') (\<lambda>_.
          io_then (io_map_err Cli_Luks (on_luks (test_credential D (Some slot) credential))) (\<lambda>_.
          io_of (Ok ()))))"

definition unlock_volume where
  "unlock_volume M L T D X schedule device config trust_key token_id tcti mapping =
     io_then (providers_read (prims M) L X config) (\<lambda>providers.
     io_then (observing (configure_providers (map pi_provider_id (pv_identities providers)))) (\<lambda>_.
     io_then (read_array X 32 trust_key) (\<lambda>trusted.
     io_then (open_luks D device False) (\<lambda>_.
     io_then (io_map_err Cli_Luks (on_luks (read_token D token_id))) (\<lambda>token.
     io_then (io_of (map_err Cli_Engine (tpm2_new T tcti))) (\<lambda>transport.
     io_then (observe_stage (clock M) ''recover'') (\<lambda>_.
     io_then (io_map_err Cli_Luks (on_luks volume_uuid)) (\<lambda>uuid.
     io_then (observed_engine report_default (unlock_observed M (te_bytes token) trusted uuid (te_slot token)
       (https M L (pv_network providers)) (tpm2 M T transport) schedule)) (\<lambda>(recovered, _).
     use_credential M D mapping (te_slot token) (ur_credential recovered))))))))))"

definition command_name :: "command \<Rightarrow> string" where
  "command_name c =
     (case c of
        Enroll _ _ _ _ _ _ _ _ \<Rightarrow> ''enroll''
      | ResumeEnrollment _ _ _ _ _ \<Rightarrow> ''resume''
      | UnlockVolume _ _ _ _ _ mapping \<Rightarrow> (if mapping \<noteq> None then ''activate'' else ''check'')
      | PcrDigest _ _ \<Rightarrow> [])"

definition run_observed where
  "run_observed M L T D P J X schedule c =
     (case c of
        Enroll device config existing_key_file signing_key journal_path tcti pcr_mask threshold \<Rightarrow>
          enroll M L T D P J X schedule device config existing_key_file signing_key journal_path tcti pcr_mask threshold
      | ResumeEnrollment device config trust_key pending_path tcti \<Rightarrow>
          resume_enrollment M L T D X schedule device config trust_key pending_path tcti
      | UnlockVolume device config trust_key token_id tcti mapping \<Rightarrow>
          unlock_volume M L T D X schedule device config trust_key token_id tcti mapping
      | PcrDigest _ _ \<Rightarrow> io_of (Err (message ''unexpected platform command'')))"

text \<open>\<open>linux::run\<close> on a world: the result and the state with the events of the operation, which a PCR digest does not have.\<close>

definition linux_run where
  "linux_run M L T D P J X schedule c w =
     (case c of
        PcrDigest tcti pcr_mask \<Rightarrow>
          (case tpm2_new T tcti of
             Err e \<Rightarrow> Some (Err (Cli_Engine e), None, w)
           | Ok transport \<Rightarrow>
               (case pcr_digest T transport pcr_mask w of
                  (r, w') \<Rightarrow> Some (map_ok (\<lambda>_. ()) (map_err Cli_Engine r), None, w')))
      | _ \<Rightarrow>
          (case clock M w of (now, w0) \<Rightarrow>
           case closing_luks D (run_observed M L T D P J X schedule c)
               \<lparr>cl_world = w0, cl_luks = None, cl_op = operation_new (command_name c) now\<rparr> of
             None \<Rightarrow> None
           | Some (r, s) \<Rightarrow>
               (case clock M (cl_world s) of (now, w1) \<Rightarrow> case clock M w1 of (now', w2) \<Rightarrow>
                  Some (r, Some (finish_operation r now now' (cl_op s)), w2))))"

section \<open>The events of a command\<close>

abbreviation reporting :: "('l, 'w) cli \<Rightarrow> bool" where
  "reporting s \<equiv> wf_operation (cl_op s)"

lemma reporting_calls [maintained]:
  "maintains reporting (cli_call g f)" "maintains reporting (cli_engine report m)" "maintains reporting (persist h)"
  by (auto simp: maintains_def cli_call_def cli_engine_def persist_def split: prod.splits option.splits)

lemma reporting_luks [maintained]:
  "maintains reporting (on_luks m)" "maintains reporting (open_luks D device writable)"
  by (auto simp: maintains_def on_luks_def open_luks_def split: option.splits prod.splits result.splits)

lemma reporting_observing: "(\<And>cx. wf_operation cx \<Longrightarrow> wf_operation (f cx)) \<Longrightarrow> maintains reporting (observing f)"
  by (auto simp: maintains_def observing_def)

lemma reporting_observed [maintained]:
  "maintains reporting (observing (set_storage storage))" "maintains reporting (observing (configure_providers ids))"
  "maintains reporting (observing (observe_engine report))"
  by (rule reporting_observing, erule set_storage_wf configure_providers_wf observe_engine_wf)+

lemma reporting_stage [maintained]: "stage \<in> set stage_names \<Longrightarrow> maintains reporting (observe_stage clk stage)"
  by (auto simp: maintains_def observe_stage_def stage_wf split: prod.splits)

lemma reporting_at [maintained]:
  "stage \<in> set stage_names \<Longrightarrow> maintains reporting (observe_at clk (milestone stage))" "maintains reporting (observe_at clk committed)"
  by (auto simp: maintains_def observe_at_def milestone_wf committed_wf split: prod.splits)

lemma reporting_path [maintained]: "maintains reporting (path_value J path)"
  by (auto simp: maintains_def path_value_def io_of_def)

lemma reporting_journal [maintained]:
  "maintains reporting (journal_record P jn entry)" "maintains reporting (journal_phase P J jn phase d)"
  unfolding journal_phase_def journal_record_def by (intro maintained)+

lemma reporting_begin [maintained]: "maintains reporting (journal_begin P J clk path d)"
  unfolding journal_begin_def Let_def by (intro maintained) (simp add: stage_names_def)

lemma reporting_add:
  assumes "maintains reporting adding"
  shows "maintains reporting (storage_add jn adding)"
  unfolding maintains_def
proof (intro allI impI)
  fix s r s' assume s: "reporting s" and run: "storage_add jn adding s = Some (r, s')"
  then obtain q t where q: "adding s = Some (q, t)" by (cases "adding s") (auto simp: storage_add_def)
  then have "reporting t" using assms s unfolding maintains_def by blast
  then show "reporting s'" using run q by (cases q) (auto simp: storage_add_def set_storage_wf split: if_splits)
qed

lemma reporting_commit [maintained]:
  "maintains reporting adding \<Longrightarrow> maintains reporting (journal_commit C P J clk jn d envelope adding)"
  unfolding journal_commit_def journal_prepare_def pending_bundle_def journal_confirm_def
  by (intro maintained reporting_add) (simp_all add: stage_names_def)

lemma reporting_reads [maintained]:
  "maintains reporting (cli_read_bounded X path n)" "maintains reporting (read_array X n path)" "maintains reporting (read_secret X path n)"
  unfolding read_array_def cli_read_bounded_def read_secret_def by (intro maintained)+

lemma reporting_providers [maintained]:
  "maintains reporting (read_providers C X path config)" "maintains reporting (providers_read C L X path)"
  "maintains reporting (bindings_from fill index identities)"
proof -
  show *: "maintains reporting (read_providers C X path config)" for config
  proof (induction config)
    case (Cons p config)
    then show ?case unfolding read_providers.simps by (intro maintained)
  qed (simp add: maintained)
  show "maintains reporting (providers_read C L X path)"
    unfolding providers_read_def by (intro maintained *)
  show "maintains reporting (bindings_from fill index identities)"
  proof (induction identities arbitrary: index)
    case (Cons i identities)
    then show ?case unfolding bindings_from.simps by (intro maintained)
  qed (simp add: maintained)
qed

lemma reporting_engine [maintained]: "maintains reporting (observed_engine report m)"
  unfolding observed_engine_def by (intro maintained)

lemma reporting_enroll: "maintains reporting (enroll M L T D P J X schedule device config existing_key_file signing_key journal_path tcti pcr_mask threshold)"
  unfolding enroll_def enroll_descriptor_def enroll_prepare_def Let_def
  by (intro maintained) (simp_all add: stage_names_def)

lemma reporting_resume: "maintains reporting (resume_enrollment M L T D X schedule device config trust_key pending_path tcti)"
  unfolding resume_enrollment_def attach_recovered_def Let_def
  by (intro maintained) (simp_all add: stage_names_def)

lemma reporting_unlock: "maintains reporting (unlock_volume M L T D X schedule device config trust_key token_id tcti mapping)"
  unfolding unlock_volume_def use_credential_def by (intro maintained) (simp_all add: stage_names_def)

lemma reporting_run: "maintains reporting (run_observed M L T D P J X schedule c)"
  unfolding run_observed_def
  by (cases c) (simp_all add: reporting_enroll reporting_resume reporting_unlock maintained)

lemma closing_luks_run:
  assumes "closing_luks D m s = Some (r, s')"
  obtains t where "m s = Some (r, t)" "cl_op s' = cl_op t"
proof -
  obtain t where t: "m s = Some (r, t)"
    and "s' = (case cl_luks t of None \<Rightarrow> t | Some dev \<Rightarrow> t\<lparr>cl_luks := None, cl_world := crypt_free D (dev_cd dev) (cl_world t)\<rparr>)"
    using assms by (auto simp: closing_luks_def split: option.splits)
  then have "cl_op s' = cl_op t" by (cases "cl_luks t") simp_all
  with t show ?thesis by (rule that)
qed

lemma command_name_known: "(\<forall>tcti pcr_mask. c \<noteq> PcrDigest tcti pcr_mask) \<Longrightarrow> command_name c \<in> set operations"
  by (cases c) (simp_all add: command_name_def operations_def)

lemma linux_run_reports:
  assumes "linux_run M L T D P J X schedule c w = Some (r, Some cx, w')"
  shows "\<exists>cx' now now'. wf_operation cx' \<and> cx = finish_operation r now now' cx'"
proof -
  have command: "\<forall>tcti pcr_mask. c \<noteq> PcrDigest tcti pcr_mask"
  proof (intro allI notI)
    fix tcti pcr_mask assume "c = PcrDigest tcti pcr_mask"
    then show False using assms by (auto simp: linux_run_def split: result.splits prod.splits)
  qed
  obtain now w0 where now: "clock M w = (now, w0)" by fastforce
  let ?s = "\<lparr>cl_world = w0, cl_luks = None, cl_op = operation_new (command_name c) now\<rparr>"
  have unfolded: "linux_run M L T D P J X schedule c w =
      (case closing_luks D (run_observed M L T D P J X schedule c) ?s of
         None \<Rightarrow> None
       | Some (r, s) \<Rightarrow> (case clock M (cl_world s) of (now, w1) \<Rightarrow> case clock M w1 of (now', w2) \<Rightarrow>
           Some (r, Some (finish_operation r now now' (cl_op s)), w2)))"
    using command now by (cases c) (simp_all add: linux_run_def)
  then obtain s n n' where run: "closing_luks D (run_observed M L T D P J X schedule c) ?s = Some (r, s)"
    and cx: "cx = finish_operation r n n' (cl_op s)"
    using assms by (auto split: option.splits prod.splits)
  obtain t where t: "run_observed M L T D P J X schedule c ?s = Some (r, t)" "cl_op s = cl_op t"
    by (rule closing_luks_run [OF run])
  have "reporting ?s" using operation_new_wf [OF command_name_known [OF command]] by simp
  then have "reporting t" using reporting_run t(1) unfolding maintains_def by blast
  then show ?thesis using cx t(2) by auto
qed

section \<open>What an unlock has seen\<close>

lemma observed_engine_Ok:
  assumes "observed_engine report m s = Some (Ok (x, report'), s')"
  obtains t where "m \<lparr>op_world = cl_world s, op_report = report\<rparr> = Some (Ok x, t)" "op_report t = report'"
    "cl_world s' = op_world t" "cl_luks s' = cl_luks s"
  using assms
  by (auto simp: observed_engine_def cli_engine_def observing_def io_simps result_simps split: option.splits prod.splits)

lemma on_luks_Ok:
  assumes "io_map_err g (on_luks m) s = Some (Ok x, s')"
  obtains dev t where "cl_luks s = Some dev" "m \<lparr>ls_dev = dev, ls_world = cl_world s\<rparr> = Some (Ok x, t)"
    "cl_luks s' = Some (ls_dev t)" "cl_world s' = ls_world t"
  using assms by (auto simp: on_luks_def io_simps split: option.splits prod.splits)

lemma stage_keeps_luks: "observe_stage clk stage s = Some (r, s') \<Longrightarrow> cl_luks s' = cl_luks s"
  by (auto simp: observe_stage_def split: prod.splits)

lemma unlock_volume_Ok:
  assumes "unlock_volume M L T D X schedule device config trust_key token_id tcti mapping s = Some (Ok (), s')"
  shows "\<exists>providers trusted token transport dev env recovered unsealed credential deadline.
    (\<exists>s s0 s1 s2 u s3 t t'. providers_read (prims M) L X config s = Some (Ok providers, s0)
         \<and> cl_world s1 = cl_world s0 \<and> cl_luks s1 = cl_luks s0
         \<and> read_array X 32 trust_key s1 = Some (Ok trusted, s2) \<and> open_luks D device False s2 = Some (Ok u, s3)
         \<and> cl_luks s3 = Some (ls_dev t) \<and> cl_world s3 = ls_world t
         \<and> read_token D token_id t = Some (Ok token, t') \<and> ls_dev t' = dev)
    \<and> length trusted = 32 \<and> tpm2_new T tcti = Ok transport
    \<and> authenticate (prims M) (voprf M) (cbor_lib M) (eddsa M) (te_bytes token) trusted = Ok env
    \<and> d_volume_uuid (eb_descriptor (ae_body env)) = luks_uuid dev \<and> d_slot (eb_descriptor (ae_body env)) = te_slot token
    \<and> unlock_evidence M (https M L (pv_network providers)) (tpm2 M T transport) deadline env recovered unsealed credential
    \<and> (case mapping of
         Some name \<Rightarrow> \<exists>t t'. ls_dev t = dev \<and> activate D (te_slot token) credential name t = Some (Ok (), t')
       | None \<Rightarrow> \<exists>t n t'. ls_dev t = dev \<and> test_credential D (Some (te_slot token)) credential t = Some (Ok n, t'))"
proof -
  obtain providers s0 u0 s1 trusted s2 opened s3 token s4 transport s4' u s5 uuid s6 p s7 where
    configured: "providers_read (prims M) L X config s = Some (Ok providers, s0)"
    and identities: "observing (configure_providers (map pi_provider_id (pv_identities providers))) s0
      = Some (Ok u0 :: (unit, cli_error) result, s1)"
    and trusted: "read_array X 32 trust_key s1 = Some (Ok trusted, s2)"
    and opened: "open_luks D device False s2 = Some (Ok opened, s3)"
    and token: "io_map_err Cli_Luks (on_luks (read_token D token_id)) s3 = Some (Ok token, s4)"
    and parsed: "io_of (map_err Cli_Engine (tpm2_new T tcti)) s4 = Some (Ok transport, s4')"
    and staged: "observe_stage (clock M) ''recover'' s4' = Some (Ok u :: (unit, cli_error) result, s5)"
    and uuid: "io_map_err Cli_Luks (on_luks volume_uuid) s5 = Some (Ok uuid, s6)"
    and engine: "observed_engine report_default (unlock_observed M (te_bytes token) trusted uuid (te_slot token)
       (https M L (pv_network providers)) (tpm2 M T transport) schedule) s6 = Some (Ok p, s7)"
    and last: "(case p of (recovered, _) \<Rightarrow> use_credential M D mapping (te_slot token) (ur_credential recovered)) s7 = Some (Ok (), s')"
    using assms unfolding unlock_volume_def io_then_Ok_iff by blast
  obtain recovered report where p: "p = (recovered, report)" by fastforce
  have transport: "tpm2_new T tcti = Ok transport" and stage: "observe_stage (clock M) ''recover'' s4 = Some (Ok () :: (unit, cli_error) result, s5)"
    using parsed staged by (auto simp: io_of_def result_simps)
  note unlocked = engine [unfolded p] and rest = last [unfolded p prod.case use_credential_def]
  have len: "length trusted = 32" using trusted by (auto simp: read_array_def io_simps split: if_splits)
  obtain dev0 t0 where read: "read_token D token_id \<lparr>ls_dev = dev0, ls_world = cl_world s3\<rparr> = Some (Ok token, t0)" "cl_luks s4 = Some (ls_dev t0)"
    and dev0: "cl_luks s3 = Some dev0"
    by (rule on_luks_Ok [OF token])
  define dev where "dev = ls_dev t0"
  have dev: "cl_luks s5 = Some dev" using read(2) stage_keeps_luks [OF stage] by (simp add: dev_def)
  have uuid': "uuid = luks_uuid dev" "cl_luks s6 = Some dev"
    using uuid dev by (auto simp: on_luks_def volume_uuid_def io_simps split: option.splits)
  obtain t where run: "unlock_observed M (te_bytes token) trusted uuid (te_slot token) (https M L (pv_network providers)) (tpm2 M T transport)
      schedule \<lparr>op_world = cl_world s6, op_report = report_default\<rparr> = Some (Ok recovered, t)" and s7: "cl_luks s7 = Some dev"
    by (rule observed_engine_Ok [OF unlocked]) (use uuid'(2) in simp)
  obtain env shares unsealed started where
    auth: "authenticate (prims M) (voprf M) (cbor_lib M) (eddsa M) (te_bytes token) trusted = Ok env"
    "d_volume_uuid (eb_descriptor (ae_body env)) = uuid" "d_slot (eb_descriptor (ae_body env)) = te_slot token"
    and evidence: "unlock_evidence M (https M L (pv_network providers)) (tpm2 M T transport) (started + OPERATION_BUDGET) env shares unsealed
      (ur_credential recovered)"
    by (rule unlock_observed_Ok [OF run])
  have used: "case mapping of
      Some name \<Rightarrow> \<exists>t t'. ls_dev t = dev \<and> activate D (te_slot token) (ur_credential recovered) name t = Some (Ok (), t')
    | None \<Rightarrow> \<exists>t n t'. ls_dev t = dev \<and> test_credential D (Some (te_slot token)) (ur_credential recovered) t = Some (Ok n, t')"
  proof (cases mapping)
    case None
    then obtain u s8 n s9 where s8: "observe_stage (clock M) ''check'' s7 = Some (Ok u :: (unit, cli_error) result, s8)"
      and tested: "io_map_err Cli_Luks (on_luks (test_credential D (Some (te_slot token)) (ur_credential recovered))) s8 = Some (Ok n, s9)"
      using rest unfolding None option.case io_then_Ok_iff by blast
    obtain t where "test_credential D (Some (te_slot token)) (ur_credential recovered) \<lparr>ls_dev = dev, ls_world = cl_world s8\<rparr> = Some (Ok n, t)"
      by (rule on_luks_Ok [OF tested]) (use stage_keeps_luks [OF s8] s7 in simp)
    then show ?thesis unfolding None option.case by (metis luks_state.select_convs(1))
  next
    case (Some name)
    then obtain u s8 where s8: "observe_stage (clock M) ''activate'' s7 = Some (Ok u :: (unit, cli_error) result, s8)"
      and activated: "io_map_err Cli_Luks (on_luks (activate D (te_slot token) (ur_credential recovered) name)) s8 = Some (Ok (), s')"
      using rest unfolding Some option.case io_then_Ok_iff by blast
    obtain t where "activate D (te_slot token) (ur_credential recovered) name \<lparr>ls_dev = dev, ls_world = cl_world s8\<rparr> = Some (Ok (), t)"
      by (rule on_luks_Ok [OF activated]) (use stage_keeps_luks [OF s8] s7 in simp)
    then show ?thesis unfolding Some option.case by (metis luks_state.select_convs(1))
  qed
  have kept: "cl_world s1 = cl_world s0" "cl_luks s1 = cl_luks s0"
    using identities by (auto simp: observing_def)
  have reads: "\<exists>s s0 s1 s2 u s3 t t'. providers_read (prims M) L X config s = Some (Ok providers, s0)
         \<and> cl_world s1 = cl_world s0 \<and> cl_luks s1 = cl_luks s0
         \<and> read_array X 32 trust_key s1 = Some (Ok trusted, s2) \<and> open_luks D device False s2 = Some (Ok u, s3)
         \<and> cl_luks s3 = Some (ls_dev t) \<and> cl_world s3 = ls_world t
         \<and> read_token D token_id t = Some (Ok token, t') \<and> ls_dev t' = dev"
    using dev0 read(1) dev_def
    by (intro exI [of _ s] exI [of _ s0] exI [of _ s1] exI [of _ s2] exI [of _ opened] exI [of _ s3] exI [of _ "\<lparr>ls_dev = dev0, ls_world = cl_world s3\<rparr>"]
        exI [of _ t0] conjI configured kept trusted opened) simp_all
  show ?thesis
    by ((rule exI)+, intro conjI, rule reads, rule len, rule transport, rule auth(1),
      (simp only: auth(2) uuid'(1)), rule auth(3), rule evidence, rule used)
qed

lemma unlock_command_Ok:
  assumes "linux_run M L T D P J X schedule (UnlockVolume device config trust_key token_id tcti mapping) w = Some (Ok (), cx, w')"
  obtains s s' where "unlock_volume M L T D X schedule device config trust_key token_id tcti mapping s = Some (Ok (), s')"
  using assms by (auto simp: linux_run_def run_observed_def closing_luks_def split: prod.splits option.splits)

section \<open>A command line and a volume\<close>

text \<open>One configured provider, a trust key and a volume that has an envelope as token 0 of slot 1, all without a world.\<close>

definition example_inputs :: "unit cli_files" where
  "example_inputs =
     \<lparr>cf_take = (\<lambda>path n w. (Some (take n (if path = ''trust'' then replicate 32 1 else [1])), w)),
      cf_open_secret = (\<lambda>path w. (None, w)),
      cf_config = (\<lambda>_. Some [\<lparr>pc_provider_id = ''provider'', pc_key_id = ''key'', pc_public_key = ''public'', pc_url = ''https://host'',
        pc_ca_file = ''ca''\<rparr>]),
      cf_hex_decode = (\<lambda>text. Some (if text = ''provider'' then replicate 32 4 else if text = ''key'' then replicate 32 2 else replicate 49 2))\<rparr>"

definition example_volume :: "bytes \<Rightarrow> (unit, unit, unit, unit) luks_lib" where
  "example_volume raw =
     \<lparr>crypt_init = (\<lambda>name w. ((0, Some ()), w)), crypt_free = (\<lambda>_ w. w), crypt_load = (\<lambda>_ kind w. (0, w)),
      crypt_get_uuid = (\<lambda>_ w. Some [65]), crypt_get_metadata_size = (\<lambda>_ w. (0, 0x8000)), crypt_dump_json = (\<lambda>_ w. (0, Some [])),
      crypt_keyslot_status = (\<lambda>_ n w. 2), crypt_keyslot_add_by_passphrase = (\<lambda>_ n old new w. (-1, w)),
      crypt_activate_by_passphrase = (\<lambda>_ name n credential w. (1, w)),
      crypt_token_json_set = (\<lambda>_ n json w. (-1, w)), crypt_token_json_get = (\<lambda>_ n w. (0, Some [65])),
      open_file = (\<lambda>path writable w. (Ok (), w)), raw_fd = (\<lambda>_. 3), try_clone = (\<lambda>_ w. (Ok (), w)),
      set_lock = (\<lambda>_ w. (Ok (), w)), clear_lock = (\<lambda>_ w. w), sync_all = (\<lambda>_ w. (Ok (), w)),
      parse_uuid = (\<lambda>text. Some (replicate 16 2)), value_from_slice = (\<lambda>_. Some ()), value_get = (\<lambda>_ _. Some ()),
      value_as_object = (\<lambda>_. Some (\<lambda>_. None)), value_to_string = (\<lambda>_. None),
      token_json = \<lparr>token_to_json = (\<lambda>_. None), token_from_json = (\<lambda>_. Some \<lparr>tok_kind = ''leelo'', tok_keyslots = [''1''], tok_envelope = []\<rparr>),
        base64_encode = (\<lambda>_. []), base64_decode = (\<lambda>_. Some raw)\<rparr>\<rparr>"

definition example_opened :: "(unit, unit) luks2" where
  "example_opened = \<lparr>dev_cd = (), dev_file = (), dev_uuid = replicate 16 2, dev_writable = False\<rparr>"

lemma example_opened_uuid: "dev_uuid example_opened = replicate 16 2"
  by (simp add: example_opened_def)

lemma example_open:
  "open_luks (example_volume raw) path False s = Some (Ok example_opened, s\<lparr>cl_luks := Some example_opened\<rparr>)"
  "reload (example_volume raw) \<lparr>ls_dev = example_opened, ls_world = w\<rparr> = Some (Ok (), \<lparr>ls_dev = example_opened, ls_world = w\<rparr>)"
  by (simp_all add: open_luks_def open_device_def reload_def free_context_def from_file_def luks_steps cstring_fd_path to_str_def
      example_volume_def example_opened_def)

lemma example_slot: "\<not> (32 :: u8) \<le> 1" "decimal (Suc 0) = ''1''"
  by (simp add: word_le_nat_alt, simp add: decimal.simps digit_def char_of_def bit_0)

lemma example_token:
  assumes "raw \<noteq> []" "length raw \<le> 64 * 1024"
  shows "read_token (example_volume raw) 0 \<lparr>ls_dev = example_opened, ls_world = w\<rparr>
    = Some (Ok \<lparr>te_slot = 1, te_bytes = raw\<rparr>, \<lparr>ls_dev = example_opened, ls_world = w\<rparr>)"
proof -
  have "decode_token (token_json (example_volume raw)) (text_of [65]) = Ok \<lparr>te_slot = 1, te_bytes = raw\<rparr>"
    using assms by (simp add: decode_token_def example_volume_def parse_u8_def is_digit_def decimal_value_def text_of_def example_slot)
  then show ?thesis
    by (simp add: read_token_def example_open cached_token_def luks_steps to_str_def)
       (simp add: example_volume_def to_str_def luks_steps)
qed

lemma example_activates:
  assumes "credential \<noteq> []" "length credential \<le> 8192"
  shows "activate (example_volume raw) 1 credential ''root'' \<lparr>ls_dev = example_opened, ls_world = w\<rparr>
    = Some (Ok (), \<lparr>ls_dev = example_opened, ls_world = w\<rparr>)"
proof -
  have "activate_inner (example_volume raw) (Some 1) credential (Some ''root'') \<lparr>ls_dev = example_opened, ls_world = w\<rparr>
    = Some (Ok 1, \<lparr>ls_dev = example_opened, ls_world = w\<rparr>)"
    using assms by (simp add: activate_inner_def luks_steps is_some_and_def cstring_new_def u8_try_from_def example_volume_def example_slot)
  then show ?thesis
    by (simp add: activate_def example_open is_alphanumeric_def is_digit_def luks_steps)
qed

abbreviation example_configured :: "bytes \<rightharpoonup> (unit, unit) configured_endpoint" where
  "example_configured \<equiv> [replicate 32 4 \<mapsto> \<lparr>ce_url = (), ce_client = ()\<rparr>]"

lemma example_providers:
  "providers_read plain_primitives example_http example_inputs ''config'' s
     = Some (Ok \<lparr>pv_network = example_configured,
         pv_identities = [\<lparr>pi_provider_id = replicate 32 4, pi_key_id = replicate 32 2, pi_public_key = replicate 49 2\<rparr>]\<rparr>, s)"
proof -
  have "key_id plain_primitives (replicate 49 2) = replicate 32 2"
    by (simp add: key_id_def hash_context_def plain_primitives_def)
  then show ?thesis
    by (simp add: providers_read_def cli_read_bounded_def cli_call_def unhex_def https_new_def configure_endpoint_def endpoint_invalid_def
       example_inputs_def example_http_def io_simps result_simps) blast
qed

lemma example_unlocks:
  "\<exists>raw cx. \<forall>(P :: (unit, unit) persistence) J. linux_run example_platform example_http example_tss (example_volume raw) P J example_inputs
     (round_robin 0 1) (UnlockVolume ''volume'' ''config'' ''trust'' 0 ''device:/dev/tpmrm0'' (Some ''root'')) () = Some (Ok (), Some cx, ())"
proof -
  obtain pe s' where enrollment: "prepare_observed example_platform example_https example_adapter example_descriptor example_signer
      example_start = Some (Ok pe, s')" using example_system_enrolls by blast
  let ?raw = "pe_envelope pe" and ?net = "https example_platform example_http example_configured"
  obtain res t where unlock: "unlock_observed example_platform ?raw (replicate 32 1) (replicate 16 2) 1 ?net
      (tpm2 example_platform example_tss ''device:/dev/tpmrm0'') (round_robin 0 1) example_start = Some (Ok res, t)"
    using example_system_unlocks [OF enrollment, of "example_configured" example_start]
    by (auto simp: example_descriptor_def example_adapter_def signing_public_key_def plain_ed25519_def)
  obtain env recovered unsealed deadline where
    auth: "authenticate (prims example_platform) (voprf example_platform) (cbor_lib example_platform) (eddsa example_platform)
      ?raw (replicate 32 1) = Ok env"
    and evidence: "unlock_evidence example_platform ?net (tpm2 example_platform example_tss ''device:/dev/tpmrm0'') deadline env
      recovered unsealed (ur_credential res)"
    by (rule unlock_observed_Ok [OF unlock]) (rule that)
  obtain encoded signature where parts: "wf_body (ae_body env)" "length signature = 64" "?raw = put_signed rfc8949 encoded signature"
    "length ?raw \<le> MAX_ENVELOPE" by (rule authenticate_Ok [OF auth [unfolded example_platform_simps]])
  have raw: "?raw \<noteq> []" "length ?raw \<le> 64 * 1024" and payload: "length (wk_ciphertext (eb_payload (ae_body env))) = 48"
    using parts by (auto simp: put_signed_def rfc8949_def wf_body_def wf_wrapped_def)
  have "length (ur_credential res) = 32"
    using evidence payload
    by (auto simp: unlock_evidence_def payload_evidence_authenticate_def open_key_def plain_primitives_def and_then_Ok_iff result_simps
        split: if_splits)
  then have credential: "ur_credential res \<noteq> []" "length (ur_credential res) \<le> 8192" by auto
  let ?run = "unlock_volume example_platform example_http example_tss (example_volume ?raw) example_inputs (round_robin 0 1)
      ''volume'' ''config'' ''trust'' 0 ''device:/dev/tpmrm0'' (Some ''root'')"
  have trust: "read_array example_inputs 32 ''trust'' s = Some (Ok (replicate 32 1), s)" for s :: "((unit, unit) luks2 option, unit) cli"
    by (simp add: read_array_def cli_read_bounded_def cli_call_def example_inputs_def io_simps result_simps)
  have connected: "tpm2_new example_tss ''device:/dev/tpmrm0'' = Ok ''device:/dev/tpmrm0''"
    by (simp add: tpm2_new_def tss_result_def example_tss_def result_simps)
  have run: "\<exists>s'. ?run s = Some (Ok (), s')" for s :: "((unit, unit) luks2 option, unit) cli"
    unfolding unlock_volume_def io_then_def use_credential_def observed_engine_def cli_engine_def
    by (simp add: example_providers trust connected example_open example_token [OF raw] example_activates [OF credential] unlock [simplified]
      observing_def observe_stage_def on_luks_def volume_uuid_def luks_uuid_def example_opened_uuid io_of_def io_map_err_def
      result_simps)
  let ?command = "UnlockVolume ''volume'' ''config'' ''trust'' 0 ''device:/dev/tpmrm0'' (Some ''root'')"
  obtain s' where "?run \<lparr>cl_world = (), cl_luks = None, cl_op = operation_new (command_name ?command) 7\<rparr> = Some (Ok (), s')"
    using run by blast
  then have "linux_run example_platform example_http example_tss (example_volume ?raw) P J example_inputs (round_robin 0 1) ?command ()
      = Some (Ok (), Some (finish_operation (Ok ()) 7 7 (cl_op s')), ())" for P :: "(unit, unit) persistence" and J
    by (simp add: linux_run_def run_observed_def closing_luks_def split: option.split)
  then show ?thesis by blast
qed

text \<open>A telemetry environment that keeps durations as nanoseconds.\<close>

definition nanosecond_telemetry :: "(nat, unit) telemetry_env" where
  "nanosecond_telemetry =
     \<lparr>te_as_secs_f64 = (\<lambda>d. d), te_within_week = (\<lambda>d. d \<le> 604800 * 10 ^ 9), te_version = ''0'', te_unix_time_ms = (\<lambda>w. (None, w)),
      te_to_json = (\<lambda>_. None), te_from_json = (\<lambda>_. None), te_send_to = (\<lambda>bs path w. (Some (length bs), w))\<rparr>"

section \<open>Properties\<close>

text \<open>C40. Whatever a command does, its reports get through and tell its result: every event that an enrollment, a resume or
  an unlock hands to the emitter has labels that the emitter accepts, and it makes a record that a collector accepts at
  any counter and any time, exactly if its duration lies in the range of the schema, which is a week. The last event is
  the completion with the outcome of the command.\<close>

theorem command_events_deliverable:
  assumes "linux_run M L T D P J X schedule c w = Some (r, Some cx, w')"
    and "length (te_version E) \<le> 48" "list_all (\<lambda>c. is_alphanumeric c \<or> c \<in> set ''.-_'') (te_version E)"
  shows "(\<forall>e\<in>set (cx_emitter cx). list_all valid_label (labels e)
        \<and> (record_valid E (make_record E em e sequence time) \<longleftrightarrow> te_within_week E (te_as_secs_f64 E (tv_duration e))))
    \<and> cx_emitter cx \<noteq> [] \<and> tv_event (last (cx_emitter cx)) = ''operation_completed''
    \<and> tv_outcome (last (cx_emitter cx)) = (if is_ok r then ''success'' else ''failure'')"
proof -
  obtain cx' now now' where cx': "wf_operation cx'" "cx = finish_operation r now now' cx'"
    using linux_run_reports [OF assms(1)] by blast
  have "wf_operation cx" unfolding cx'(2) by (rule finish_operation_wf [OF cx'(1)])
  then have "\<forall>e\<in>set (cx_emitter cx). deliverable e" by (simp add: wf_operation_def list_all_iff)
  moreover have "last (cx_emitter cx) = completion_event r now cx'" "cx_emitter cx \<noteq> []"
    by (simp_all add: cx'(2) finish_operation_def Let_def hand_over_def)
  moreover have "tv_event (completion_event r now cx') = ''operation_completed''"
    "tv_outcome (completion_event r now cx') = (if is_ok r then ''success'' else ''failure'')"
    by (simp_all add: completion_event_def cli_event_def event_new_def split: prod.splits)
  ultimately show ?thesis using deliverable_record [OF _ assms(2,3)] by simp
qed

theorem command_events_deliverable_witness:
  "\<exists>raw cx. (\<forall>(P :: (unit, unit) persistence) J. linux_run example_platform example_http example_tss (example_volume raw) P J example_inputs
     (round_robin 0 1) (UnlockVolume ''volume'' ''config'' ''trust'' 0 ''device:/dev/tpmrm0'' (Some ''root'')) () = Some (Ok (), Some cx, ()))
     \<and> tv_outcome (last (cx_emitter cx)) = ''success''
     \<and> (\<forall>e\<in>set (cx_emitter cx). record_valid nanosecond_telemetry (make_record nanosecond_telemetry example_emitter e 0 None)
          \<longleftrightarrow> tv_duration e \<le> 604800 * 10 ^ 9)"
proof -
  have E: "length (te_version nanosecond_telemetry) \<le> 48"
    "list_all (\<lambda>c. is_alphanumeric c \<or> c \<in> set ''.-_'') (te_version nanosecond_telemetry)"
    by (simp_all add: nanosecond_telemetry_def is_alphanumeric_def is_digit_def)
  obtain raw cx where run: "\<forall>(P :: (unit, unit) persistence) J. linux_run example_platform example_http example_tss (example_volume raw) P J example_inputs
     (round_robin 0 1) (UnlockVolume ''volume'' ''config'' ''trust'' 0 ''device:/dev/tpmrm0'' (Some ''root'')) () = Some (Ok (), Some cx, ())"
    using example_unlocks by blast
  note told = command_events_deliverable [OF run [rule_format] E, of example_emitter 0 None]
  then have "tv_outcome (last (cx_emitter cx)) = ''success''" by simp
  moreover have "\<forall>e\<in>set (cx_emitter cx). record_valid nanosecond_telemetry (make_record nanosecond_telemetry example_emitter e 0 None)
      \<longleftrightarrow> tv_duration e \<le> 604800 * 10 ^ 9"
    using told by (simp add: nanosecond_telemetry_def)
  ultimately show ?thesis using run by blast
qed

text \<open>C6. An unlock command that reports success has read the providers from the configuration file and the key from the
  trust key file it was given, opened the given device and read the token from it, authenticated the envelope of the
  token with that key, found the UUID of this volume and the slot of the token in it, recovered the shares over the
  configured endpoints and from the TPM, and the credential that came of it activated this slot of this volume, or
  passed the check of it where no mapping was asked for.\<close>

theorem unlock_command_needs_evidence:
  assumes "linux_run M L T D P J X schedule (UnlockVolume device config trust_key token_id tcti mapping) w = Some (Ok (), cx, w')"
  shows "\<exists>providers trusted token transport dev env recovered unsealed credential deadline.
    (\<exists>s s0 s1 s2 u s3 t t'. providers_read (prims M) L X config s = Some (Ok providers, s0)
         \<and> cl_world s1 = cl_world s0 \<and> cl_luks s1 = cl_luks s0
         \<and> read_array X 32 trust_key s1 = Some (Ok trusted, s2) \<and> open_luks D device False s2 = Some (Ok u, s3)
         \<and> cl_luks s3 = Some (ls_dev t) \<and> cl_world s3 = ls_world t
         \<and> read_token D token_id t = Some (Ok token, t') \<and> ls_dev t' = dev)
    \<and> length trusted = 32 \<and> tpm2_new T tcti = Ok transport
    \<and> authenticate (prims M) (voprf M) (cbor_lib M) (eddsa M) (te_bytes token) trusted = Ok env
    \<and> d_volume_uuid (eb_descriptor (ae_body env)) = luks_uuid dev \<and> d_slot (eb_descriptor (ae_body env)) = te_slot token
    \<and> unlock_evidence M (https M L (pv_network providers)) (tpm2 M T transport) deadline env recovered unsealed credential
    \<and> (case mapping of
         Some name \<Rightarrow> \<exists>t t'. ls_dev t = dev \<and> activate D (te_slot token) credential name t = Some (Ok (), t')
       | None \<Rightarrow> \<exists>t n t'. ls_dev t = dev \<and> test_credential D (Some (te_slot token)) credential t = Some (Ok n, t'))"
proof -
  obtain s s' where "unlock_volume M L T D X schedule device config trust_key token_id tcti mapping s = Some (Ok (), s')"
    by (rule unlock_command_Ok [OF assms])
  then show ?thesis by (rule unlock_volume_Ok)
qed

theorem unlock_command_needs_evidence_witness:
  "\<exists>raw cx providers transport token (dev :: (unit, unit) luks2) env recovered unsealed credential deadline.
    (\<forall>(P :: (unit, unit) persistence) J. linux_run example_platform example_http example_tss (example_volume raw) P J example_inputs (round_robin 0 1)
      (UnlockVolume ''volume'' ''config'' ''trust'' 0 ''device:/dev/tpmrm0'' (Some ''root'')) () = Some (Ok (), Some cx, ()))
    \<and> d_volume_uuid (eb_descriptor (ae_body env)) = luks_uuid dev \<and> d_slot (eb_descriptor (ae_body env)) = te_slot (token :: token_envelope)
    \<and> unlock_evidence example_platform (https example_platform example_http (pv_network (providers :: (unit, unit) cli_providers)))
        (tpm2 example_platform example_tss transport) deadline env recovered unsealed credential"
proof -
  obtain raw cx where run: "\<forall>(P :: (unit, unit) persistence) J. linux_run example_platform example_http example_tss (example_volume raw) P J example_inputs
     (round_robin 0 1) (UnlockVolume ''volume'' ''config'' ''trust'' 0 ''device:/dev/tpmrm0'' (Some ''root'')) () = Some (Ok (), Some cx, ())"
    using example_unlocks by blast
  show ?thesis
    using unlock_command_needs_evidence [OF run [rule_format]] run by blast
qed

end
