(* ===== verification/Collector_Metrics.thy ===== *)
theory Collector_Metrics
  imports Telemetry "HOL-Library.AList" "HOL-Library.Char_ord" "HOL-Library.List_Lexorder"
begin

text \<open>
  The counters of crates/leelo-collector/src/metrics.rs: which received records count, the bounded memory of event
  identifiers and attempts that makes a record count once, the bounded registry of counters and histograms, and the
  text that is exported. A \<open>BTreeMap\<close> is an association list with distinct keys, which the export sorts. \<open>f64\<close> is the
  type \<open>'f\<close> of the record, with the operations of \<open>f64_lib\<close> and its literals by their text.
\<close>

section \<open>State\<close>












section \<open>The registry\<close>





section \<open>Acceptance\<close>













section \<open>Export\<close>







section \<open>The invariant\<close>




































section \<open>What is counted without evictions\<close>














section \<open>A concrete stream\<close>







section \<open>Properties\<close>



end
