(* ===== verification/Spec2Isabelle.thy ===== *)
theory Spec2Isabelle
  imports Policy_Sharing Policy_Session Cli_Commands Collector_Metrics
begin

text \<open>
  Verification library for leelo: network-bound LUKS2 disk unlock in which a TPM and a policy over network
  providers are mandatory factors.

  \<^bold>\<open>How the program works.\<close> Enrollment (\<open>leelo_engine::prepare_observed\<close>) draws a credential for a LUKS
  slot, encrypts it under a root key and splits the root key two-out-of-two into a TPM share and a network
  share. The TPM seals its share. The network share is split along the policy tree, and every leaf share is
  encrypted under the output of a verifiable oblivious pseudorandom function (VOPRF) whose key one provider
  holds. Descriptor, TPM blob, wrapped leaves and payload are signed as one envelope, which is kept in a LUKS2
  token. Unlock (\<open>leelo_engine::unlock_observed\<close>) authenticates the envelope, asks at most four providers at a
  time, recombines the network share when the policy is satisfied, unseals the TPM share and releases the
  credential through two one-shot state machines. leelo-net carries the requests over HTTPS to the frontend of
  leelod, which passes them to a worker that has the key; leelo-tpm talks to the TPM; leelo-luks writes slot
  and token. leelo-cli composes all of them into commands, keeps a journal of an enrollment and reports events
  through leelo-telemetry; leelo-collector counts these events and reconciles the journals that enrollments leave
  behind.

  \<^bold>\<open>Conventions.\<close> \<open>Leelo_Prelude\<close> has the machine integers (\<open>u8\<close> is \<open>8 word\<close>), \<open>result\<close> with the
  combinators the \<open>?\<close> operator stands for, \<open>outcome\<close> (a result, or \<open>None\<close> for a panic), the state-passing
  type \<open>io\<close> (\<open>None\<close> for a panic or a wait that never ends) and two locales for codecs. Fixed-size arrays are
  lists with their length in a well-formedness predicate; \<open>usize\<close> is a natural number where it only counts.
  Third-party crates, the operating system, clock and entropy are fields of parameter records (\<open>primitives\<close>,
  \<open>voprf\<close>, \<open>minicbor\<close>, \<open>platform\<close>, \<open>network_provider\<close>, \<open>tpm_provider\<close>, \<open>token_lib\<close>, \<open>luks_lib\<close>, \<open>reader\<close>,
  \<open>http_lib\<close>, \<open>tss\<close>, \<open>telemetry_env\<close>, \<open>f64_lib\<close>, \<open>persistence\<close>, \<open>printer\<close>, \<open>cli_files\<close>); what
  the code relies on is a named predicate (\<open>aead_correct\<close>, \<open>ed25519_correct\<close>, \<open>voprf_correct\<close>,
  \<open>minicbor_correct\<close>, \<open>token_lib_correct\<close>, \<open>reads_keep_header\<close>), and each has a concrete instance that
  satisfies it.

  \<^bold>\<open>Secret sharing (crates/leelo-sss).\<close> \<open>GF256\<close> (gf256.rs) shows that the constant-time multiplication is the
  product of polynomials reduced modulo 0x11b and that the addition-chain inverse is the inverse; bytes
  become a field. \<open>Field_Polynomials\<close> has Lagrange interpolation over any field. \<open>Interpolation\<close>
  (interpolation.rs) refines the loops to it. \<open>Sharing\<close> (lib.rs: \<open>Share\<close>, \<open>split\<close>, \<open>reconstruct\<close>) shows that
  any threshold subset reconstructs, that the shares at fewer coordinates are distributed alike for all secrets (a
  bijection of the random draws), that an altered share is detected when one share more is given, and what an
  accepted reconstruction implies.

  \<^bold>\<open>Policies (crates/leelo-policy).\<close> \<open>Policy_Gates\<close> (verified.rs) and \<open>Policy_Compile\<close> (verified_compile.rs) have
  the postorder gates, their evaluation and the certificate checker that relates source tree and plan.
  \<open>Policy\<close> (lib.rs: \<open>ProductionPolicy::new\<close>, \<open>network_satisfied\<close>) shows which trees are admitted, that the
  compiler's output always passes the checker, and that the decision is the tree's meaning. \<open>Policy_Sharing\<close>
  (\<open>split_network\<close>, \<open>recover_network\<close>) shows that every satisfying set of leaves recovers the secret.
  \<open>Release_Machine\<close> is the interface of a one-shot release; \<open>Policy_Session\<close> (\<open>PolicySession\<close>) and
  \<open>Release_Gate\<close> (crates/leelo-engine/src/release.rs) interpret it: release happens at most once and only after
  every factor.

  \<^bold>\<open>Encodings and cryptography.\<close> \<open>Crypto\<close> (crates/leelo-crypto) has key derivation, wrapping, signatures, the
  VOPRF wrappers and the operation generator. \<open>Wire\<close> (crates/leelo-protocol) has the two fixed-size messages.
  \<open>Cbor\<close> is the interface of minicbor, with RFC 8949 as its instance. \<open>Envelope\<close> (crates/leelo-envelope) has
  encoding, strict decoding, signing and authentication: whatever is signed authenticates, and whatever
  authenticates is the canonical encoding of a well-formed body.

  \<^bold>\<open>Engine (crates/leelo-engine).\<close> \<open>Observation\<close> (observation.rs) has the operation report, \<open>Engine\<close> (lib.rs)
  \<open>prepare\<close> and the concurrent recovery, \<open>Unlock\<close> (recovery.rs, and the entry points of lib.rs) the unlock
  operation. The scheduler is an explicit list of events: a first poll of a leaf, the arrival of an answer, or
  the deadline timer; events for leaves that are not pending do nothing, so every interleaving is a
  list. A schedule that ends while calls are pending stands for waiting forever (\<open>None\<close>).
  \<open>Engine_Recovery\<close> has the loop invariant and the reachable states with their history, \<open>Unlock_Safety\<close> what each phase has checked,
  \<open>Enrollment\<close> the connection of enrollment and unlock, \<open>Unlock_Liveness\<close> and \<open>Enrollment_Liveness\<close> that they
  succeed. \<open>Engine_Properties\<close> states the results: no credential without every factor; the credential is
  the enrolled one; an enrolled volume unlocks when providers and TPM answer; enrollment succeeds; unlock
  returns once its timer fires; at most four calls are pending and no leaf is handled twice.

  \<^bold>\<open>Storage (crates/leelo-luks).\<close> \<open>Rust_Text\<close> has the text functions of the standard library. \<open>Luks_Token\<close>
  (lib.rs) has the token: it decodes to what was encoded, and a decoded token has one reading. \<open>Luks\<close>
  (linux.rs) has the device with its write lock, and \<open>Luks_Enrollment\<close> shows that an error other than
  \<open>PartialEnrollment\<close> means that the header was not written, and that success means that slot and token were
  read back from the reloaded header.

  \<^bold>\<open>Reconciliation (crates/leelo-collector/src/reconcile.rs).\<close> \<open>Reconcile\<close> has protected reading, the states of
  expected boots, the journal reader and the tally: every boot is counted once, by evidence; journals are
  accepted exactly in the four phases of an enrollment; unresolved enrollments are never dropped.

  \<^bold>\<open>Network (crates/leelo-net, crates/leelod).\<close> \<open>Leelo_Net\<close> (lib.rs) has the endpoint configuration and one evaluation
  over HTTPS. \<open>Leelod_Metrics\<close> (metrics.rs), \<open>Leelod_Service\<close> (service.rs: the listener with its retries),
  \<open>Leelod_Worker\<close> (worker.rs: admission and the connection handler) and \<open>Leelod_Frontend\<close> (server.rs: the HTTP
  handler and the exchange with the worker) are the server. \<open>Deployment\<close> connects client, frontend and worker:
  every answer that the client accepts is an evaluation under the pinned key.

  \<^bold>\<open>TPM (crates/leelo-tpm/src/linux.rs).\<close> \<open>Tpm_Adapter\<close> has sealing, unsealing and the PCR digest over TPM2-TSS: a
  seed is released only while the PCRs have the pinned values. \<open>System\<close> puts engine, HTTPS provider, leelod and
  TPM adapter together: an unlock returns the enrolled credential, with assumptions about libraries, transports
  and the TPM only.

  \<^bold>\<open>Events (crates/leelo-telemetry).\<close> \<open>Telemetry\<close> has events, records and the emitter: whatever is counted as sent
  is accepted by the decoder. \<open>Collector_Metrics\<close> (crates/leelo-collector/src/metrics.rs) has what the collector counts
  of the received records and what it exports: its memory is bounded, and what it remembers is counted once.

  \<^bold>\<open>Commands (crates/leelo-cli).\<close> \<open>Cli_Observation\<close> (observation.rs) has the observed operation of a command and its
  events. \<open>Cli_Journal\<close> (enrollment.rs: \<open>EnrollmentJournal\<close>) has the durable writes before and after the storage
  step: at whatever point a commit stops, the reader of \<open>Reconcile\<close> finds a committed journal only if the
  storage step succeeded. \<open>Cli_Commands\<close> (enrollment.rs, linux.rs, providers.rs, main.rs) has the commands: a
  successful unlock used a credential that was recovered from a token of this volume, authenticated with the given
  trust key, over the configured endpoints, and the events of every command are accepted and end with its outcome.

  \<^bold>\<open>Bounds and fuel.\<close> One definition has fuel: \<open>split_gate\<close> recurses through gate indices, with the number of
  gates as fuel. The children of an admitted plan have smaller indices, so this is enough: splitting and
  recovering always return on an admitted policy (\<open>split_network_succeeds\<close>, \<open>recover_network_returns\<close>). All
  other loops are structural recursions over the data they walk or over the schedule. The liveness theorems
  hold for every schedule that polls and answers the leaves in order before the timer fires, with any other
  events in between (\<open>served\<close>); that is enough because a leaf starts whenever one finishes.

  \<^bold>\<open>Calls that block.\<close> A call of a provider or of the TPM is a function of the world, so each single call is taken to
  return. The deadline ends the wait for providers; it cannot interrupt a TPM driver call, and a driver that
  never returns is outside this model.

  \<^bold>\<open>Not modelled.\<close> Zeroization, constant-time behaviour, \<open>Debug\<close> and \<open>Display\<close> texts have no effect on values.
  Of leelo-cli, argument parsing, the printed lines, \<open>inspect\<close> and key generation; of leelod, the metrics
  socket, TLS and process startup; of leelo-net, the DNS resolver and the synchronous wrappers; of
  leelo-collector, the event socket, the event log and the text of the reconciliation; and leelo-probe: these are
  sockets, setup and formatted output around the operations above. Tests, fuzz targets and the assurance crate exercise the same
  functions.
\<close>

end
